(* ===== verification/Go_Base.thy ===== *)
theory Go_Base
  imports Main "HOL-Library.AList" "HOL-Library.Word" "HOL-Library.Monad_Syntax" "HOL-Library.Multiset"
begin

text \<open>
  The part of Go and of its standard library that the injector rests on, shared by every
  component: byte strings with the functions of package strings that the code calls, maps,
  64-bit integers, error values and panics, together with the rewrite collections the
  component theories use.
  \<^item> A Go string is a sequence of bytes, so it is a HOL \<open>string\<close>; a multi-byte
    UTF-8 character is several \<open>char\<close>s.
  \<^item> A Go map is an association list with distinct keys. The order of the list stands for
    nothing; a loop over a map whose order can be observed takes the order as a parameter.
  \<^item> An \<open>error\<close> is its message; a function returning \<open>(T, error)\<close> has type
    \<open>error + 'a\<close>. A function that can panic has an \<open>option\<close> type, with
    \<open>None\<close> for the panic.
\<close>

named_theorems go_string \<open>facts on the string functions\<close>
named_theorems go_map \<open>facts on lookups in maps after an operation\<close>
named_theorems go_wf \<open>well-formedness of maps and states\<close>

type_synonym error = string
type_synonym int64 = "64 word"
type_synonym 'v gomap = "(string \<times> 'v) list"

abbreviation (input) go_panic :: "'a option" where "go_panic \<equiv> None"
abbreviation (input) go_return :: "'a \<Rightarrow> 'a option" where "go_return \<equiv> Some"

text \<open>\<open>errors.Wrap\<close> of package errors prefixes the message.\<close>

definition errors_wrap :: "error \<Rightarrow> string \<Rightarrow> error" where
  "errors_wrap err msg = msg @ '': '' @ err"

section \<open>Strings\<close>

definition byte :: "char \<Rightarrow> int" where
  "byte c = of_char c"

subsection \<open>strings.Split, strings.Join, strings.ReplaceAll\<close>

fun go_split :: "char \<Rightarrow> string \<Rightarrow> string list" where
  "go_split sep [] = [[]]"
| "go_split sep (x # xs) =
     (if x = sep then [] # go_split sep xs
      else case go_split sep xs of [] \<Rightarrow> [[x]] | p # ps \<Rightarrow> (x # p) # ps)"

fun go_join :: "string \<Rightarrow> string list \<Rightarrow> string" where
  "go_join sep [] = []"
| "go_join sep [x] = x"
| "go_join sep (x # y # ys) = x @ sep @ go_join sep (y # ys)"

text \<open>\<open>strings.ReplaceAll\<close> where the replaced string is one byte.\<close>

definition replace_char :: "char \<Rightarrow> string \<Rightarrow> string \<Rightarrow> string" where
  "replace_char c r s = concat (map (\<lambda>x. if x = c then r else [x]) s)"

lemma go_split_not_Nil [simp]: "go_split sep s \<noteq> []"
  by (induction s) (auto split: list.splits)

lemma length_go_split [go_string]: "length (go_split sep s) = Suc (count_list s sep)"
  by (induction s) (auto split: list.splits)

lemma go_split_no_sep [go_string]: "sep \<notin> set s \<Longrightarrow> go_split sep s = [s]"
  by (induction s) auto

lemma go_split_append_sep [go_string]:
  "sep \<notin> set x \<Longrightarrow> go_split sep (x @ sep # ys) = x # go_split sep ys"
  by (induction x) auto

lemma go_split_pieces: "p \<in> set (go_split sep s) \<Longrightarrow> sep \<notin> set p"
proof (induction s arbitrary: p)
  case (Cons a s)
  then show ?case
    by (cases "go_split sep s") (auto split: if_splits)
qed auto

lemma go_split_chars: "p \<in> set (go_split sep s) \<Longrightarrow> set p \<subseteq> set s"
proof (induction s arbitrary: p)
  case (Cons a s)
  then show ?case
    by (cases "go_split sep s") (fastforce split: if_splits)+
qed auto

lemma go_join_Cons: "xs \<noteq> [] \<Longrightarrow> go_join sep (x # xs) = x @ sep @ go_join sep xs"
  by (cases xs) auto

lemma go_join_split [go_string]: "go_join [sep] (go_split sep s) = s"
proof (induction s)
  case (Cons a s)
  obtain p ps where ps: "go_split sep s = p # ps"
    by (cases "go_split sep s") auto
  with Cons.IH show ?case
    by (cases ps) auto
qed simp

lemma go_split_join [go_string]:
  "xs \<noteq> [] \<Longrightarrow> \<forall>x\<in>set xs. sep \<notin> set x \<Longrightarrow> go_split sep (go_join [sep] xs) = xs"
  by (induction "[sep]" xs rule: go_join.induct) (auto simp: go_split_no_sep go_split_append_sep)

lemma go_join_padded:
  "go_join (sep # pad) (x # xs) = go_join [sep] (x # map ((@) pad) xs)"
proof (induction xs arbitrary: x)
  case (Cons y ys)
  have "go_join [sep] ((pad @ y) # zs) = pad @ go_join [sep] (y # zs)" for zs
    by (cases zs) auto
  with Cons show ?case by simp
qed simp

lemma go_split_two:
  "go_split sep s = [a, b] \<Longrightarrow> s = a @ sep # b"
  using go_join_split [of sep s] by simp

lemma go_split_one: "go_split sep s = [a] \<Longrightarrow> s = a"
  using go_join_split [of sep s] by simp

lemma set_go_join: "c \<in> set (go_join sep ps) \<Longrightarrow> c \<in> set sep \<or> (\<exists>p\<in>set ps. c \<in> set p)"
  by (induction sep ps rule: go_join.induct) auto

lemma replace_char_Nil [simp]: "replace_char c r [] = []"
  by (simp add: replace_char_def)

lemma replace_char_Cons [simp]:
  "replace_char c r (x # xs) = (if x = c then r else [x]) @ replace_char c r xs"
  by (simp add: replace_char_def)

lemma replace_char_idle [go_string]: "c \<notin> set s \<Longrightarrow> replace_char c r s = s"
  by (induction s) auto

subsection \<open>strings.TrimSpace\<close>

text \<open>
  \<open>unicode.IsSpace\<close> on the UTF-8 encodings: one byte for the ASCII white space, two for
  U+0085 and U+00A0, three for U+1680, U+2000 to U+200A, U+2028, U+2029, U+202F, U+205F and
  U+3000. A string starts (ends) with such a character exactly when it starts (ends) with
  its encoding.
\<close>

definition is_space1 :: "char \<Rightarrow> bool" where
  "is_space1 a \<longleftrightarrow> (9 \<le> byte a \<and> byte a \<le> 13) \<or> byte a = 32"

definition is_space2 :: "char \<Rightarrow> char \<Rightarrow> bool" where
  "is_space2 a b \<longleftrightarrow> byte a = 194 \<and> (byte b = 133 \<or> byte b = 160)"

definition is_space3 :: "char \<Rightarrow> char \<Rightarrow> char \<Rightarrow> bool" where
  "is_space3 a b c \<longleftrightarrow>
     (byte a = 225 \<and> byte b = 154 \<and> byte c = 128) \<or>
     (byte a = 226 \<and> byte b = 128 \<and> (128 \<le> byte c \<and> byte c \<le> 138 \<or> byte c = 168 \<or> byte c = 169 \<or> byte c = 175)) \<or>
     (byte a = 226 \<and> byte b = 129 \<and> byte c = 159) \<or>
     (byte a = 227 \<and> byte b = 128 \<and> byte c = 128)"

fun trim_front :: "(char \<Rightarrow> char \<Rightarrow> bool) \<Rightarrow> (char \<Rightarrow> char \<Rightarrow> char \<Rightarrow> bool) \<Rightarrow> string \<Rightarrow> string" where
  "trim_front p q [] = []"
| "trim_front p q [a] = (if is_space1 a then [] else [a])"
| "trim_front p q [a, b] =
     (if is_space1 a then trim_front p q [b] else if p a b then [] else [a, b])"
| "trim_front p q (a # b # c # s) =
     (if is_space1 a then trim_front p q (b # c # s)
      else if p a b then trim_front p q (c # s)
      else if q a b c then trim_front p q s
      else a # b # c # s)"

definition trim_left :: "string \<Rightarrow> string" where
  "trim_left = trim_front is_space2 is_space3"

definition trim_right :: "string \<Rightarrow> string" where
  "trim_right s = rev (trim_front (\<lambda>a b. is_space2 b a) (\<lambda>a b c. is_space3 c b a) (rev s))"

definition trim_space :: "string \<Rightarrow> string" where
  "trim_space s = trim_right (trim_left s)"

text \<open>Printable ASCII other than the blank: never part of a white-space encoding.\<close>

definition plain :: "char \<Rightarrow> bool" where
  "plain c \<longleftrightarrow> 33 \<le> byte c \<and> byte c \<le> 126"

lemma trim_front_id:
  "\<not> is_space1 a \<Longrightarrow> \<forall>b. \<not> p a b \<Longrightarrow> \<forall>b c. \<not> q a b c \<Longrightarrow> trim_front p q (a # s) = a # s"
  by (induction p q "a # s" rule: trim_front.induct) auto

lemma trim_left_plain: "plain (hd s) \<Longrightarrow> trim_left s = s"
  by (cases s)
    (auto simp: trim_left_def plain_def is_space1_def is_space2_def is_space3_def intro!: trim_front_id)

lemma trim_right_plain: "s \<noteq> [] \<Longrightarrow> plain (last s) \<Longrightarrow> trim_right s = s"
proof -
  assume "s \<noteq> []" "plain (last s)"
  then obtain t a where s: "s = t @ [a]" and a: "plain a"
    by (cases s rule: rev_cases) auto
  have "trim_front (\<lambda>a b. is_space2 b a) (\<lambda>a b c. is_space3 c b a) (a # rev t) = a # rev t"
    using a by (intro trim_front_id) (auto simp: plain_def is_space1_def is_space2_def is_space3_def)
  then show ?thesis
    by (simp add: trim_right_def s)
qed

lemma trim_space_Nil [simp]: "trim_space [] = []"
  by (simp add: trim_space_def trim_left_def trim_right_def)

lemma trim_space_plain [go_string]:
  "s = [] \<or> plain (hd s) \<and> plain (last s) \<Longrightarrow> trim_space s = s"
  by (cases "s = []", simp) (auto simp: trim_space_def trim_left_plain trim_right_plain)

lemma trim_space_all_plain [go_string]: "\<forall>c\<in>set s. plain c \<Longrightarrow> trim_space s = s"
  by (cases s) (auto intro!: trim_space_plain)

lemma trim_front_space: "is_space1 a \<Longrightarrow> trim_front p q (a # s) = trim_front p q s"
  by (cases s rule: remdups_adj.cases) simp_all

lemma trim_front_blanks: "trim_front p q (replicate k CHR '' '' @ s) = trim_front p q s"
proof -
  have "is_space1 CHR '' ''"
    by (simp add: is_space1_def byte_def)
  then show ?thesis
    by (induction k) (simp_all add: trim_front_space)
qed

lemma trim_space_padded:
  "\<forall>c\<in>set s. plain c \<Longrightarrow> trim_space (replicate k CHR '' '' @ s @ replicate l CHR '' '') = s"
proof -
  assume s: "\<forall>c\<in>set s. plain c"
  have left: "trim_left (replicate k CHR '' '' @ x) = trim_left x" for x
    by (simp add: trim_left_def trim_front_blanks)
  have right: "trim_right (x @ replicate l CHR '' '') = trim_right x" for x
    by (simp add: trim_right_def trim_front_blanks)
  show ?thesis
  proof (cases s)
    case Nil
    then show ?thesis
      using left [of "replicate l CHR '' ''"] trim_front_blanks [of is_space2 is_space3 l "[]"]
      by (simp add: trim_space_def trim_left_def trim_right_def)
  next
    case (Cons c t)
    then have "trim_left (s @ replicate l CHR '' '') = s @ replicate l CHR '' ''"
      using s by (intro trim_left_plain) simp
    moreover have "trim_right s = s"
      using s Cons by (intro trim_right_plain) auto
    ultimately show ?thesis
      by (simp add: trim_space_def left right)
  qed
qed

lemma trim_left_blank: "trim_left (CHR '' '' # s) = trim_left s"
proof -
  consider "s = []" | b where "s = [b]" | b c t where "s = b # c # t"
    by (metis list.exhaust)
  then show ?thesis
    by cases (simp_all add: trim_left_def is_space1_def byte_def)
qed

lemma trim_space_blanks: "\<forall>c\<in>set s. plain c \<Longrightarrow> trim_space (replicate k CHR '' '' @ s) = s"
proof -
  assume s: "\<forall>c\<in>set s. plain c"
  have "trim_left (replicate k CHR '' '' @ s) = trim_left s"
    by (induction k) (simp_all add: trim_left_blank)
  with trim_space_all_plain [OF s] show ?thesis
    by (simp add: trim_space_def)
qed

lemma set_trim_front: "set (trim_front p q s) \<subseteq> set s"
  by (induction p q s rule: trim_front.induct) auto

lemma set_trim_space: "set (trim_space s) \<subseteq> set s"
  unfolding trim_space_def trim_left_def trim_right_def
  by (metis set_rev set_trim_front subset_trans)

text \<open>A byte that belongs to no white-space encoding survives the trimming.\<close>

lemma trim_front_keeps:
  "plain c \<Longrightarrow> (\<And>a b. p a b \<Longrightarrow> \<not> plain a \<and> \<not> plain b) \<Longrightarrow>
   (\<And>a b d. q a b d \<Longrightarrow> \<not> plain a \<and> \<not> plain b \<and> \<not> plain d) \<Longrightarrow>
   c \<in> set s \<Longrightarrow> c \<in> set (trim_front p q s)"
  by (induction p q s rule: trim_front.induct) (auto simp: plain_def is_space1_def)

lemma trim_space_keeps: "plain c \<Longrightarrow> c \<in> set s \<Longrightarrow> c \<in> set (trim_space s)"
  unfolding trim_space_def trim_left_def trim_right_def
  by (auto intro!: trim_front_keeps simp: is_space2_def is_space3_def plain_def)

subsection \<open>strings.ToLower and strings.EqualFold\<close>

text \<open>
  On ASCII letters. The code compares the results with the words true, Ignore and Fail only,
  and no character outside ASCII lowers or folds to one of their letters.
\<close>

definition to_lower_char :: "char \<Rightarrow> char" where
  "to_lower_char c = (if 65 \<le> byte c \<and> byte c \<le> 90 then char_of (byte c + 32) else c)"

definition to_lower :: "string \<Rightarrow> string" where
  "to_lower s = map to_lower_char s"

definition equal_fold :: "string \<Rightarrow> string \<Rightarrow> bool" where
  "equal_fold s t \<longleftrightarrow> to_lower s = to_lower t"

subsection \<open>Decimal numbers\<close>

definition digit_char :: "nat \<Rightarrow> char" where
  "digit_char d = char_of (48 + int d)"

definition digit_value :: "char \<Rightarrow> nat option" where
  "digit_value c = (if 48 \<le> byte c \<and> byte c \<le> 57 then Some (nat (byte c - 48)) else None)"

fun itoa :: "nat \<Rightarrow> string" where
  "itoa n = (if n < 10 then [digit_char n] else itoa (n div 10) @ [digit_char (n mod 10)])"

declare itoa.simps [simp del]

lemma digit_value_char [simp]: "d < 10 \<Longrightarrow> digit_value (digit_char d) = Some d"
  by (simp add: digit_value_def digit_char_def byte_def)

lemma plain_digit_char: "d < 10 \<Longrightarrow> plain (digit_char d)"
  by (simp add: plain_def digit_char_def byte_def)

lemma itoa_not_Nil [simp]: "itoa n \<noteq> []"
  by (subst itoa.simps) simp

lemma itoa_digits: "c \<in> set (itoa n) \<Longrightarrow> \<exists>d<10. c = digit_char d"
proof (induction n rule: itoa.induct)
  case (1 n)
  then show ?case
    by (subst (asm) (2) itoa.simps) (auto split: if_splits intro: exI [of _ "n mod 10"])
qed

lemma itoa_chars: "c \<in> set (itoa n) \<Longrightarrow> 48 \<le> byte c \<and> byte c \<le> 57"
  using itoa_digits [of c n] by (auto simp: digit_char_def byte_def)

definition atoi :: "string \<Rightarrow> nat" where
  "atoi s = foldl (\<lambda>n c. 10 * n + (case digit_value c of None \<Rightarrow> 0 | Some d \<Rightarrow> d)) 0 s"

lemma atoi_itoa: "atoi (itoa n) = n"
proof (induction n rule: itoa.induct)
  case (1 n)
  show ?case
  proof (cases "n < 10")
    case False
    then show ?thesis
      using 1 by (subst itoa.simps) (simp add: atoi_def)
  qed (subst itoa.simps, simp add: atoi_def)
qed

lemma itoa_inject [simp]: "itoa m = itoa n \<longleftrightarrow> m = n"
  by (metis atoi_itoa)

section \<open>Maps\<close>

abbreviation (input) map_get :: "'v gomap \<Rightarrow> string \<Rightarrow> 'v option" where
  "map_get m k \<equiv> map_of m k"

definition map_put :: "'v gomap \<Rightarrow> string \<Rightarrow> 'v \<Rightarrow> 'v gomap" where
  "map_put m k v = AList.update k v m"

definition map_del :: "'v gomap \<Rightarrow> string \<Rightarrow> 'v gomap" where
  "map_del m k = AList.delete k m"

definition map_keys :: "'v gomap \<Rightarrow> string list" where
  "map_keys m = map fst m"

definition wf_map :: "'v gomap \<Rightarrow> bool" where
  "wf_map m \<longleftrightarrow> distinct (map_keys m)"

lemma map_get_put [go_map]: "map_get (map_put m k v) x = (if x = k then Some v else map_get m x)"
  by (simp add: map_put_def update_conv')

lemma map_get_del [go_map]: "map_get (map_del m k) x = (if x = k then None else map_get m x)"
  by (simp add: map_del_def delete_conv')

lemma set_map_keys: "set (map_keys m) = dom (map_get m)"
  by (simp add: map_keys_def dom_map_of_conv_image_fst)

lemma map_keys_get: "k \<in> set (map_keys m) \<longleftrightarrow> map_get m k \<noteq> None"
  by (simp add: set_map_keys dom_def)

lemma map_keys_put [go_map]: "set (map_keys (map_put m k v)) = insert k (set (map_keys m))"
  by (auto simp: set_map_keys map_get_put split: if_splits)

lemma map_keys_del [go_map]: "set (map_keys (map_del m k)) = set (map_keys m) - {k}"
  by (auto simp: set_map_keys map_get_del split: if_splits)

lemma wf_map_Nil [simp, go_wf]: "wf_map []"
  by (simp add: wf_map_def map_keys_def)

lemma wf_map_put [go_wf]: "wf_map m \<Longrightarrow> wf_map (map_put m k v)"
  by (simp add: wf_map_def map_keys_def map_put_def distinct_update)

lemma wf_map_del [go_wf]: "wf_map m \<Longrightarrow> wf_map (map_del m k)"
  by (simp add: wf_map_def map_keys_def map_del_def distinct_delete)

lemma map_put_not_Nil [simp]: "map_put m k v \<noteq> []"
proof
  assume "map_put m k v = []"
  then have "map_get (map_put m k v) k = None" by simp
  then show False by (simp add: map_get_put)
qed

lemma wf_map_get: "wf_map m \<Longrightarrow> (k, v) \<in> set m \<longleftrightarrow> map_get m k = Some v"
  by (simp add: wf_map_def map_keys_def map_of_eq_Some_iff)

text \<open>
  A loop over a map visits every key once, in an order Go leaves unspecified. A loop whose
  result can depend on the order takes the order, a permutation of the keys, from its
  environment.
\<close>

type_synonym range_order = "string list \<Rightarrow> string list"

definition lawful_order :: "range_order \<Rightarrow> bool" where
  "lawful_order ord \<longleftrightarrow> (\<forall>ks. mset (ord ks) = mset ks)"

definition map_range :: "range_order \<Rightarrow> 'v gomap \<Rightarrow> (string \<times> 'v) list" where
  "map_range ord m = map (\<lambda>k. (k, the (map_get m k))) (ord (map_keys m))"

lemma lawful_order_id: "lawful_order (\<lambda>ks. ks)"
  by (simp add: lawful_order_def)

lemma lawful_order_rev: "lawful_order rev"
  by (simp add: lawful_order_def)

lemma set_lawful_order: "lawful_order ord \<Longrightarrow> set (ord ks) = set ks"
  using mset_eq_setD by (auto simp: lawful_order_def)

lemma set_map_range:
  assumes "lawful_order ord" "wf_map m"
  shows "set (map_range ord m) = set m"
  using assms by (auto simp: map_range_def set_lawful_order map_keys_def wf_map_get image_iff)
    (metis fst_conv wf_map_get option.sel)+

lemma mset_map_range:
  assumes "lawful_order ord" "wf_map m"
  shows "mset (map_range ord m) = mset m"
proof -
  have "mset (map_range ord m) = image_mset (\<lambda>k. (k, the (map_get m k))) (mset (map_keys m))"
    using assms(1) by (simp add: map_range_def lawful_order_def)
  also have "\<dots> = mset (map (\<lambda>p. (fst p, the (map_get m (fst p)))) m)"
    by (simp add: map_keys_def comp_def multiset.map_comp)
  also have "map (\<lambda>p. (fst p, the (map_get m (fst p)))) m = m"
    using assms(2) by (intro map_idI) (auto simp: wf_map_get)
  finally show ?thesis .
qed

lemma keys_map_range: "map fst (map_range ord m) = ord (map_keys m)"
  by (simp add: map_range_def comp_def)

lemma distinct_map_range:
  assumes "lawful_order ord" "wf_map m"
  shows "distinct (map fst (map_range ord m))"
  using assms unfolding keys_map_range lawful_order_def wf_map_def
  by (metis mset_eq_imp_distinct_iff)

lemma map_of_map_range:
  assumes "lawful_order ord" "wf_map m"
  shows "map_of (map_range ord m) = map_of m"
proof
  fix k
  have "map_of (map_range ord m) k = Some v \<longleftrightarrow> map_of m k = Some v" for v
    using distinct_map_range [OF assms] set_map_range [OF assms] wf_map_get [OF assms(2)] by auto
  then show "map_of (map_range ord m) k = map_of m k"
    by (metis not_None_eq)
qed

end
