(* ===== verification/Go_Json.thy ===== *)
theory Go_Json
  imports Go_Base
begin

text \<open>
  What the injector uses of package encoding/json: the syntax check and value parser behind
  \<open>json.Unmarshal\<close>, and the decoding of a parsed value into the Go types the code
  decodes into (a map of raw messages, a map of booleans, an untyped interface value).
  A \<open>json.RawMessage\<close> is the text of a value that has been parsed already; it is
  represented by that value, since decoding the text again parses it to the same value.
  The errors of the decoder are only logged by the code, so their text is left out.
\<close>

datatype json =
    JNull
  | JBool bool
  | JNum string
  | JStr string
  | JArr "json list"
  | JObj "(string \<times> json) list"

section \<open>Parsing\<close>

definition is_json_ws :: "char \<Rightarrow> bool" where
  "is_json_ws c \<longleftrightarrow> byte c = 32 \<or> byte c = 9 \<or> byte c = 10 \<or> byte c = 13"

definition skip_ws :: "string \<Rightarrow> string" where
  "skip_ws s = dropWhile is_json_ws s"

subsection \<open>Strings: UTF-8 and escapes\<close>

definition in_range :: "int \<Rightarrow> int \<Rightarrow> char \<Rightarrow> bool" where
  "in_range lo hi c \<longleftrightarrow> lo \<le> byte c \<and> byte c \<le> hi"

text \<open>Length of the valid multi-byte UTF-8 sequence at the front of a string, 0 if there is none.\<close>

fun utf8_len :: "string \<Rightarrow> nat" where
  "utf8_len (a # b # s) =
     (if in_range 194 223 a \<and> in_range 128 191 b then 2
      else case s of [] \<Rightarrow> 0 | c # s' \<Rightarrow>
        if (byte a = 224 \<and> in_range 160 191 b \<or> in_range 225 236 a \<and> in_range 128 191 b \<or>
            byte a = 237 \<and> in_range 128 159 b \<or> in_range 238 239 a \<and> in_range 128 191 b) \<and>
           in_range 128 191 c then 3
        else case s' of [] \<Rightarrow> 0 | d # _ \<Rightarrow>
          if (byte a = 240 \<and> in_range 144 191 b \<or> in_range 241 243 a \<and> in_range 128 191 b \<or>
              byte a = 244 \<and> in_range 128 143 b) \<and>
             in_range 128 191 c \<and> in_range 128 191 d then 4
          else 0)"
| "utf8_len _ = 0"

definition utf8_encode :: "int \<Rightarrow> string" where
  "utf8_encode r =
     (if r < 128 then [char_of r]
      else if r < 2048 then [char_of (192 + r div 64), char_of (128 + r mod 64)]
      else if r < 65536 then
        [char_of (224 + r div 4096), char_of (128 + r div 64 mod 64), char_of (128 + r mod 64)]
      else [char_of (240 + r div 262144), char_of (128 + r div 4096 mod 64),
            char_of (128 + r div 64 mod 64), char_of (128 + r mod 64)])"

definition rune_error :: string where
  "rune_error = utf8_encode 65533"

definition hex_value :: "char \<Rightarrow> int option" where
  "hex_value c =
     (if in_range 48 57 c then Some (byte c - 48)
      else if in_range 97 102 c then Some (byte c - 87)
      else if in_range 65 70 c then Some (byte c - 55)
      else None)"

definition hex4 :: "char \<Rightarrow> char \<Rightarrow> char \<Rightarrow> char \<Rightarrow> int option" where
  "hex4 a b c d = do {
     w \<leftarrow> hex_value a; x \<leftarrow> hex_value b; y \<leftarrow> hex_value c; z \<leftarrow> hex_value d;
     Some (((w * 16 + x) * 16 + y) * 16 + z) }"

definition simple_escape :: "char \<Rightarrow> char option" where
  "simple_escape e =
     (if e = CHR 0x22 \<or> e = CHR 0x5C \<or> e = CHR ''/'' then Some e
      else if e = CHR ''b'' then Some (CHR 0x08)
      else if e = CHR ''f'' then Some (CHR 0x0C)
      else if e = CHR ''n'' then Some (CHR 0x0A)
      else if e = CHR ''r'' then Some (CHR 0x0D)
      else if e = CHR ''t'' then Some (CHR 0x09)
      else None)"

definition high_surrogate :: "int \<Rightarrow> bool" where
  "high_surrogate r \<longleftrightarrow> 55296 \<le> r \<and> r < 56320"

definition low_surrogate :: "int \<Rightarrow> bool" where
  "low_surrogate r \<longleftrightarrow> 56320 \<le> r \<and> r < 57344"

definition emit :: "string \<Rightarrow> (string \<times> string) option \<Rightarrow> (string \<times> string) option" where
  "emit t res = map_option (\<lambda>(body, rest). (t @ body, rest)) res"

text \<open>
  The rest of a string literal after its opening quote: its value, and what follows the
  closing quote. Invalid UTF-8 and unpaired surrogates become U+FFFD.
\<close>

fun parse_string :: "string \<Rightarrow> (string \<times> string) option" where
  "parse_string [] = None"
| "parse_string (c # s) =
     (if c = CHR 0x22 then Some ([], s)
      else if c = CHR 0x5C then
        (case s of
           [] \<Rightarrow> None
         | e # s1 \<Rightarrow>
             if e = CHR ''u'' then
               (case s1 of
                  h1 # h2 # h3 # h4 # s2 \<Rightarrow>
                    (case hex4 h1 h2 h3 h4 of
                       None \<Rightarrow> None
                     | Some r \<Rightarrow>
                         if high_surrogate r then
                           (case s2 of
                              b # u # k1 # k2 # k3 # k4 # s3 \<Rightarrow>
                                (case (if b = CHR 0x5C \<and> u = CHR ''u'' then hex4 k1 k2 k3 k4 else None) of
                                   Some l \<Rightarrow>
                                     if low_surrogate l
                                     then emit (utf8_encode ((r - 55296) * 1024 + (l - 56320) + 65536)) (parse_string s3)
                                     else emit rune_error (parse_string s2)
                                 | None \<Rightarrow> emit rune_error (parse_string s2))
                            | _ \<Rightarrow> emit rune_error (parse_string s2))
                         else if low_surrogate r then emit rune_error (parse_string s2)
                         else emit (utf8_encode r) (parse_string s2))
                | _ \<Rightarrow> None)
             else
               (case simple_escape e of
                  None \<Rightarrow> None
                | Some x \<Rightarrow> emit [x] (parse_string s1)))
      else if byte c < 32 then None
      else if byte c < 128 then emit [c] (parse_string s)
      else (let n = utf8_len (c # s) in
            if n = 0 then emit rune_error (parse_string s)
            else emit (take n (c # s)) (parse_string (drop (n - 1) s))))"

subsection \<open>Numbers\<close>

definition is_digit :: "char \<Rightarrow> bool" where
  "is_digit c \<longleftrightarrow> in_range 48 57 c"

definition int_part :: "string \<Rightarrow> (string \<times> string) option" where
  "int_part s =
     (case s of
        [] \<Rightarrow> None
      | c # r \<Rightarrow>
          if c = CHR ''0'' then Some ([c], r)
          else if is_digit c then Some (c # takeWhile is_digit r, dropWhile is_digit r)
          else None)"

definition frac_part :: "string \<Rightarrow> (string \<times> string) option" where
  "frac_part s =
     (case s of
        [] \<Rightarrow> Some ([], [])
      | c # r \<Rightarrow>
          if c \<noteq> CHR ''.'' then Some ([], s)
          else if takeWhile is_digit r = [] then None
          else Some (c # takeWhile is_digit r, dropWhile is_digit r))"

definition exp_part :: "string \<Rightarrow> (string \<times> string) option" where
  "exp_part s =
     (case s of
        [] \<Rightarrow> Some ([], [])
      | c # r \<Rightarrow>
          if c \<noteq> CHR ''e'' \<and> c \<noteq> CHR ''E'' then Some ([], s)
          else
            (let sgn = (case r of [] \<Rightarrow> [] | p # _ \<Rightarrow> if p = CHR ''+'' \<or> p = CHR ''-'' then [p] else []);
                 ds = drop (length sgn) r
             in if takeWhile is_digit ds = [] then None
                else Some (c # sgn @ takeWhile is_digit ds, dropWhile is_digit ds)))"

definition parse_number :: "string \<Rightarrow> (string \<times> string) option" where
  "parse_number s =
     (let neg = (case s of [] \<Rightarrow> [] | c # _ \<Rightarrow> if c = CHR ''-'' then [c] else []) in do {
        (i, s1) \<leftarrow> int_part (drop (length neg) s);
        (f, s2) \<leftarrow> frac_part s1;
        (e, s3) \<leftarrow> exp_part s2;
        Some (neg @ i @ f @ e, s3) })"

text \<open>
  \<open>strconv.ParseFloat\<close> fails on a well-formed literal exactly when it rounds to an
  infinity: from half a unit above the largest 64-bit float on.
\<close>

definition digits_value :: "string \<Rightarrow> int" where
  "digits_value ds = foldl (\<lambda>n c. 10 * n + (byte c - 48)) 0 ds"

definition num_overflows :: "string \<Rightarrow> bool" where
  "num_overflows t =
     (let body = dropWhile (\<lambda>c. c = CHR ''-'') t;
          not_e = (\<lambda>c. c \<noteq> CHR ''e'' \<and> c \<noteq> CHR ''E'');
          mant = takeWhile not_e body;
          ex = drop 1 (dropWhile not_e body);
          ip = takeWhile (\<lambda>c. c \<noteq> CHR ''.'') mant;
          fp = drop 1 (dropWhile (\<lambda>c. c \<noteq> CHR ''.'') mant);
          e = (case ex of [] \<Rightarrow> 0
               | c # r \<Rightarrow> if c = CHR ''-'' then - digits_value r
                          else if c = CHR ''+'' then digits_value r
                          else digits_value ex);
          k = e - int (length fp);
          m = digits_value (ip @ fp);
          bound = 2 ^ 1024 - 2 ^ 970
      in if 0 \<le> k then bound \<le> m * 10 ^ nat k else bound * 10 ^ nat (- k) \<le> m)"

subsection \<open>Values\<close>

definition max_nesting :: int where
  "max_nesting = 10000"

definition expect :: "string \<Rightarrow> json \<Rightarrow> string \<Rightarrow> (json \<times> string) option" where
  "expect word v s = (if take (length word) s = word then Some (v, drop (length word) s) else None)"

text \<open>
  The first argument is fuel, twice the length of the text and two, which
  \<open>parse_value_fuel\<close> below shows is enough; the second is the number of arrays and
  objects around the value, which the decoder bounds.
\<close>

fun parse_value :: "nat \<Rightarrow> int \<Rightarrow> string \<Rightarrow> (json \<times> string) option"
  and parse_elems :: "nat \<Rightarrow> int \<Rightarrow> string \<Rightarrow> (json list \<times> string) option"
  and parse_members :: "nat \<Rightarrow> int \<Rightarrow> string \<Rightarrow> ((string \<times> json) list \<times> string) option"
where
  "parse_value 0 d s = None"
| "parse_value (Suc f) d s =
     (case skip_ws s of
        [] \<Rightarrow> None
      | c # r \<Rightarrow>
          if c = CHR 0x22 then map_option (map_prod JStr id) (parse_string r)
          else if c = CHR ''['' then
            (if max_nesting \<le> d then None
             else case skip_ws r of
               [] \<Rightarrow> None
             | e # r1 \<Rightarrow>
                 if e = CHR '']'' then Some (JArr [], r1)
                 else map_option (map_prod JArr id) (parse_elems f (d + 1) r))
          else if c = CHR ''{'' then
            (if max_nesting \<le> d then None
             else case skip_ws r of
               [] \<Rightarrow> None
             | e # r1 \<Rightarrow>
                 if e = CHR ''}'' then Some (JObj [], r1)
                 else map_option (map_prod JObj id) (parse_members f (d + 1) r))
          else if c = CHR ''n'' then expect ''null'' JNull (c # r)
          else if c = CHR ''t'' then expect ''true'' (JBool True) (c # r)
          else if c = CHR ''f'' then expect ''false'' (JBool False) (c # r)
          else map_option (map_prod JNum id) (parse_number (c # r)))"
| "parse_elems 0 d s = None"
| "parse_elems (Suc f) d s =
     (case parse_value f d s of
        None \<Rightarrow> None
      | Some (v, r) \<Rightarrow>
          (case skip_ws r of
             [] \<Rightarrow> None
           | e # r1 \<Rightarrow>
               if e = CHR '','' then map_option (map_prod ((#) v) id) (parse_elems f d r1)
               else if e = CHR '']'' then Some ([v], r1)
               else None))"
| "parse_members 0 d s = None"
| "parse_members (Suc f) d s =
     (case skip_ws s of
        [] \<Rightarrow> None
      | q # r \<Rightarrow>
          if q \<noteq> CHR 0x22 then None
          else case parse_string r of
            None \<Rightarrow> None
          | Some (k, r1) \<Rightarrow>
              (case skip_ws r1 of
                 [] \<Rightarrow> None
               | e # r2 \<Rightarrow>
                   if e \<noteq> CHR '':'' then None
                   else case parse_value f d r2 of
                     None \<Rightarrow> None
                   | Some (v, r3) \<Rightarrow>
                       (case skip_ws r3 of
                          [] \<Rightarrow> None
                        | e1 # r4 \<Rightarrow>
                            if e1 = CHR '','' then map_option (map_prod ((#) (k, v)) id) (parse_members f d r4)
                            else if e1 = CHR ''}'' then Some ([(k, v)], r4)
                            else None)))"

definition json_parse :: "string \<Rightarrow> json option" where
  "json_parse s =
     (case parse_value (2 * length s + 2) 0 s of
        Some (v, r) \<Rightarrow> if skip_ws r = [] then Some v else None
      | None \<Rightarrow> None)"

subsection \<open>The fuel is enough\<close>

lemma length_skip_ws: "skip_ws s = c # r \<Longrightarrow> length r < length s"
  unfolding skip_ws_def by (metis Suc_le_eq length_Cons length_dropWhile_le)

lemma emit_None [simp]: "emit t None = None"
  by (simp add: emit_def)

lemma emit_Some: "emit t res = Some (b, r) \<Longrightarrow> \<exists>b'. res = Some (b', r)"
  by (auto simp: emit_def)

lemma parse_string_shorter: "parse_string s = Some (b, r) \<Longrightarrow> length r < length s"
proof (induction s arbitrary: b r rule: length_induct)
  case (1 s)
  show ?case
  proof (cases s)
    case (Cons c t)
    have IH: "length r < length s" if "emit x (parse_string u) = Some (b, r)" "length u < length s" for x u
      using 1(1) that emit_Some by (metis less_trans)
    have "Suc (length t) \<le> length s" "parse_string (c # t) = Some (b, r)"
      using 1(2) Cons by simp_all
    then show ?thesis
      unfolding parse_string.simps(2) [of c t]
      by (auto simp: Let_def simp del: parse_string.simps(2)
          split: if_splits list.splits option.splits intro: IH)
  qed (use 1 in simp)
qed

lemma expect_shorter: "expect w v s = Some (x, r) \<Longrightarrow> w \<noteq> [] \<Longrightarrow> s \<noteq> [] \<Longrightarrow> length r < length s"
  by (auto simp: expect_def split: if_splits)

lemma length_dropWhile_digit: "length (dropWhile is_digit r) \<le> length r"
  by (rule length_dropWhile_le)

lemma int_part_shorter: "int_part s = Some (i, r) \<Longrightarrow> length r < length s"
  by (auto simp: int_part_def le_imp_less_Suc length_dropWhile_le split: list.splits if_splits)

lemma frac_part_shorter: "frac_part s = Some (i, r) \<Longrightarrow> length r \<le> length s"
  by (auto simp: frac_part_def le_SucI length_dropWhile_le split: list.splits if_splits)

lemma exp_part_shorter: "exp_part s = Some (i, r) \<Longrightarrow> length r \<le> length s"
proof -
  assume a: "exp_part s = Some (i, r)"
  then have "r = s \<or> s \<noteq> [] \<and> (r = dropWhile is_digit (tl s) \<or> r = dropWhile is_digit (drop 1 (tl s)))"
    by (auto simp: exp_part_def Let_def split: list.splits if_splits)
  then show ?thesis
    by (auto intro!: order_trans [OF length_dropWhile_le])
qed

lemma parse_number_shorter: "parse_number s = Some (t, r) \<Longrightarrow> length r < length s"
proof -
  assume "parse_number s = Some (t, r)"
  then obtain n i s1 f s2 e where
    "int_part (drop n s) = Some (i, s1)" "frac_part s1 = Some (f, s2)" "exp_part s2 = Some (e, r)"
    by (auto simp: parse_number_def Let_def split: Option.bind_splits)
  then show ?thesis
    using int_part_shorter [of "drop n s"] frac_part_shorter exp_part_shorter by fastforce
qed

lemma parse_shorter:
  "(parse_value f d s = Some (v, r) \<longrightarrow> length r < length s) \<and>
   (parse_elems f d s = Some (vs, r) \<longrightarrow> length r < length s) \<and>
   (parse_members f d s = Some (kvs, r) \<longrightarrow> length r < length s)"
proof (induction f arbitrary: d s v r vs kvs)
  case (Suc f)
  have val: "length r < length s" if "parse_value f d s = Some (v, r)" for d s v r
    using Suc.IH that by blast
  have elems: "length r < length s" if "parse_elems f d s = Some (vs, r)" for d s vs r
    using Suc.IH that by blast
  have members: "length r < length s" if "parse_members f d s = Some (kvs, r)" for d s kvs r
    using Suc.IH that by blast
  note shorter = length_skip_ws val elems members parse_string_shorter
  have "length r < length s" if "parse_value (Suc f) d s = Some (v, r)"
    using that length_skip_ws [of s]
    by (fastforce split: list.splits if_splits dest: shorter parse_number_shorter expect_shorter)
  moreover have "length r < length s" if "parse_elems (Suc f) d s = Some (vs, r)"
    using that by (fastforce split: list.splits if_splits option.splits dest: shorter)
  moreover have "length r < length s" if "parse_members (Suc f) d s = Some (kvs, r)"
    using that by (fastforce split: list.splits if_splits option.splits dest: shorter)
  ultimately show ?case by blast
qed simp

lemma parse_value_shorter: "parse_value f d s = Some (v, r) \<Longrightarrow> length r < length s"
  using parse_shorter by blast

text \<open>
  One more unit of fuel changes nothing once there is enough: a call of \<open>parse_value\<close>
  needs two units per byte and one, a call of the loops two per byte and two.
\<close>

lemma length_skip_ws_le: "length (skip_ws s) \<le> length s"
  by (simp add: skip_ws_def length_dropWhile_le)

lemma parse_value_step:
  assumes elems: "\<And>d s. 2 * length s + 2 \<le> f \<Longrightarrow> parse_elems (Suc f) d s = parse_elems f d s"
    and members: "\<And>d s. 2 * length s + 2 \<le> f \<Longrightarrow> parse_members (Suc f) d s = parse_members f d s"
    and enough: "2 * length s + 1 \<le> Suc f"
  shows "parse_value (Suc (Suc f)) d s = parse_value (Suc f) d s"
proof (cases "skip_ws s")
  case (Cons c r)
  then have "2 * length r + 2 \<le> f"
    using enough length_skip_ws [OF Cons] by simp
  then show ?thesis
    using Cons elems [of r "d + 1"] members [of r "d + 1"]
    by (simp del: parse_elems.simps parse_members.simps split: list.splits)
qed simp

lemma parse_elems_step:
  assumes val: "\<And>d s. 2 * length s + 1 \<le> f \<Longrightarrow> parse_value (Suc f) d s = parse_value f d s"
    and elems: "\<And>d s. 2 * length s + 2 \<le> f \<Longrightarrow> parse_elems (Suc f) d s = parse_elems f d s"
    and enough: "2 * length s + 2 \<le> Suc f"
  shows "parse_elems (Suc (Suc f)) d s = parse_elems (Suc f) d s"
proof (cases "parse_value f d s")
  case (Some p)
  obtain v r where p: "p = (v, r)" by (cases p)
  have v: "parse_value (Suc f) d s = Some (v, r)"
    using val enough Some p by simp
  have "parse_elems (Suc f) d r1 = parse_elems f d r1" if "skip_ws r = e # r1" for e r1
    using elems enough length_skip_ws [OF that] parse_value_shorter [OF Some [unfolded p]] by simp
  then show ?thesis
    unfolding parse_elems.simps(2) [of "Suc f"] parse_elems.simps(2) [of f] v Some p
    by (auto simp del: parse_value.simps parse_elems.simps split: list.splits)
next
  case None
  then show ?thesis
    unfolding parse_elems.simps(2) [of "Suc f"] parse_elems.simps(2) [of f]
    using val enough by simp
qed

lemma parse_members_step:
  assumes val: "\<And>d s. 2 * length s + 1 \<le> f \<Longrightarrow> parse_value (Suc f) d s = parse_value f d s"
    and members: "\<And>d s. 2 * length s + 2 \<le> f \<Longrightarrow> parse_members (Suc f) d s = parse_members f d s"
    and enough: "2 * length s + 2 \<le> Suc f"
  shows "parse_members (Suc (Suc f)) d s = parse_members (Suc f) d s"
proof (cases "\<exists>q r k r1 e r2. skip_ws s = q # r \<and> parse_string r = Some (k, r1) \<and> skip_ws r1 = e # r2")
  case True
  then obtain q r k r1 e r2 where
    s: "skip_ws s = q # r" and k: "parse_string r = Some (k, r1)" and e: "skip_ws r1 = e # r2"
    by blast
  have r2: "length r2 < length s"
    using length_skip_ws [OF s] parse_string_shorter [OF k] length_skip_ws [OF e] by simp
  then have v: "parse_value (Suc f) d r2 = parse_value f d r2"
    using val enough by simp
  have "parse_members (Suc f) d r4 = parse_members f d r4"
    if "parse_value f d r2 = Some (x, r3)" "skip_ws r3 = e1 # r4" for x r3 e1 r4
    using members enough r2 parse_value_shorter [OF that(1)] length_skip_ws [OF that(2)] by simp
  then show ?thesis
    unfolding parse_members.simps(2) [of "Suc f"] parse_members.simps(2) [of f]
    by (auto simp: s k e v simp del: parse_value.simps parse_members.simps
        split: list.splits option.splits)
next
  case False
  then consider "skip_ws s = []" | q r where "skip_ws s = q # r" "parse_string r = None"
    | q r k r1 where "skip_ws s = q # r" "parse_string r = Some (k, r1)" "skip_ws r1 = []"
    by (metis list.exhaust option.exhaust surj_pair)
  then show ?thesis
    by cases simp_all
qed

lemma parse_fuel_step:
  "(2 * length s + 1 \<le> f \<longrightarrow> parse_value (Suc f) d s = parse_value f d s) \<and>
   (2 * length s + 2 \<le> f \<longrightarrow> parse_elems (Suc f) d s = parse_elems f d s) \<and>
   (2 * length s + 2 \<le> f \<longrightarrow> parse_members (Suc f) d s = parse_members f d s)"
proof (induction f arbitrary: d s)
  case (Suc f)
  then show ?case
    by (intro conjI impI parse_value_step parse_elems_step parse_members_step) blast+
qed simp

lemma parse_value_fuel: "2 * length s + 2 \<le> f \<Longrightarrow> parse_value f d s = parse_value (2 * length s + 2) d s"
proof (induction f rule: dec_induct)
  case (step n)
  then show ?case
    using parse_fuel_step [of s n d] by simp
qed simp

section \<open>Decoding\<close>

text \<open>
  The entries of an object as a map: of a key that occurs twice, the last value counts.
\<close>

definition object_map :: "(string \<times> 'v) list \<Rightarrow> 'v gomap" where
  "object_map kvs = foldl (\<lambda>m (k, v). map_put m k v) [] kvs"

text \<open>\<open>json.Unmarshal\<close> into a \<open>map[string]json.RawMessage\<close> that is nil before.\<close>

definition decode_raw_map :: "json \<Rightarrow> unit + json gomap" where
  "decode_raw_map j =
     (case j of
        JNull \<Rightarrow> Inr []
      | JObj kvs \<Rightarrow> Inr (object_map kvs)
      | _ \<Rightarrow> Inl ())"

definition unmarshal_raw_map :: "string \<Rightarrow> unit + json gomap" where
  "unmarshal_raw_map text =
     (case json_parse text of None \<Rightarrow> Inl () | Some j \<Rightarrow> decode_raw_map j)"

text \<open>
  \<open>json.Unmarshal\<close> into a nil \<open>map[string]bool\<close>: a null leaves the element at its
  zero value, any other value that is not a boolean is an error.
\<close>

fun decode_bool :: "json \<Rightarrow> unit + bool" where
  "decode_bool (JBool b) = Inr b"
| "decode_bool JNull = Inr False"
| "decode_bool _ = Inl ()"

definition decode_bool_map :: "json \<Rightarrow> unit + bool gomap" where
  "decode_bool_map j =
     (case j of
        JNull \<Rightarrow> Inr []
      | JObj kvs \<Rightarrow>
          if list_all (\<lambda>kv. decode_bool (snd kv) \<noteq> Inl ()) kvs
          then Inr (object_map (map (\<lambda>(k, v). (k, projr (decode_bool v))) kvs))
          else Inl ()
      | _ \<Rightarrow> Inl ())"

text \<open>
  A value of type \<open>interface{}\<close> as the decoder builds it. A number keeps its literal
  where the code has the nearest 64-bit float; one out of range is an error and leaves nil.
\<close>

datatype goval =
    GNil
  | GBool bool
  | GNum string
  | GStr string
  | GArr "goval list"
  | GMap "(string \<times> goval) list"

primrec interface_value :: "json \<Rightarrow> goval" where
  "interface_value JNull = GNil"
| "interface_value (JBool b) = GBool b"
| "interface_value (JNum t) = (if num_overflows t then GNil else GNum t)"
| "interface_value (JStr s) = GStr s"
| "interface_value (JArr vs) = GArr (map interface_value vs)"
| "interface_value (JObj kvs) = GMap (object_map (map (map_prod id interface_value) kvs))"

primrec numbers_in_range :: "json \<Rightarrow> bool" where
  "numbers_in_range JNull = True"
| "numbers_in_range (JBool b) = True"
| "numbers_in_range (JNum t) = (\<not> num_overflows t)"
| "numbers_in_range (JStr s) = True"
| "numbers_in_range (JArr vs) = list_all (\<lambda>b. b) (map numbers_in_range vs)"
| "numbers_in_range (JObj kvs) = list_all (\<lambda>(k, b). b) (map (map_prod id numbers_in_range) kvs)"

lemma object_map_snoc: "object_map (kvs @ [(k, v)]) = map_put (object_map kvs) k v"
  by (simp add: object_map_def)

lemma object_map_Nil [simp]: "object_map [] = []"
  by (simp add: object_map_def)

lemma wf_object_map [go_wf]: "wf_map (object_map kvs)"
  by (induction kvs rule: rev_induct) (auto simp: object_map_snoc intro: go_wf)

lemma object_map_get [go_map]: "map_get (object_map kvs) k = map_get (rev kvs) k"
  by (induction kvs rule: rev_induct) (auto simp: object_map_snoc map_get_put)

lemma wf_decode_raw_map: "decode_raw_map j = Inr m \<Longrightarrow> wf_map m"
  by (auto simp: decode_raw_map_def wf_object_map split: json.splits)

end
