(* ===== verification/Nri_Types.thy ===== *)
theory Nri_Types
  imports Go_Json
begin

text \<open>
  The data the components exchange: the constants and the patch operation of
  pkg/types/types.go, and of the Kubernetes API objects the fields the injector reads or
  writes. Resource quantities are values of a type \<open>'q\<close>: the quantity package is not
  part of the repository, its three operations that the code calls are a record of functions.
\<close>

section \<open>Constants of pkg/types\<close>

definition DownwardAPIMountPath :: string where "DownwardAPIMountPath = ''/etc/podnetinfo''"
definition AnnotationsPath :: string where "AnnotationsPath = ''annotations''"
definition LabelsPath :: string where "LabelsPath = ''labels''"
definition EnvNameContainerName :: string where "EnvNameContainerName = ''CONTAINER_NAME''"
definition ConfigMapMainFileKey :: string where "ConfigMapMainFileKey = ''config.json''"

section \<open>Quantities\<close>

datatype quantity_format = DecimalSI | BinarySI

record 'q quantity_ops =
  q_new :: "int64 \<Rightarrow> quantity_format \<Rightarrow> 'q"
  q_add :: "'q \<Rightarrow> 'q \<Rightarrow> 'q"
  q_is_zero :: "'q \<Rightarrow> bool"

section \<open>Pods\<close>

record owner_reference =
  or_kind :: string
  or_name :: string
  or_uid :: string

record env_var =
  ev_name :: string
  ev_value :: string

record volume_mount =
  vm_name :: string
  vm_read_only :: bool
  vm_mount_path :: string

datatype 'q downward_source =
    FieldRef string
  | ResourceFieldRef string string 'q

record 'q downward_file =
  df_path :: string
  df_source :: "'q downward_source"

text \<open>Of a volume: its name, and its items when its source is the Downward API.\<close>

record 'q volume =
  vol_name :: string
  vol_downward :: "'q downward_file list option"

record 'q container =
  ct_name :: string
  ct_requests :: "'q gomap"
  ct_limits :: "'q gomap"
  ct_mounts :: "volume_mount list"
  ct_env :: "env_var list"

record 'q pod =
  pod_namespace :: string
  pod_name :: string
  pod_labels :: "string gomap"
  pod_annotations :: "string gomap"
  pod_owners :: "owner_reference list"
  pod_volumes :: "'q volume list"
  pod_containers :: "'q container list"
  pod_node_selector :: "string gomap"

section \<open>Patch operations\<close>

text \<open>
  The dynamic types that the code stores in the field \<open>Value interface{}\<close>.
\<close>

datatype 'q patch_value =
    PvAny goval
  | PvResourceList "'q gomap"
  | PvQuantity 'q
  | PvVolumes "'q volume list"
  | PvVolume "'q volume"
  | PvMounts "volume_mount list"
  | PvMount volume_mount
  | PvEnvs "env_var list"
  | PvEnv env_var
  | PvStrings "string gomap"

record 'q json_patch_operation =
  jp_operation :: string
  jp_path :: string
  jp_value :: "'q patch_value"

definition zero_patch_operation :: "'q json_patch_operation" where
  "zero_patch_operation = \<lparr>jp_operation = [], jp_path = [], jp_value = PvAny GNil\<rparr>"

text \<open>
  \<open>json.Unmarshal\<close> into a \<open>JSONPatchOperation\<close>: the fields the text names are
  set, the others keep what they held. A value of the wrong type is recorded as an error, and
  the decoding goes on. A key names a field up to the case of its letters.
\<close>

fun decode_string_field :: "json \<Rightarrow> string \<Rightarrow> string \<times> bool" where
  "decode_string_field (JStr s) old = (s, False)"
| "decode_string_field JNull old = (old, False)"
| "decode_string_field _ old = (old, True)"

text \<open>
  A number out of range leaves the field as it is when it is the whole value; inside an array or
  an object it leaves nil there.
\<close>

definition overflowing_number :: "json \<Rightarrow> bool" where
  "overflowing_number v = (case v of JNum t \<Rightarrow> num_overflows t | _ \<Rightarrow> False)"

definition decode_patch_field ::
  "'q json_patch_operation \<times> bool \<Rightarrow> string \<times> json \<Rightarrow> 'q json_patch_operation \<times> bool" where
  "decode_patch_field st kv =
     (case st of (p, err) \<Rightarrow> case kv of (k, v) \<Rightarrow>
        if equal_fold k ''op'' then
          (let (s, e) = decode_string_field v (jp_operation p) in (p\<lparr>jp_operation := s\<rparr>, err \<or> e))
        else if equal_fold k ''path'' then
          (let (s, e) = decode_string_field v (jp_path p) in (p\<lparr>jp_path := s\<rparr>, err \<or> e))
        else if equal_fold k ''value'' then
          (if overflowing_number v then (p, True)
           else (p\<lparr>jp_value := PvAny (interface_value v)\<rparr>, err \<or> \<not> numbers_in_range v))
        else (p, err))"

definition decode_patch_operation ::
  "json \<Rightarrow> 'q json_patch_operation \<Rightarrow> 'q json_patch_operation \<times> bool" where
  "decode_patch_operation j p =
     (case j of
        JNull \<Rightarrow> (p, False)
      | JObj kvs \<Rightarrow> foldl decode_patch_field (p, False) kvs
      | _ \<Rightarrow> (p, True))"

end
