(* ===== verification/Contracts.thy ===== *)
theory Contracts
  imports Go_Base
begin

text \<open>
  Contracts that several components share, as locales over a step function that may panic:
  a step that keeps an invariant, one that in addition never panics, and one whose repetition
  changes nothing. Runs over a list of inputs are \<open>run_steps\<close>; the lemmas about runs are
  proved here once.
\<close>

fun run_steps :: "('l \<Rightarrow> 's \<Rightarrow> 's option) \<Rightarrow> 'l list \<Rightarrow> 's \<Rightarrow> 's option" where
  "run_steps step [] s = Some s"
| "run_steps step (l # ls) s = (case step l s of None \<Rightarrow> None | Some s' \<Rightarrow> run_steps step ls s')"

lemma run_steps_append:
  "run_steps step (ls @ ms) s = (case run_steps step ls s of None \<Rightarrow> None | Some s' \<Rightarrow> run_steps step ms s')"
  by (induction ls arbitrary: s) (auto split: option.splits)

lemma run_steps_snoc_Some:
  "run_steps step (ls @ [l]) s = Some s'' \<longleftrightarrow> (\<exists>s'. run_steps step ls s = Some s' \<and> step l s' = Some s'')"
  by (auto simp: run_steps_append split: option.splits)

locale invariant_step =
  fixes step :: "'l \<Rightarrow> 's \<Rightarrow> 's option"
    and inv :: "'s \<Rightarrow> bool"
  assumes step_inv: "inv s \<Longrightarrow> step l s = Some s' \<Longrightarrow> inv s'"
begin

lemma run_inv: "inv s \<Longrightarrow> run_steps step ls s = Some s' \<Longrightarrow> inv s'"
  by (induction ls arbitrary: s) (auto split: option.splits dest: step_inv)

end

locale total_step = invariant_step +
  assumes step_total: "inv s \<Longrightarrow> step l s \<noteq> None"
begin

lemma run_total: "inv s \<Longrightarrow> \<exists>s'. run_steps step ls s = Some s' \<and> inv s'"
proof (induction ls arbitrary: s)
  case (Cons l ls)
  then obtain s1 where "step l s = Some s1" "inv s1"
    using step_total step_inv by blast
  with Cons.IH show ?case by auto
qed simp

end

locale idempotent_step = total_step +
  assumes step_idem: "inv s \<Longrightarrow> step l s = Some s' \<Longrightarrow> step l s' = Some s'"
begin

lemma run_replicate: "inv s \<Longrightarrow> run_steps step (replicate (Suc n) l) s = step l s"
proof -
  assume inv: "inv s"
  then obtain s1 where s1: "step l s = Some s1"
    using step_total by blast
  have "run_steps step (replicate n l) s1 = Some s1"
    using step_idem [OF inv s1] by (induction n) simp_all
  with s1 show ?thesis by simp
qed

lemma run_settles:
  "inv s \<Longrightarrow> run_steps step ls s = Some s' \<Longrightarrow>
   run_steps step (ls @ replicate (Suc n) l) s = step l s'"
  by (simp add: run_steps_append run_replicate run_inv del: replicate_Suc)

end

end
