(* ===== verification/Control_Switches.thy ===== *)
theory Control_Switches
  imports Nri_Types Contracts
begin

text \<open>
  pkg/controlswitches: the feature switches, set from the command line and overridden by the
  entry \<open>features\<close> of a ConfigMap. The pointers to flag variables are represented by the
  values of the flags, which do not change after the flags have been parsed.
\<close>

definition controlSwitchesMainKey :: string where
  "controlSwitchesMainKey = ''features''"
definition enableHugePageDownAPIKey :: string where
  "enableHugePageDownAPIKey = ''enableHugePageDownApi''"
definition enableHonorExistingResourcesKey :: string where
  "enableHonorExistingResourcesKey = ''enableHonorExistingResources''"

lemmas switch_keys =
  controlSwitchesMainKey_def enableHugePageDownAPIKey_def enableHonorExistingResourcesKey_def

section \<open>Model\<close>

record switch_state =
  sw_active :: bool
  sw_initial :: bool

definition zero_switch :: switch_state where
  "zero_switch = \<lparr>sw_active = False, sw_initial = False\<rparr>"

definition setActiveToInitialState :: "switch_state \<Rightarrow> switch_state" where
  "setActiveToInitialState st = st\<lparr>sw_active := sw_initial st\<rparr>"

definition setActiveState :: "switch_state \<Rightarrow> bool \<Rightarrow> switch_state" where
  "setActiveState st v = st\<lparr>sw_active := v\<rparr>"

text \<open>The map \<open>configuration\<close> is nil, here \<open>None\<close>, until \<open>InitControlSwitches\<close>.\<close>

record control_switches =
  cs_inject_hugepage :: bool
  cs_resource_name_keys_flag :: string
  cs_resources_honor :: bool
  cs_configuration :: "switch_state gomap option"
  cs_resource_name_keys :: "string list"
  cs_is_valid :: bool

definition SetupControlSwitchesFlags :: control_switches where
  "SetupControlSwitchesFlags =
     \<lparr>cs_inject_hugepage = False,
      cs_resource_name_keys_flag = ''k8s.v1.cni.cncf.io/resourceName'',
      cs_resources_honor = False,
      cs_configuration = None, cs_resource_name_keys = [], cs_is_valid = False\<rparr>"

text \<open>The values that \<open>flag.Parse\<close> (or the set-up for unit tests) leaves in the flags.\<close>

definition SetupControlSwitchesUnitTests :: "bool \<Rightarrow> bool \<Rightarrow> string \<Rightarrow> control_switches" where
  "SetupControlSwitchesUnitTests downAPI honor name =
     \<lparr>cs_inject_hugepage = downAPI, cs_resource_name_keys_flag = name,
      cs_resources_honor = honor,
      cs_configuration = None, cs_resource_name_keys = [], cs_is_valid = False\<rparr>"

definition setResourceNameKeys :: "string \<Rightarrow> string list" where
  "setResourceNameKeys keys = map trim_space (go_split CHR '','' keys)"

definition InitControlSwitches :: "control_switches \<Rightarrow> control_switches" where
  "InitControlSwitches sw =
     (let conf = map_put [] enableHugePageDownAPIKey
                   \<lparr>sw_active = cs_inject_hugepage sw, sw_initial = cs_inject_hugepage sw\<rparr>;
          conf = map_put conf enableHonorExistingResourcesKey
                   \<lparr>sw_active = cs_resources_honor sw, sw_initial = cs_resources_honor sw\<rparr>
      in sw\<lparr>cs_configuration := Some conf,
            cs_resource_name_keys := setResourceNameKeys (cs_resource_name_keys_flag sw),
            cs_is_valid := True\<rparr>)"

definition GetResourceNameKeys :: "control_switches \<Rightarrow> string list" where
  "GetResourceNameKeys sw = cs_resource_name_keys sw"

text \<open>Reading a missing key, or a nil map, gives the zero state.\<close>

definition switch_of :: "control_switches \<Rightarrow> string \<Rightarrow> switch_state" where
  "switch_of sw key =
     (case cs_configuration sw of
        None \<Rightarrow> zero_switch
      | Some conf \<Rightarrow> (case map_get conf key of None \<Rightarrow> zero_switch | Some st \<Rightarrow> st))"

text \<open>Storing into a nil map panics.\<close>

definition store_switch :: "control_switches \<Rightarrow> string \<Rightarrow> switch_state \<Rightarrow> control_switches option" where
  "store_switch sw key st =
     (case cs_configuration sw of
        None \<Rightarrow> go_panic
      | Some conf \<Rightarrow> go_return (sw\<lparr>cs_configuration := Some (map_put conf key st)\<rparr>))"

definition IsHugePagedownAPIEnabled :: "control_switches \<Rightarrow> bool" where
  "IsHugePagedownAPIEnabled sw = sw_active (switch_of sw enableHugePageDownAPIKey)"

definition IsHonorExistingResourcesEnabled :: "control_switches \<Rightarrow> bool" where
  "IsHonorExistingResourcesEnabled sw = sw_active (switch_of sw enableHonorExistingResourcesKey)"

definition IsResourcesNameEnabled :: "control_switches \<Rightarrow> bool" where
  "IsResourcesNameEnabled sw \<longleftrightarrow> length (cs_resource_name_keys_flag sw) > 0"

definition IsValid :: "control_switches \<Rightarrow> bool" where
  "IsValid sw = cs_is_valid sw"

definition bool_text :: "bool \<Rightarrow> string" where
  "bool_text b = (if b then ''true'' else ''false'')"

definition GetAllFeaturesState :: "control_switches \<Rightarrow> string" where
  "GetAllFeaturesState sw =
     ''HugePageInject: '' @ bool_text (IsHugePagedownAPIEnabled sw)
     @ '' / '' @ ''HonorExistingResources: '' @ bool_text (IsHonorExistingResourcesEnabled sw)
     @ '' / '' @ ''EnableResourceNames: '' @ bool_text (IsResourcesNameEnabled sw)"

definition setAllFeaturesToInitialState :: "control_switches \<Rightarrow> control_switches option" where
  "setAllFeaturesToInitialState sw = do {
     sw \<leftarrow> store_switch sw enableHugePageDownAPIKey
            (setActiveToInitialState (switch_of sw enableHugePageDownAPIKey));
     store_switch sw enableHonorExistingResourcesKey
       (setActiveToInitialState (switch_of sw enableHonorExistingResourcesKey)) }"

definition setFeatureToState :: "control_switches \<Rightarrow> string \<Rightarrow> bool gomap \<Rightarrow> control_switches option" where
  "setFeatureToState sw featureName switchObj =
     (case map_get switchObj featureName of
        Some featureState \<Rightarrow>
          store_switch sw featureName (setActiveState (switch_of sw featureName) featureState)
      | None \<Rightarrow>
          store_switch sw featureName (setActiveToInitialState (switch_of sw featureName)))"

definition ProcessControlSwitchesConfigMap ::
  "string gomap \<Rightarrow> control_switches \<Rightarrow> control_switches option" where
  "ProcessControlSwitchesConfigMap data sw =
     (case map_get data ConfigMapMainFileKey of
        Some v \<Rightarrow>
          (case unmarshal_raw_map v of
             Inl _ \<Rightarrow> setAllFeaturesToInitialState sw
           | Inr obj \<Rightarrow>
               (case map_get obj controlSwitchesMainKey of
                  Some controlSwitches \<Rightarrow>
                    (case decode_bool_map controlSwitches of
                       Inl _ \<Rightarrow> setAllFeaturesToInitialState sw
                     | Inr switchObj \<Rightarrow> do {
                         sw \<leftarrow> setFeatureToState sw enableHugePageDownAPIKey switchObj;
                         setFeatureToState sw enableHonorExistingResourcesKey switchObj })
                | None \<Rightarrow> go_return sw))
      | None \<Rightarrow> go_return sw)"

section \<open>Library\<close>

text \<open>
  After \<open>InitControlSwitches\<close> the configuration exists and its keys are the two features.
\<close>

definition feature_keys :: "string set" where
  "feature_keys = {enableHugePageDownAPIKey, enableHonorExistingResourcesKey}"

definition switches_ready :: "control_switches \<Rightarrow> bool" where
  "switches_ready sw \<longleftrightarrow>
     (case cs_configuration sw of
        None \<Rightarrow> False
      | Some conf \<Rightarrow> wf_map conf \<and> set (map_keys conf) = feature_keys)"

lemma switch_keys_distinct [simp]:
  "enableHugePageDownAPIKey \<noteq> enableHonorExistingResourcesKey"
  "enableHonorExistingResourcesKey \<noteq> enableHugePageDownAPIKey"
  by (simp_all add: switch_keys)

lemma feature_keys_mem [simp]:
  "enableHugePageDownAPIKey \<in> feature_keys" "enableHonorExistingResourcesKey \<in> feature_keys"
  by (simp_all add: feature_keys_def)

lemma switches_ready_init: "switches_ready (InitControlSwitches sw)"
  by (auto simp: switches_ready_def InitControlSwitches_def Let_def set_map_keys go_map feature_keys_def
      intro!: go_wf split: if_splits)

lemma store_switch_ready:
  "switches_ready sw \<Longrightarrow> key \<in> feature_keys \<Longrightarrow>
   \<exists>sw'. store_switch sw key st = Some sw' \<and> switches_ready sw' \<and>
     (\<forall>k. switch_of sw' k = (if k = key then st else switch_of sw k)) \<and>
     cs_resource_name_keys_flag sw' = cs_resource_name_keys_flag sw \<and>
     cs_resource_name_keys sw' = cs_resource_name_keys sw"
  by (auto simp: switches_ready_def store_switch_def switch_of_def go_map wf_map_put split: option.splits)

lemma store_switch_same:
  "switches_ready sw \<Longrightarrow> key \<in> feature_keys \<Longrightarrow> store_switch sw key (switch_of sw key) = Some sw"
proof -
  assume "switches_ready sw" "key \<in> feature_keys"
  then obtain conf where "cs_configuration sw = Some conf" "key \<in> set (map_keys conf)"
    by (auto simp: switches_ready_def split: option.splits)
  then obtain st where c: "cs_configuration sw = Some conf" "map_get conf key = Some st"
    by (auto simp: map_keys_get)
  then have "map_get conf key = Some st" by simp
  then have "AList.update key st conf = conf"
    by (induction conf) (auto split: if_splits)
  with c show ?thesis
    by (simp add: store_switch_def switch_of_def map_put_def)
qed

text \<open>
  The specification: what a ConfigMap says about the features, and what one feature becomes.
\<close>

datatype switch_config = NoFeatures | BadFeatures | Features "bool gomap"

definition switch_config_of :: "string gomap \<Rightarrow> switch_config" where
  "switch_config_of data =
     (case map_get data ConfigMapMainFileKey of
        None \<Rightarrow> NoFeatures
      | Some v \<Rightarrow>
          (case unmarshal_raw_map v of
             Inl _ \<Rightarrow> BadFeatures
           | Inr obj \<Rightarrow>
               (case map_get obj controlSwitchesMainKey of
                  None \<Rightarrow> NoFeatures
                | Some j \<Rightarrow>
                    (case decode_bool_map j of Inl _ \<Rightarrow> BadFeatures | Inr m \<Rightarrow> Features m))))"

definition updated_switch :: "switch_config \<Rightarrow> string \<Rightarrow> switch_state \<Rightarrow> switch_state" where
  "updated_switch cfg key st =
     (case cfg of
        NoFeatures \<Rightarrow> st
      | BadFeatures \<Rightarrow> st\<lparr>sw_active := sw_initial st\<rparr>
      | Features m \<Rightarrow>
          st\<lparr>sw_active := (case map_get m key of Some b \<Rightarrow> b | None \<Rightarrow> sw_initial st)\<rparr>)"

definition set_switches :: "control_switches \<Rightarrow> switch_config \<Rightarrow> control_switches option" where
  "set_switches sw cfg = do {
     sw \<leftarrow> store_switch sw enableHugePageDownAPIKey
            (updated_switch cfg enableHugePageDownAPIKey (switch_of sw enableHugePageDownAPIKey));
     store_switch sw enableHonorExistingResourcesKey
       (updated_switch cfg enableHonorExistingResourcesKey (switch_of sw enableHonorExistingResourcesKey)) }"

lemma updated_switch_idem [simp]:
  "updated_switch cfg key (updated_switch cfg key st) = updated_switch cfg key st"
  by (auto simp: updated_switch_def split: switch_config.splits option.splits)

lemma updated_switch_initial [simp]: "sw_initial (updated_switch cfg key st) = sw_initial st"
  by (auto simp: updated_switch_def split: switch_config.splits)

lemma setFeatureToState_eq:
  "setFeatureToState sw key m = store_switch sw key (updated_switch (Features m) key (switch_of sw key))"
  by (auto simp: setFeatureToState_def updated_switch_def setActiveState_def setActiveToInitialState_def
      split: option.splits)

lemma process_eq_set_switches:
  assumes "switches_ready sw"
  shows "ProcessControlSwitchesConfigMap data sw = set_switches sw (switch_config_of data)"
proof -
  have "set_switches sw NoFeatures = Some sw"
    using assms by (simp add: set_switches_def updated_switch_def store_switch_same)
  moreover have "set_switches sw BadFeatures = setAllFeaturesToInitialState sw"
    by (simp add: set_switches_def setAllFeaturesToInitialState_def updated_switch_def setActiveToInitialState_def)
  ultimately show ?thesis
    by (auto simp: ProcessControlSwitchesConfigMap_def switch_config_of_def set_switches_def setFeatureToState_eq
        split: option.splits sum.splits)
qed

lemma set_switches_ready:
  assumes "switches_ready sw"
  obtains sw' where "set_switches sw cfg = Some sw'" "switches_ready sw'"
    "\<And>k. k \<in> feature_keys \<Longrightarrow> switch_of sw' k = updated_switch cfg k (switch_of sw k)"
    "cs_resource_name_keys_flag sw' = cs_resource_name_keys_flag sw"
    "cs_resource_name_keys sw' = cs_resource_name_keys sw"
proof -
  let ?a = "enableHugePageDownAPIKey" and ?b = "enableHonorExistingResourcesKey"
  obtain sw1 where 1: "store_switch sw ?a (updated_switch cfg ?a (switch_of sw ?a)) = Some sw1" "switches_ready sw1"
    "\<forall>k. switch_of sw1 k = (if k = ?a then updated_switch cfg ?a (switch_of sw ?a) else switch_of sw k)"
    "cs_resource_name_keys_flag sw1 = cs_resource_name_keys_flag sw"
    "cs_resource_name_keys sw1 = cs_resource_name_keys sw"
    using store_switch_ready [OF assms, of ?a] by auto
  obtain sw2 where 2: "store_switch sw1 ?b (updated_switch cfg ?b (switch_of sw1 ?b)) = Some sw2" "switches_ready sw2"
    "\<forall>k. switch_of sw2 k = (if k = ?b then updated_switch cfg ?b (switch_of sw1 ?b) else switch_of sw1 k)"
    "cs_resource_name_keys_flag sw2 = cs_resource_name_keys_flag sw1"
    "cs_resource_name_keys sw2 = cs_resource_name_keys sw1"
    using store_switch_ready [OF 1(2), of ?b] by auto
  show ?thesis
    by (rule that [of sw2]) (use 1 2 in \<open>auto simp: set_switches_def feature_keys_def\<close>)
qed

lemma process_ready:
  assumes "switches_ready sw"
  obtains sw' where "ProcessControlSwitchesConfigMap data sw = Some sw'" "switches_ready sw'"
    "\<And>k. k \<in> feature_keys \<Longrightarrow> switch_of sw' k = updated_switch (switch_config_of data) k (switch_of sw k)"
    "cs_resource_name_keys_flag sw' = cs_resource_name_keys_flag sw"
    "cs_resource_name_keys sw' = cs_resource_name_keys sw"
  using set_switches_ready [OF assms, of "switch_config_of data"] process_eq_set_switches [OF assms] by metis

lemma set_switches_idem:
  assumes "switches_ready sw" "set_switches sw cfg = Some sw'"
  shows "set_switches sw' cfg = Some sw'"
proof -
  from assms have ready: "switches_ready sw'"
    and upd: "\<And>k. k \<in> feature_keys \<Longrightarrow> switch_of sw' k = updated_switch cfg k (switch_of sw k)"
    by (metis option.inject set_switches_ready)+
  have fixed: "updated_switch cfg k (switch_of sw' k) = switch_of sw' k" if "k \<in> feature_keys" for k
    using upd that by simp
  show ?thesis
    using ready by (simp add: set_switches_def fixed store_switch_same)
qed

interpretation switches: idempotent_step ProcessControlSwitchesConfigMap switches_ready
proof
  show "switches_ready s'" if "switches_ready s" "ProcessControlSwitchesConfigMap l s = Some s'" for l s s'
    using that process_ready [of s l] by (metis option.inject)
  show "ProcessControlSwitchesConfigMap l s \<noteq> None" if "switches_ready s" for l s
    using that process_ready [of s l] by auto
  show "ProcessControlSwitchesConfigMap l s' = Some s'"
    if "switches_ready s" "ProcessControlSwitchesConfigMap l s = Some s'" for l s s'
    using that set_switches_idem process_eq_set_switches process_ready by (metis option.inject)
qed

subsection \<open>Resource name keys\<close>

text \<open>A list of names as the flag has it: each with blanks before and after it.\<close>

definition padded_list :: "(nat \<times> string \<times> nat) list \<Rightarrow> string" where
  "padded_list ps = go_join '','' (map (\<lambda>(k, name, l). replicate k CHR '' '' @ name @ replicate l CHR '' '') ps)"

definition key_name :: "string \<Rightarrow> bool" where
  "key_name name \<longleftrightarrow> list_all (\<lambda>c. plain c \<and> c \<noteq> CHR '','') name"

lemma padded_list_keys:
  assumes "ps \<noteq> []" "list_all (\<lambda>(k, name, l). key_name name) ps"
  shows "setResourceNameKeys (padded_list ps) = map (\<lambda>(k, name, l). name) ps"
proof -
  let ?pad = "\<lambda>(k, name, l). replicate k CHR '' '' @ name @ replicate l CHR '' ''"
  have ok: "CHR '','' \<notin> set (?pad p) \<and> trim_space (?pad p) = (case p of (k, name, l) \<Rightarrow> name)" if "p \<in> set ps" for p
  proof -
    obtain k name l where p: "p = (k, name, l)" by (cases p) auto
    then have "key_name name"
      using assms(2) that by (auto simp: list_all_iff)
    then have "\<forall>c\<in>set name. plain c" "CHR '','' \<notin> set name"
      by (auto simp: key_name_def list_all_iff)
    then show ?thesis
      by (simp add: p trim_space_padded)
  qed
  then have "go_split CHR '','' (padded_list ps) = map ?pad ps"
    using assms(1) unfolding padded_list_def by (intro go_split_join) auto
  moreover have "map trim_space (map ?pad ps) = map (\<lambda>(k, name, l). name) ps"
    using ok by simp
  ultimately show ?thesis
    by (simp add: setResourceNameKeys_def)
qed

lemma run_keeps_resource_name_keys:
  "switches_ready sw \<Longrightarrow> run_steps ProcessControlSwitchesConfigMap datas sw = Some sw' \<Longrightarrow>
   cs_resource_name_keys sw' = cs_resource_name_keys sw"
proof (induction datas arbitrary: sw)
  case (Cons data datas)
  obtain sw1 where "ProcessControlSwitchesConfigMap data sw = Some sw1" "switches_ready sw1"
    "cs_resource_name_keys sw1 = cs_resource_name_keys sw"
    using process_ready [OF Cons.prems(1), of data] by metis
  with Cons show ?case by simp
qed simp

section \<open>Properties\<close>


definition example_features :: "string gomap" where
  "example_features =
     [(''config.json'', ''{'' @ [CHR 0x22] @ ''features'' @ [CHR 0x22] @ '': {'' @ [CHR 0x22]
        @ ''enableHugePageDownApi'' @ [CHR 0x22] @ '': true}}'')]"


text \<open>
  C11: polling is safe and settles. From the initialised switches no sequence of ConfigMaps makes
  the processing panic, and processing the same ConfigMap again any number of times gives the
  state it gave the first time.
\<close>

theorem polling_settles:
  "\<exists>sw' sw''. run_steps ProcessControlSwitchesConfigMap datas (InitControlSwitches sw) = Some sw' \<and>
     ProcessControlSwitchesConfigMap data sw' = Some sw'' \<and>
     run_steps ProcessControlSwitchesConfigMap (datas @ replicate (Suc n) data) (InitControlSwitches sw) = Some sw''"
proof -
  obtain sw' where "run_steps ProcessControlSwitchesConfigMap datas (InitControlSwitches sw) = Some sw'"
    "switches_ready sw'"
    using switches.run_total [OF switches_ready_init] by blast
  moreover from this(2) obtain sw'' where "ProcessControlSwitchesConfigMap data sw' = Some sw''"
    using switches.step_total by blast
  ultimately show ?thesis
    using switches.run_settles [OF switches_ready_init, of datas sw sw' n data] by metis
qed



end
