(* ===== verification/Nad_Cache.thy ===== *)
theory Nad_Cache
  imports Nri_Types Contracts
begin

text \<open>
  pkg/tools/cache.go: the cache of the annotations of NetworkAttachmentDefinitions that an
  informer keeps up to date. A nil map is \<open>None\<close>: the map of the cache is nil after
  \<open>Stop\<close>, and the annotations of an object without annotations are nil.
\<close>

section \<open>Model\<close>

type_synonym annotations = "string gomap option"

record net_attach_def =
  nad_namespace :: string
  nad_name :: string
  nad_version :: string
  nad_annotations :: annotations

record nad_cache =
  nc_map :: "annotations gomap option"
  nc_stopper_closed :: bool
  nc_is_running :: bool

definition Create :: nad_cache where
  "Create = \<lparr>nc_map = Some [], nc_stopper_closed = False, nc_is_running = False\<rparr>"

definition getKey :: "string \<Rightarrow> string \<Rightarrow> string" where
  "getKey namespace networkName = namespace @ ''/'' @ networkName"

definition cache_put :: "nad_cache \<Rightarrow> string \<Rightarrow> string \<Rightarrow> annotations \<Rightarrow> nad_cache option" where
  "cache_put nc namespace networkName annotations =
     (case nc_map nc of
        None \<Rightarrow> go_panic
      | Some m \<Rightarrow> go_return (nc\<lparr>nc_map := Some (map_put m (getKey namespace networkName) annotations)\<rparr>))"

definition cache_Get :: "nad_cache \<Rightarrow> string \<Rightarrow> string \<Rightarrow> annotations" where
  "cache_Get nc namespace networkName =
     (case nc_map nc of
        None \<Rightarrow> None
      | Some m \<Rightarrow>
          (case map_get m (getKey namespace networkName) of
             Some annotationsMap \<Rightarrow> annotationsMap
           | None \<Rightarrow> None))"

definition cache_remove :: "nad_cache \<Rightarrow> string \<Rightarrow> string \<Rightarrow> nad_cache" where
  "cache_remove nc namespace networkName =
     (case nc_map nc of
        None \<Rightarrow> nc
      | Some m \<Rightarrow> nc\<lparr>nc_map := Some (map_del m (getKey namespace networkName))\<rparr>)"

text \<open>
  The object of a notification: a definition, or the tombstone an informer passes to the
  delete handler when it has missed the deletion itself.
\<close>

datatype informer_object = NadObject net_attach_def | DeletedFinalStateUnknown

definition AddFunc :: "informer_object \<Rightarrow> nad_cache \<Rightarrow> nad_cache option" where
  "AddFunc obj nc =
     (case obj of
        NadObject n \<Rightarrow> cache_put nc (nad_namespace n) (nad_name n) (nad_annotations n)
      | DeletedFinalStateUnknown \<Rightarrow> go_panic)"

definition UpdateFunc :: "informer_object \<Rightarrow> informer_object \<Rightarrow> nad_cache \<Rightarrow> nad_cache option" where
  "UpdateFunc oldObj newObj nc =
     (case (oldObj, newObj) of
        (NadObject old, NadObject new) \<Rightarrow>
          if nad_version old = nad_version new then go_return nc
          else cache_put (cache_remove nc (nad_namespace old) (nad_name old))
                 (nad_namespace new) (nad_name new) (nad_annotations new)
      | _ \<Rightarrow> go_panic)"

definition DeleteFunc :: "informer_object \<Rightarrow> nad_cache \<Rightarrow> nad_cache option" where
  "DeleteFunc obj nc =
     (case obj of
        NadObject n \<Rightarrow> go_return (cache_remove nc (nad_namespace n) (nad_name n))
      | DeletedFinalStateUnknown \<Rightarrow> go_panic)"

text \<open>
  The goroutine of \<open>Start\<close> sets the flag around the informer's run. \<open>Stop\<close>
  closes the channel, waits for the flag for three seconds, and drops the map.
\<close>

definition informer_begin :: "nad_cache \<Rightarrow> nad_cache" where
  "informer_begin nc = nc\<lparr>nc_is_running := True\<rparr>"

definition informer_end :: "nad_cache \<Rightarrow> nad_cache" where
  "informer_end nc = nc\<lparr>nc_is_running := False\<rparr>"

definition stop_close :: "nad_cache \<Rightarrow> nad_cache option" where
  "stop_close nc = (if nc_stopper_closed nc then go_panic else go_return (nc\<lparr>nc_stopper_closed := True\<rparr>))"

definition stop_clear :: "nad_cache \<Rightarrow> nad_cache" where
  "stop_clear nc = nc\<lparr>nc_map := None\<rparr>"

text \<open>The events of the informer, one handler call each: the handlers' mutex serialises them.\<close>

datatype informer_event =
    InformerAdd informer_object
  | InformerUpdate informer_object informer_object
  | InformerDelete informer_object

fun cache_event :: "informer_event \<Rightarrow> nad_cache \<Rightarrow> nad_cache option" where
  "cache_event (InformerAdd obj) nc = AddFunc obj nc"
| "cache_event (InformerUpdate oldObj newObj) nc = UpdateFunc oldObj newObj nc"
| "cache_event (InformerDelete obj) nc = DeleteFunc obj nc"

section \<open>The interface and its contract\<close>

text \<open>
  What the event handlers and the readers need of a store of annotations: reading after a
  write or a removal, for namespaces that are valid names, while the store is live.
\<close>

locale annotation_store =
  fixes get :: "'c \<Rightarrow> string \<Rightarrow> string \<Rightarrow> annotations"
    and put :: "'c \<Rightarrow> string \<Rightarrow> string \<Rightarrow> annotations \<Rightarrow> 'c option"
    and remove :: "'c \<Rightarrow> string \<Rightarrow> string \<Rightarrow> 'c"
    and live :: "'c \<Rightarrow> bool"
    and valid :: "string \<Rightarrow> bool"
  assumes put_live: "live c \<Longrightarrow> \<exists>c'. put c ns n a = Some c' \<and> live c'"
    and get_put: "live c \<Longrightarrow> valid ns \<Longrightarrow> valid ns' \<Longrightarrow> put c ns n a = Some c' \<Longrightarrow>
      get c' ns' n' = (if ns' = ns \<and> n' = n then a else get c ns' n')"
    and remove_live: "live c \<Longrightarrow> live (remove c ns n)"
    and get_remove: "live c \<Longrightarrow> valid ns \<Longrightarrow> valid ns' \<Longrightarrow>
      get (remove c ns n) ns' n' = (if ns' = ns \<and> n' = n then None else get c ns' n')"

text \<open>
  The handlers over any store, and their specification on the annotations per object: adding
  and updating set them, deleting resets them. An event is lawful when it fits what the
  informer has reported: the old object of an update is the one known, and two objects with
  the same resource version are the same.
\<close>

fun on_event ::
  "('c \<Rightarrow> string \<Rightarrow> string \<Rightarrow> annotations \<Rightarrow> 'c option) \<Rightarrow> ('c \<Rightarrow> string \<Rightarrow> string \<Rightarrow> 'c) \<Rightarrow>
   informer_event \<Rightarrow> 'c \<Rightarrow> 'c option" where
  "on_event put rem (InformerAdd (NadObject n)) c = put c (nad_namespace n) (nad_name n) (nad_annotations n)"
| "on_event put rem (InformerUpdate (NadObject old) (NadObject new)) c =
     (if nad_version old = nad_version new then Some c
      else put (rem c (nad_namespace old) (nad_name old)) (nad_namespace new) (nad_name new) (nad_annotations new))"
| "on_event put rem (InformerDelete (NadObject n)) c = Some (rem c (nad_namespace n) (nad_name n))"
| "on_event put rem _ c = None"

type_synonym annotation_view = "string \<times> string \<Rightarrow> annotations"

definition object_id :: "net_attach_def \<Rightarrow> string \<times> string" where
  "object_id n = (nad_namespace n, nad_name n)"

fun spec_event :: "informer_event \<Rightarrow> annotation_view \<Rightarrow> annotation_view" where
  "spec_event (InformerAdd (NadObject n)) s = s(object_id n := nad_annotations n)"
| "spec_event (InformerUpdate (NadObject old) (NadObject new)) s = s(object_id new := nad_annotations new)"
| "spec_event (InformerDelete (NadObject n)) s = s(object_id n := None)"
| "spec_event _ s = s"

fun lawful_event :: "(string \<Rightarrow> bool) \<Rightarrow> informer_event \<Rightarrow> annotation_view \<Rightarrow> bool" where
  "lawful_event valid (InformerAdd (NadObject n)) s = valid (nad_namespace n)"
| "lawful_event valid (InformerUpdate (NadObject old) (NadObject new)) s =
     (valid (nad_namespace old) \<and> object_id old = object_id new \<and> s (object_id old) = nad_annotations old \<and>
      (nad_version old = nad_version new \<longrightarrow> nad_annotations old = nad_annotations new))"
| "lawful_event valid (InformerDelete (NadObject n)) s = valid (nad_namespace n)"
| "lawful_event valid _ s = False"

fun lawful_history :: "(string \<Rightarrow> bool) \<Rightarrow> informer_event list \<Rightarrow> annotation_view \<Rightarrow> bool" where
  "lawful_history valid [] s = True"
| "lawful_history valid (e # es) s = (lawful_event valid e s \<and> lawful_history valid es (spec_event e s))"

definition spec_history :: "informer_event list \<Rightarrow> annotation_view \<Rightarrow> annotation_view" where
  "spec_history es s = fold spec_event es s"

fun_cases lawful_updateE: "lawful_event valid (InformerUpdate x y) s"
fun_cases lawful_addE: "lawful_event valid (InformerAdd x) s"
fun_cases lawful_deleteE: "lawful_event valid (InformerDelete x) s"

context annotation_store begin

definition shows_view :: "'c \<Rightarrow> annotation_view \<Rightarrow> bool" where
  "shows_view c s \<longleftrightarrow> live c \<and> (\<forall>ns n. valid ns \<longrightarrow> get c ns n = s (ns, n))"

lemma shows_view_put:
  assumes "shows_view c s" "valid ns"
  shows "\<exists>c'. put c ns n a = Some c' \<and> shows_view c' (s((ns, n) := a))"
proof -
  obtain c' where "put c ns n a = Some c'" "live c'"
    using assms put_live unfolding shows_view_def by blast
  with assms get_put show ?thesis
    unfolding shows_view_def by (intro exI [of _ c']) auto
qed

lemma shows_view_remove:
  "shows_view c s \<Longrightarrow> valid ns \<Longrightarrow> shows_view (remove c ns n) (s((ns, n) := None))"
  using remove_live get_remove unfolding shows_view_def by auto

lemma event_simulation:
  assumes "shows_view c s" "lawful_event valid e s"
  shows "\<exists>c'. on_event put remove e c = Some c' \<and> shows_view c' (spec_event e s)"
proof (cases e)
  case (InformerAdd x)
  with assms show ?thesis
    by (auto elim!: lawful_addE simp: object_id_def intro: shows_view_put)
next
  case (InformerUpdate x y)
  with assms(2) obtain old new where obj: "x = NadObject old" "y = NadObject new"
    and law: "valid (nad_namespace old)" "object_id old = object_id new" "s (object_id old) = nad_annotations old"
      "nad_version old = nad_version new \<longrightarrow> nad_annotations old = nad_annotations new"
    by (auto elim: lawful_updateE)
  show ?thesis
  proof (cases "nad_version old = nad_version new")
    case True
    then have "s(object_id new := nad_annotations new) = s"
      using law by (auto simp: fun_upd_idem_iff)
    with True InformerUpdate obj assms(1) show ?thesis by simp
  next
    case False
    have same: "nad_namespace old = nad_namespace new" "nad_name old = nad_name new"
      using law(2) by (simp_all add: object_id_def)
    then show ?thesis
      using False InformerUpdate obj law(1) shows_view_remove [OF assms(1) law(1), of "nad_name old"]
        shows_view_put [of "remove c (nad_namespace old) (nad_name old)" _ "nad_namespace new" "nad_name new" "nad_annotations new"]
      by (fastforce simp: object_id_def)
  qed
next
  case (InformerDelete x)
  with assms show ?thesis
    by (auto elim!: lawful_deleteE simp: object_id_def intro: shows_view_remove)
qed

lemma history_simulation:
  "shows_view c s \<Longrightarrow> lawful_history valid es s \<Longrightarrow>
   \<exists>c'. run_steps (on_event put remove) es c = Some c' \<and> shows_view c' (spec_history es s)"
proof (induction es arbitrary: c s)
  case (Cons e es)
  then obtain c1 where "on_event put remove e c = Some c1" "shows_view c1 (spec_event e s)"
    using event_simulation [of c s e] by auto
  with Cons show ?case
    by (auto simp: spec_history_def)
qed (simp add: spec_history_def)

end

section \<open>The cache implements it\<close>

definition cache_live :: "nad_cache \<Rightarrow> bool" where
  "cache_live nc \<longleftrightarrow> nc_map nc \<noteq> None"

definition slash_free :: "string \<Rightarrow> bool" where
  "slash_free s \<longleftrightarrow> CHR ''/'' \<notin> set s"

lemma getKey_inject:
  "slash_free ns \<Longrightarrow> slash_free ns' \<Longrightarrow> getKey ns n = getKey ns' n' \<longleftrightarrow> ns = ns' \<and> n = n'"
proof -
  assume free: "slash_free ns" "slash_free ns'"
  have "hd (go_split CHR ''/'' (getKey x y)) = x" if "slash_free x" for x y
    using that by (simp add: getKey_def slash_free_def go_split_append_sep)
  then have "getKey ns n = getKey ns' n' \<Longrightarrow> ns = ns'"
    using free by metis
  then show ?thesis by (auto simp: getKey_def)
qed

lemma cache_event_eq: "cache_event e nc = on_event cache_put cache_remove e nc"
  by (cases "(cache_put, cache_remove, e, nc)" rule: on_event.cases)
    (auto simp: AddFunc_def UpdateFunc_def DeleteFunc_def split: informer_object.splits)

interpretation cache: annotation_store cache_Get cache_put cache_remove cache_live slash_free
  by unfold_locales
    (auto simp: cache_live_def cache_put_def cache_Get_def cache_remove_def go_map getKey_inject split: option.splits)

lemma cache_shows_Create: "cache.shows_view Create (\<lambda>_. None)"
  by (simp add: cache.shows_view_def cache_live_def Create_def cache_Get_def)

subsection \<open>After the end\<close>

fun harmless_after_stop :: "informer_event \<Rightarrow> bool" where
  "harmless_after_stop (InformerUpdate (NadObject old) (NadObject new)) \<longleftrightarrow> nad_version old = nad_version new"
| "harmless_after_stop (InformerDelete (NadObject n)) \<longleftrightarrow> True"
| "harmless_after_stop _ \<longleftrightarrow> False"

lemma cache_event_after_stop:
  "cache_event e (stop_clear nc) = (if harmless_after_stop e then Some (stop_clear nc) else None)"
  by (cases e rule: harmless_after_stop.cases)
    (simp_all add: AddFunc_def UpdateFunc_def DeleteFunc_def cache_put_def cache_remove_def stop_clear_def
      split: informer_object.splits)

section \<open>Properties\<close>

text \<open>
  C12: the cache refines the view of the informer's reports. After any lawful history of events
  from the empty cache no handler has panicked, and for every object (in a namespace without a
  slash) the cache returns the annotations last reported, or nil if it was deleted or never
  reported.
\<close>

theorem cache_refines_reports:
  assumes "lawful_history slash_free es (\<lambda>_. None)"
  shows "\<exists>nc. run_steps cache_event es Create = Some nc \<and>
    (\<forall>ns n. slash_free ns \<longrightarrow> cache_Get nc ns n = spec_history es (\<lambda>_. None) (ns, n))"
proof -
  have "cache_event = on_event cache_put cache_remove"
    by (intro ext) (rule cache_event_eq)
  then show ?thesis
    using cache.history_simulation [OF cache_shows_Create assms] by (auto simp: cache.shows_view_def)
qed

definition example_nad :: "string \<Rightarrow> string gomap \<Rightarrow> net_attach_def" where
  "example_nad ver annots =
     \<lparr>nad_namespace = ''ns'', nad_name = ''net'', nad_version = ver, nad_annotations = Some annots\<rparr>"

theorem cache_refines_reports_witness:
  "\<exists>nc. run_steps cache_event
      [InformerAdd (NadObject (example_nad ''1'' [])),
       InformerUpdate (NadObject (example_nad ''1'' [])) (NadObject (example_nad ''2'' [(''k'', ''v'')]))] Create = Some nc \<and>
    cache_Get nc ''ns'' ''net'' = Some [(''k'', ''v'')]"
proof -
  let ?es = "[InformerAdd (NadObject (example_nad ''1'' [])),
    InformerUpdate (NadObject (example_nad ''1'' [])) (NadObject (example_nad ''2'' [(''k'', ''v'')]))]"
  have "lawful_history slash_free ?es (\<lambda>_. None)"
    by (simp add: example_nad_def object_id_def slash_free_def)
  moreover have "spec_history ?es (\<lambda>_. None) (''ns'', ''net'') = Some [(''k'', ''v'')]" "slash_free ''ns''"
    by (simp_all add: spec_history_def example_nad_def object_id_def slash_free_def)
  ultimately show ?thesis
    using cache_refines_reports [of ?es] by auto
qed

text \<open>
  C36: which events panic a handler. \<open>Stop\<close> drops the map also when the informer has not ended in
  time: of the events that come after that a sequence is handled exactly when it has only
  deletions and updates without a new version, which change nothing, and any other panics. A
  sequence with the tombstone of a deletion the informer missed panics from every state.
\<close>

theorem events_after_stop:
  "run_steps cache_event es (stop_clear nc) = (if list_all harmless_after_stop es then Some (stop_clear nc) else None) \<and>
   run_steps cache_event (pre @ InformerDelete DeletedFinalStateUnknown # post) nc = None"
proof
  show "run_steps cache_event es (stop_clear nc) = (if list_all harmless_after_stop es then Some (stop_clear nc) else None)"
    by (induction es) (simp_all add: cache_event_after_stop)
  show "run_steps cache_event (pre @ InformerDelete DeletedFinalStateUnknown # post) nc = None"
    by (simp add: run_steps_append DeleteFunc_def split: option.splits)
qed

end
