(* ===== verification/User_Injections.thy ===== *)
theory User_Injections
  imports Nri_Types Contracts
begin

text \<open>
  pkg/userdefinedinjections: the annotation patches an administrator defines in a ConfigMap,
  keyed by the pod label that asks for them. The mutex makes each of the two operations one
  step.
\<close>

definition userDefinedInjectionsMainKey :: string where
  "userDefinedInjectionsMainKey = ''user-defined-injections''"

definition annotations_path :: string where
  "annotations_path = ''/metadata/annotations''"

section \<open>Model\<close>

record 'q user_defined_injections =
  ui_patchs :: "'q json_patch_operation gomap"

definition CreateUserInjectionsStructure :: "'q user_defined_injections" where
  "CreateUserInjectionsStructure = \<lparr>ui_patchs = []\<rparr>"

text \<open>
  One turn of the loop over the injections of the ConfigMap. The variable \<open>patch\<close> is
  declared before the loop, so it is part of the loop's state. The comparison with the value
  already stored only spares an assignment.
\<close>

definition set_injection ::
  "'q json_patch_operation \<times> 'q json_patch_operation gomap \<Rightarrow> string \<times> json \<Rightarrow>
   'q json_patch_operation \<times> 'q json_patch_operation gomap" where
  "set_injection st kv =
     (case st of (patch, patchs) \<Rightarrow> case kv of (k, val) \<Rightarrow>
        let existValue = map_get patchs k;
            (patch, err) = decode_patch_operation val patch
        in if err then (patch, patchs)
           else if jp_path patch \<noteq> annotations_path then (patch, patchs)
           else if existValue \<noteq> Some patch then (patch, map_put patchs k patch)
           else (patch, patchs))"

definition remove_stale :: "json gomap \<Rightarrow> 'v gomap \<Rightarrow> 'v gomap" where
  "remove_stale injs patchs =
     foldl (\<lambda>m k. if map_get injs k \<noteq> None then m else map_del m k) patchs (map_keys patchs)"

definition SetUserDefinedInjections ::
  "range_order \<Rightarrow> string gomap \<Rightarrow> 'q user_defined_injections \<Rightarrow> 'q user_defined_injections" where
  "SetUserDefinedInjections ord data ui =
     (case map_get data ConfigMapMainFileKey of
        Some v \<Rightarrow>
          (case unmarshal_raw_map v of
             Inl _ \<Rightarrow> ui
           | Inr obj \<Rightarrow>
               (case map_get obj userDefinedInjectionsMainKey of
                  Some userDefinedInjections \<Rightarrow>
                    (case decode_raw_map userDefinedInjections of
                       Inl _ \<Rightarrow> ui
                     | Inr injs \<Rightarrow>
                         (let (patch, patchs) =
                                foldl set_injection (zero_patch_operation, ui_patchs ui) (map_range ord injs)
                          in ui\<lparr>ui_patchs := remove_stale injs patchs\<rparr>))
                | None \<Rightarrow> ui\<lparr>ui_patchs := []\<rparr>))
      | None \<Rightarrow> ui\<lparr>ui_patchs := []\<rparr>)"

definition label_is_true :: "string gomap \<Rightarrow> string \<Rightarrow> bool" where
  "label_is_true labels k =
     (case map_get labels k of None \<Rightarrow> False | Some podValue \<Rightarrow> to_lower podValue = ''true'')"

definition CreateUserDefinedPatch ::
  "range_order \<Rightarrow> 'q user_defined_injections \<Rightarrow> 'q pod \<Rightarrow> 'q json_patch_operation list" where
  "CreateUserDefinedPatch ord ui pod =
     map snd (filter (\<lambda>(k, v). label_is_true (pod_labels pod) k) (map_range ord (ui_patchs ui)))"

section \<open>Library\<close>

text \<open>
  What one run of the loop decodes does not depend on the patches stored: the patch of every
  entry, or nothing where the entry is rejected.
\<close>

fun decoded_entries ::
  "'q json_patch_operation \<Rightarrow> (string \<times> json) list \<Rightarrow> (string \<times> 'q json_patch_operation option) list" where
  "decoded_entries p [] = []"
| "decoded_entries p ((k, j) # es) =
     (let (p', err) = decode_patch_operation j p
      in (k, if err \<or> jp_path p' \<noteq> annotations_path then None else Some p') # decoded_entries p' es)"

definition store_entry :: "'v gomap \<Rightarrow> string \<times> 'v option \<Rightarrow> 'v gomap" where
  "store_entry m kp =
     (case snd kp of
        None \<Rightarrow> m
      | Some p \<Rightarrow> if map_get m (fst kp) = Some p then m else map_put m (fst kp) p)"

lemma foldl_set_injection:
  "snd (foldl set_injection (p, m) es) = foldl store_entry m (decoded_entries p es)"
proof (induction es arbitrary: p m)
  case (Cons e es)
  obtain k j p' err where "e = (k, j)" "decode_patch_operation j p = (p', err)"
    by (metis surj_pair)
  with Cons show ?case
    by (auto simp: set_injection_def store_entry_def Let_def)
qed simp

lemma keys_decoded_entries [simp]: "map fst (decoded_entries p es) = map fst es"
  by (induction p es rule: decoded_entries.induct) (auto simp: Let_def split: prod.splits)

lemma decoded_entries_path:
  "(k, Some q) \<in> set (decoded_entries p es) \<Longrightarrow> jp_path q = annotations_path"
  by (induction p es rule: decoded_entries.induct) (auto simp: Let_def split: prod.splits if_splits)

lemma store_entries_get:
  "distinct (map fst ds) \<Longrightarrow>
   map_get (foldl store_entry m ds) k = (case map_of ds k of Some (Some p) \<Rightarrow> Some p | _ \<Rightarrow> map_get m k)"
proof (induction ds arbitrary: m)
  case (Cons d ds)
  have "map_of ds (fst d) = None"
    using Cons.prems by (simp add: map_of_eq_None_iff)
  with Cons show ?case
    by (cases d) (auto simp: store_entry_def go_map split: option.splits)
qed simp

lemma store_entries_same:
  "\<forall>(k, r)\<in>set ds. r = None \<or> map_get m k = r \<Longrightarrow> foldl store_entry m ds = m"
  by (induction ds) (auto simp: store_entry_def split: option.splits)

lemma foldl_delete_get:
  "map_get (foldl (\<lambda>m k. if map_get injs k \<noteq> None then m else map_del m k) m ks) k =
     (if k \<in> set ks \<and> map_get injs k = None then None else map_get m k)"
  by (induction ks arbitrary: m) (auto simp: go_map)

lemma remove_stale_get [go_map]:
  "map_get (remove_stale injs m) k = (if map_get injs k = None then None else map_get m k)"
  unfolding remove_stale_def foldl_delete_get by (auto simp: map_keys_get)

lemma remove_stale_same:
  "set (map_keys m) \<subseteq> set (map_keys injs) \<Longrightarrow> remove_stale injs m = m"
proof -
  assume sub: "set (map_keys m) \<subseteq> set (map_keys injs)"
  have "foldl (\<lambda>m k. if map_get injs k \<noteq> None then m else map_del m k) m ks = m"
    if "set ks \<subseteq> set (map_keys injs)" for ks
    using that by (induction ks) (auto simp: map_keys_get)
  then show ?thesis
    using sub by (simp add: remove_stale_def)
qed

lemma wf_store_entries: "wf_map m \<Longrightarrow> wf_map (foldl store_entry m ds)"
  by (induction ds arbitrary: m) (auto simp: store_entry_def wf_map_put split: option.splits)

lemma wf_remove_stale: "wf_map m \<Longrightarrow> wf_map (remove_stale injs m)"
proof -
  have "wf_map m \<Longrightarrow> wf_map (foldl (\<lambda>m k. if map_get injs k \<noteq> None then m else map_del m k) m ks)" for ks
    by (induction ks arbitrary: m) (auto intro: wf_map_del)
  then show "wf_map m \<Longrightarrow> wf_map (remove_stale injs m)"
    by (simp add: remove_stale_def)
qed

subsection \<open>What a ConfigMap says\<close>

datatype injection_config = ClearInjections | KeepInjections | Injections "json gomap"

definition injection_config_of :: "string gomap \<Rightarrow> injection_config" where
  "injection_config_of data =
     (case map_get data ConfigMapMainFileKey of
        None \<Rightarrow> ClearInjections
      | Some v \<Rightarrow>
          (case unmarshal_raw_map v of
             Inl _ \<Rightarrow> KeepInjections
           | Inr obj \<Rightarrow>
               (case map_get obj userDefinedInjectionsMainKey of
                  None \<Rightarrow> ClearInjections
                | Some j \<Rightarrow> (case decode_raw_map j of Inl _ \<Rightarrow> KeepInjections | Inr injs \<Rightarrow> Injections injs))))"

lemma SetUserDefinedInjections_eq:
  "SetUserDefinedInjections ord data ui =
     (case injection_config_of data of
        ClearInjections \<Rightarrow> ui\<lparr>ui_patchs := []\<rparr>
      | KeepInjections \<Rightarrow> ui
      | Injections injs \<Rightarrow>
          ui\<lparr>ui_patchs := remove_stale injs
               (foldl store_entry (ui_patchs ui) (decoded_entries zero_patch_operation (map_range ord injs)))\<rparr>)"
proof -
  have "(let (patch, patchs) = foldl set_injection (p, m) es in ui\<lparr>ui_patchs := remove_stale injs patchs\<rparr>)
      = ui\<lparr>ui_patchs := remove_stale injs (foldl store_entry m (decoded_entries p es))\<rparr>" for p m es injs
    using foldl_set_injection [of p m es] by (simp add: case_prod_unfold)
  then show ?thesis
    by (auto simp: SetUserDefinedInjections_def injection_config_of_def split: option.splits sum.splits)
qed

lemma wf_injections: "injection_config_of data = Injections injs \<Longrightarrow> wf_map injs"
  by (auto simp: injection_config_of_def wf_decode_raw_map split: option.splits sum.splits)

definition injections_ok :: "'q user_defined_injections \<Rightarrow> bool" where
  "injections_ok ui \<longleftrightarrow>
     wf_map (ui_patchs ui) \<and> (\<forall>k p. map_get (ui_patchs ui) k = Some p \<longrightarrow> jp_path p = annotations_path)"

lemma CreateUserDefinedPatch_mem:
  assumes "lawful_order ord" "injections_ok ui"
  shows "p \<in> set (CreateUserDefinedPatch ord ui pod) \<longleftrightarrow>
    (\<exists>k v. map_get (ui_patchs ui) k = Some p \<and> map_get (pod_labels pod) k = Some v \<and> to_lower v = ''true'')"
proof -
  have wf: "wf_map (ui_patchs ui)"
    using assms(2) by (simp add: injections_ok_def)
  show ?thesis
    by (force simp: CreateUserDefinedPatch_def set_map_range [OF assms(1) wf] wf_map_get [OF wf] label_is_true_def
        split: option.splits)
qed

lemma injections_ok_create: "injections_ok CreateUserInjectionsStructure"
  by (simp add: injections_ok_def CreateUserInjectionsStructure_def)

lemma store_entries_path:
  "\<forall>k p. map_get m k = Some p \<longrightarrow> jp_path p = annotations_path \<Longrightarrow>
   \<forall>(k, r)\<in>set ds. \<forall>p. r = Some p \<longrightarrow> jp_path p = annotations_path \<Longrightarrow>
   map_get (foldl store_entry m ds) k = Some q \<Longrightarrow> jp_path q = annotations_path"
proof (induction ds arbitrary: m)
  case (Cons d ds)
  show ?case
    by (rule Cons.IH [of "store_entry m d"])
      (use Cons.prems in \<open>auto simp: store_entry_def go_map split: option.splits if_splits\<close>)
qed auto

lemma injections_ok_set: "injections_ok ui \<Longrightarrow> injections_ok (SetUserDefinedInjections ord data ui)"
proof -
  assume ok: "injections_ok ui"
  have "injections_ok (ui\<lparr>ui_patchs := remove_stale injs (foldl store_entry (ui_patchs ui) (decoded_entries p es))\<rparr>)"
    for injs p es
    using ok store_entries_path [of "ui_patchs ui" "decoded_entries p es"] decoded_entries_path [of _ _ p es]
    by (fastforce simp: injections_ok_def go_map wf_remove_stale wf_store_entries split: if_splits)
  with ok show ?thesis
    by (auto simp: SetUserDefinedInjections_eq injections_ok_def split: injection_config.splits)
qed

lemma SetUserDefinedInjections_idem:
  assumes "lawful_order ord"
  shows "SetUserDefinedInjections ord data (SetUserDefinedInjections ord data ui) = SetUserDefinedInjections ord data ui"
proof (cases "injection_config_of data")
  case (Injections injs)
  let ?ds = "decoded_entries zero_patch_operation (map_range ord injs) :: (string \<times> 'a json_patch_operation option) list"
  let ?m = "foldl store_entry (ui_patchs ui) ?ds"
  have wf: "wf_map injs" using Injections by (rule wf_injections)
  have distinct: "distinct (map fst ?ds)"
    using assms wf by (simp add: distinct_map_range)
  have "fst ` set ?ds = set (map_keys injs)"
    using assms by (metis keys_decoded_entries keys_map_range list.set_map set_lawful_order)
  then have keys: "map_get injs k \<noteq> None" if "(k, r) \<in> set ?ds" for k r
    using that map_keys_get [of k injs] by (metis fst_conv image_eqI)
  have "r = None \<or> map_get (remove_stale injs ?m) k = r" if "(k, r) \<in> set ?ds" for k r
    using that keys [OF that] map_of_is_SomeI [OF distinct that]
    by (cases r) (simp_all add: go_map store_entries_get [OF distinct])
  then have "foldl store_entry (remove_stale injs ?m) ?ds = remove_stale injs ?m"
    by (intro store_entries_same) auto
  moreover have "set (map_keys (remove_stale injs ?m)) \<subseteq> set (map_keys injs)"
    by (auto simp: map_keys_get go_map split: if_splits)
  ultimately show ?thesis
    by (simp add: SetUserDefinedInjections_eq Injections remove_stale_same)
qed (simp_all add: SetUserDefinedInjections_eq)

interpretation injections:
  total_step "\<lambda>(ord, data) ui. Some (SetUserDefinedInjections ord data ui)" injections_ok
  by unfold_locales (auto intro: injections_ok_set)

text \<open>
  An entry whose decoding does not depend on what the shared variable held before: an object
  that sets all the three fields, for instance.
\<close>

definition self_contained :: "'q itself \<Rightarrow> json \<Rightarrow> bool" where
  "self_contained t j \<longleftrightarrow>
     (\<forall>p p' :: 'q json_patch_operation. decode_patch_operation j p = decode_patch_operation j p')"

definition entry_patch :: "json \<Rightarrow> 'q json_patch_operation option" where
  "entry_patch j =
     (let (p, err) = decode_patch_operation j zero_patch_operation
      in if err \<or> jp_path p \<noteq> annotations_path then None else Some p)"

lemma decoded_entries_self_contained:
  fixes p :: "'q json_patch_operation"
  assumes "\<forall>(k, j)\<in>set es. self_contained TYPE('q) j"
  shows "decoded_entries p es = map (\<lambda>(k, j). (k, entry_patch j)) es"
  using assms
proof (induction es arbitrary: p)
  case (Cons e es)
  obtain k j where e: "e = (k, j)" by (cases e)
  then have "decode_patch_operation j p = decode_patch_operation j zero_patch_operation"
    using Cons.prems unfolding self_contained_def by auto
  with Cons e show ?case
    by (auto simp: entry_patch_def Let_def split: prod.splits)
qed simp

lemma stored_injections_get:
  fixes ui :: "'q user_defined_injections"
  assumes "lawful_order ord" "injection_config_of data = Injections injs"
    and "\<forall>(k, j)\<in>set injs. self_contained TYPE('q) j"
  shows "map_get (ui_patchs (SetUserDefinedInjections ord data ui)) k =
    (case map_get injs k of
       None \<Rightarrow> None
     | Some j \<Rightarrow> (case entry_patch j of Some p \<Rightarrow> Some p | None \<Rightarrow> map_get (ui_patchs ui) k))"
proof -
  let ?es = "map_range ord injs"
  have wf: "wf_map injs" using assms(2) by (rule wf_injections)
  have "\<forall>(k, j)\<in>set ?es. self_contained TYPE('q) j"
    using assms(1,3) wf by (simp add: set_map_range)
  then have ds: "decoded_entries zero_patch_operation ?es = map (\<lambda>(k, j). (k, entry_patch j :: 'q json_patch_operation option)) ?es"
    by (rule decoded_entries_self_contained)
  have "map_of (map (\<lambda>(k, j). (k, entry_patch j :: 'q json_patch_operation option)) ?es) k = map_option entry_patch (map_get injs k)"
    using map_of_map_range [OF assms(1) wf] by (simp add: map_of_map)
  moreover have "distinct (map fst (map (\<lambda>(k, j). (k, entry_patch j :: 'q json_patch_operation option)) ?es))"
    using distinct_map_range [OF assms(1) wf] by (simp add: comp_def case_prod_unfold)
  ultimately show ?thesis
    by (simp add: SetUserDefinedInjections_eq assms(2) ds go_map store_entries_get split: option.splits)
qed

text \<open>
  The same for any entries, and an entry that names no field: whatever was decoded before it, its
  decoding succeeds and leaves the shared variable as it is.
\<close>

lemma stored_injections_decoded:
  fixes ui :: "'q user_defined_injections"
  assumes "lawful_order ord" "injection_config_of data = Injections injs"
  shows "map_get (ui_patchs (SetUserDefinedInjections ord data ui)) k =
    (if map_get injs k = None then None
     else case map_of (decoded_entries zero_patch_operation (map_range ord injs)) k of
       Some (Some p) \<Rightarrow> Some p | _ \<Rightarrow> map_get (ui_patchs ui) k)"
proof -
  have "distinct (map fst (decoded_entries zero_patch_operation (map_range ord injs) :: (string \<times> 'q json_patch_operation option) list))"
    using distinct_map_range [OF assms(1) wf_injections [OF assms(2)]] by simp
  then show ?thesis
    by (simp add: SetUserDefinedInjections_eq assms(2) go_map store_entries_get)
qed

lemma decoded_entries_append:
  "\<exists>p'. decoded_entries p (xs @ ys) = decoded_entries p xs @ decoded_entries p' ys"
proof (induction xs arbitrary: p)
  case (Cons x xs)
  then show ?case
    by (cases x) (auto simp: Let_def split: prod.splits)
qed auto

definition field_of_patch :: "string \<Rightarrow> bool" where
  "field_of_patch f \<longleftrightarrow> equal_fold f ''op'' \<or> equal_fold f ''path'' \<or> equal_fold f ''value''"

definition names_no_field :: "json \<Rightarrow> bool" where
  "names_no_field j =
     (case j of JNull \<Rightarrow> True | JObj kvs \<Rightarrow> list_all (\<lambda>(f, v). \<not> field_of_patch f) kvs | _ \<Rightarrow> False)"

lemma decode_names_no_field:
  "names_no_field j \<Longrightarrow> decode_patch_operation j p = (p, False)"
proof -
  have "list_all (\<lambda>(f, v). \<not> field_of_patch f) kvs \<Longrightarrow> foldl decode_patch_field (p, False) kvs = (p, False)" for kvs
    by (induction kvs) (auto simp: decode_patch_field_def field_of_patch_def)
  then show "names_no_field j \<Longrightarrow> decode_patch_operation j p = (p, False)"
    by (auto simp: names_no_field_def decode_patch_operation_def split: json.splits)
qed

lemma entry_after:
  fixes p :: "'q json_patch_operation"
  assumes "distinct (map fst (pre @ (a, j) # (k, e) # post))" "self_contained TYPE('q) j" "entry_patch j = Some p" "names_no_field e"
  shows "map_of (decoded_entries q (pre @ (a, j) # (k, e) # post)) k = Some (Some p)"
proof -
  obtain q' where split: "decoded_entries q (pre @ (a, j) # (k, e) # post) =
      decoded_entries q pre @ decoded_entries q' ((a, j) # (k, e) # post)"
    using decoded_entries_append by blast
  have "decode_patch_operation j zero_patch_operation = (p, False)" "jp_path p = annotations_path"
    using assms(3) by (auto simp: entry_patch_def Let_def split: prod.splits if_splits)
  then have j: "decode_patch_operation j q' = (p, False)" "jp_path p = annotations_path"
    using assms(2) unfolding self_contained_def by metis+
  have "k \<notin> set (map fst (decoded_entries q pre))" "a \<noteq> k"
    using assms(1) by auto
  then have "map_of (decoded_entries q pre) k = None" "a \<noteq> k"
    unfolding map_of_eq_None_iff set_map by auto
  then show ?thesis
    unfolding split map_of_append
    by (simp add: j decode_names_no_field [OF assms(4)] map_add_def)
qed

text \<open>
  The specification of one ConfigMap for the injections: none are left when it says nothing of
  them, a text that does not decode changes nothing, and otherwise only labels it names are left,
  with their entries when these set their own fields.
\<close>

definition injections_updated ::
  "injection_config \<Rightarrow> 'q user_defined_injections \<Rightarrow> 'q user_defined_injections \<Rightarrow> bool" where
  "injections_updated cfg ui ui' \<longleftrightarrow>
     (case cfg of
        ClearInjections \<Rightarrow> (\<forall>k. map_get (ui_patchs ui') k = None)
      | KeepInjections \<Rightarrow> (\<forall>k. map_get (ui_patchs ui') k = map_get (ui_patchs ui) k)
      | Injections injs \<Rightarrow>
          (\<forall>k. map_get injs k = None \<longrightarrow> map_get (ui_patchs ui') k = None) \<and>
          ((\<forall>(k, j)\<in>set injs. self_contained TYPE('q) j) \<longrightarrow>
             (\<forall>k j. map_get injs k = Some j \<longrightarrow>
                map_get (ui_patchs ui') k = (case entry_patch j of Some p \<Rightarrow> Some p | None \<Rightarrow> map_get (ui_patchs ui) k))))"

lemma SetUserDefinedInjections_updates:
  fixes ui :: "'q user_defined_injections"
  assumes "lawful_order ord"
  shows "injections_updated (injection_config_of data) ui (SetUserDefinedInjections ord data ui)"
proof (cases "injection_config_of data")
  case (Injections injs)
  let ?new = "SetUserDefinedInjections ord data ui"
  have "\<forall>k. map_get injs k = None \<longrightarrow> map_get (ui_patchs ?new) k = None"
    by (simp add: stored_injections_decoded [OF assms Injections])
  moreover have "map_get (ui_patchs ?new) k = (case entry_patch j of Some p \<Rightarrow> Some p | None \<Rightarrow> map_get (ui_patchs ui) k)"
    if "\<forall>(k, j)\<in>set injs. self_contained TYPE('q) j" "map_get injs k = Some j" for k j
    using stored_injections_get [OF assms Injections that(1), of ui k] that(2) by simp
  ultimately show ?thesis
    by (simp add: injections_updated_def Injections)
qed (simp_all add: injections_updated_def SetUserDefinedInjections_eq)

section \<open>Examples\<close>

definition example_patch_json :: json where
  "example_patch_json =
     JObj [(''op'', JStr ''add''), (''path'', JStr ''/metadata/annotations''), (''value'', JObj [(''k'', JStr ''v'')])]"

definition quoted :: "string \<Rightarrow> string" where
  "quoted s = [CHR 0x22] @ s @ [CHR 0x22]"

definition example_patch_text :: string where
  "example_patch_text =
     ''{'' @ quoted ''op'' @ '':'' @ quoted ''add'' @ '','' @ quoted ''path'' @ '':'' @ quoted ''/metadata/annotations''
     @ '','' @ quoted ''value'' @ '':{'' @ quoted ''k'' @ '':'' @ quoted ''v'' @ ''}}''"

definition injections_text :: "string \<Rightarrow> string gomap" where
  "injections_text body =
     [(''config.json'', ''{'' @ quoted ''user-defined-injections'' @ '':{'' @ body @ ''}}'')]"

definition example_operation :: "'q json_patch_operation" where
  "example_operation = \<lparr>jp_operation = ''add'', jp_path = ''/metadata/annotations'', jp_value = PvAny (GMap [(''k'', GStr ''v'')])\<rparr>"

definition example_pod :: "'q pod" where
  "example_pod =
     \<lparr>pod_namespace = ''ns'', pod_name = ''p'', pod_labels = [(''a'', ''True''), (''b'', ''false'')], pod_annotations = [],
      pod_owners = [], pod_volumes = [], pod_containers = [], pod_node_selector = []\<rparr>"

definition two_entries :: "string gomap" where
  "two_entries = injections_text (quoted ''a'' @ '':'' @ example_patch_text @ '','' @ quoted ''b'' @ '':{}'')"

lemma field_names:
  "equal_fold ''op'' ''op''" "equal_fold ''path'' ''path''" "equal_fold ''value'' ''value''"
  "\<not> equal_fold ''path'' ''op''" "\<not> equal_fold ''value'' ''op''" "\<not> equal_fold ''value'' ''path''"
  by code_simp+

lemma example_patch_decodes: "decode_patch_operation example_patch_json p = (example_operation, False)"
  by (simp add: decode_patch_operation_def example_patch_json_def example_operation_def decode_patch_field_def field_names
      overflowing_number_def object_map_def map_put_def)

section \<open>Properties\<close>

text \<open>
  C22: whatever ConfigMaps have been processed, in whatever orders, every stored injection patches
  the pod's annotations, and each label has at most one patch.
\<close>

theorem injections_patch_annotations:
  "\<exists>ui. run_steps (\<lambda>(ord, data) ui. Some (SetUserDefinedInjections ord data ui)) polls
          (CreateUserInjectionsStructure :: 'q user_defined_injections) = Some ui \<and>
     distinct (map fst (ui_patchs ui)) \<and>
     list_all (\<lambda>(k, p). jp_path p = ''/metadata/annotations'') (ui_patchs ui)"
proof -
  obtain ui where "run_steps (\<lambda>(ord, data) ui. Some (SetUserDefinedInjections ord data ui)) polls
      (CreateUserInjectionsStructure :: 'q user_defined_injections) = Some ui" "injections_ok ui"
    using injections.run_total [OF injections_ok_create, of polls] by blast
  then show ?thesis
    by (auto simp: injections_ok_def annotations_path_def wf_map_def map_keys_def list_all_iff)
qed

text \<open>
  C21: where every entry of the ConfigMap sets its own operation, path and value, the stored
  injections are the entries, whatever the order of the loop: an entry that decodes and patches
  the annotations replaces what its label had, a rejected entry leaves what its label had, and a
  label that is no longer named is dropped.
\<close>

theorem set_injections_functional:
  fixes ui :: "'q user_defined_injections"
  assumes "lawful_order ord" "injection_config_of data = Injections injs"
    and "\<forall>(k, j)\<in>set injs. self_contained TYPE('q) j"
  shows "map_get (ui_patchs (SetUserDefinedInjections ord data ui)) k =
    (case map_get injs k of
       None \<Rightarrow> None
     | Some j \<Rightarrow> (case entry_patch j of Some p \<Rightarrow> Some p | None \<Rightarrow> map_get (ui_patchs ui) k))"
  using stored_injections_get [OF assms] .

theorem set_injections_functional_witness:
  "map_get (ui_patchs (SetUserDefinedInjections rev (injections_text (quoted ''a'' @ '':'' @ example_patch_text))
       (CreateUserInjectionsStructure :: 'q user_defined_injections))) ''a'' = Some example_operation"
proof -
  have cfg: "injection_config_of (injections_text (quoted ''a'' @ '':'' @ example_patch_text))
      = Injections [(''a'', example_patch_json)]"
    by code_simp
  have sc: "\<forall>(k, j)\<in>set [(''a'', example_patch_json)]. self_contained TYPE('q) j"
    by (simp add: self_contained_def example_patch_decodes)
  show ?thesis
    using set_injections_functional [OF lawful_order_rev cfg sc, of CreateUserInjectionsStructure "''a''"]
    by (simp add: entry_patch_def example_patch_decodes) (simp add: example_operation_def annotations_path_def)
qed

text \<open>
  C39: the decoded patch is kept in a variable shared by the turns of the loop, so what an entry
  without any of the three fields becomes depends on the order of the loop: visited right after
  an accepted entry that sets its own fields it is stored with the patch of that entry, and
  visited first it is rejected, so that its label keeps what it had.
\<close>

theorem empty_entry_inherits_patch:
  fixes ui :: "'q user_defined_injections"
  assumes "lawful_order ord" "lawful_order ord'" "injection_config_of data = Injections injs"
    "map_range ord injs = pre @ (a, j) # (k, e) # post" "map_range ord' injs = (k, e) # rest"
    "self_contained TYPE('q) j" "entry_patch j = Some p" "names_no_field e"
  shows "map_get (ui_patchs (SetUserDefinedInjections ord data ui)) k = Some p \<and>
     map_get (ui_patchs (SetUserDefinedInjections ord' data ui)) k = map_get (ui_patchs ui) k"
proof -
  have wf: "wf_map injs"
    by (rule wf_injections [OF assms(3)])
  have "map_get injs k \<noteq> None"
    using map_of_map_range [OF assms(2) wf] unfolding assms(5) by (metis map_of_Cons_code(2) option.distinct(1))
  moreover have "map_of (decoded_entries zero_patch_operation (map_range ord injs)) k = Some (Some p)"
    using distinct_map_range [OF assms(1) wf] unfolding assms(4) by (intro entry_after [OF _ assms(6-8)])
  moreover have "map_of (decoded_entries zero_patch_operation (map_range ord' injs)) k =
      Some (None :: 'q json_patch_operation option)"
    by (simp add: assms(5) decode_names_no_field [OF assms(8)] zero_patch_operation_def annotations_path_def)
  ultimately show ?thesis
    by (simp add: stored_injections_decoded [OF assms(1,3)] stored_injections_decoded [OF assms(2,3)])
qed

theorem empty_entry_inherits_patch_witness:
  "map_get (ui_patchs (SetUserDefinedInjections (\<lambda>ks. ks) two_entries (CreateUserInjectionsStructure :: 'q user_defined_injections))) ''b'' =
     Some example_operation \<and>
   map_get (ui_patchs (SetUserDefinedInjections rev two_entries (CreateUserInjectionsStructure :: 'q user_defined_injections))) ''b'' = None"
proof -
  let ?injs = "[(''a'', example_patch_json), (''b'', JObj [])]"
  have cfg: "injection_config_of two_entries = Injections ?injs"
    by code_simp
  have "map_range (\<lambda>ks. ks) ?injs = [] @ (''a'', example_patch_json) # (''b'', JObj []) # []"
    "map_range rev ?injs = (''b'', JObj []) # [(''a'', example_patch_json)]"
    by (simp_all add: map_range_def map_keys_def)
  note range = this
  have "self_contained TYPE('q) example_patch_json" "entry_patch example_patch_json = Some (example_operation :: 'q json_patch_operation)"
    by (simp_all add: self_contained_def entry_patch_def example_patch_decodes example_operation_def annotations_path_def)
  then show ?thesis
    using empty_entry_inherits_patch [OF lawful_order_id lawful_order_rev cfg range, where ?'q = 'q, of example_operation CreateUserInjectionsStructure]
    by (simp add: names_no_field_def CreateUserInjectionsStructure_def)
qed

text \<open>
  C20: for a pod the injections returned are exactly those whose label the pod carries with the
  value true (in any case of its letters), each once, whatever the order of the loop.
\<close>

theorem user_defined_patch_selects:
  assumes "lawful_order ord" "injections_ok ui"
  shows "mset (CreateUserDefinedPatch ord ui pod) =
      mset (map snd (filter (\<lambda>(k, p). label_is_true (pod_labels pod) k) (ui_patchs ui))) \<and>
    (\<forall>p. p \<in> set (CreateUserDefinedPatch ord ui pod) \<longleftrightarrow>
      (\<exists>k v. map_get (ui_patchs ui) k = Some p \<and> map_get (pod_labels pod) k = Some v \<and> to_lower v = ''true''))"
proof (intro conjI allI)
  have wf: "wf_map (ui_patchs ui)"
    using assms(2) by (simp add: injections_ok_def)
  show "mset (CreateUserDefinedPatch ord ui pod) =
      mset (map snd (filter (\<lambda>(k, p). label_is_true (pod_labels pod) k) (ui_patchs ui)))"
    by (simp add: CreateUserDefinedPatch_def mset_filter mset_map_range [OF assms(1) wf])
  show "p \<in> set (CreateUserDefinedPatch ord ui pod) \<longleftrightarrow>
      (\<exists>k v. map_get (ui_patchs ui) k = Some p \<and> map_get (pod_labels pod) k = Some v \<and> to_lower v = ''true'')" for p
    by (rule CreateUserDefinedPatch_mem [OF assms])
qed

theorem user_defined_patch_selects_witness:
  "example_operation \<in> set (CreateUserDefinedPatch rev
     \<lparr>ui_patchs = [(''a'', example_operation), (''b'', zero_patch_operation\<lparr>jp_path := annotations_path\<rparr>)]\<rparr>
     (example_pod :: 'q pod))"
proof -
  let ?ui = "\<lparr>ui_patchs = [(''a'', example_operation), (''b'', zero_patch_operation\<lparr>jp_path := annotations_path\<rparr>)]\<rparr>
    :: 'q user_defined_injections"
  have ok: "injections_ok ?ui"
    by (auto simp: injections_ok_def wf_map_def map_keys_def example_operation_def annotations_path_def split: if_splits)
  have "map_get (ui_patchs ?ui) ''a'' = Some example_operation"
    "map_get (pod_labels (example_pod :: 'q pod)) ''a'' = Some ''True''"
    by (simp_all add: example_pod_def)
  moreover have "to_lower ''True'' = ''true''"
    by code_simp
  ultimately show ?thesis
    using user_defined_patch_selects [OF lawful_order_rev ok, of "example_pod :: 'q pod"] by metis
qed

end
