(* ===== verification/Net_Selection.thy ===== *)
theory Net_Selection
  imports Nad_Cache User_Injections
begin

text \<open>
  pkg/webhook/webhook.go, the networks of a pod: where the selection comes from
  (\<open>getNetworkSelections\<close>), how it is parsed (\<open>parsePodNetworkSelections\<close>), and
  what each selected network asks of the pod (\<open>parseNetworkAttachDefinition\<close>).
  The element type of a selection belongs to another module; how one JSON value is decoded
  into it is a parameter.
\<close>

definition networksAnnotationKey :: string where
  "networksAnnotationKey = ''k8s.v1.cni.cncf.io/networks''"
definition nodeSelectorKey :: string where
  "nodeSelectorKey = ''k8s.v1.cni.cncf.io/nodeSelector''"
definition defaultNetworkAnnotationKey :: string where
  "defaultNetworkAnnotationKey = ''v1.multus-cni.io/default-network''"
definition patchOperationAdd :: string where
  "patchOperationAdd = ''add''"

section \<open>Parsing a selection\<close>

record network_selection =
  ns_namespace :: string
  ns_name :: string
  ns_interface :: string

definition name_char :: "char \<Rightarrow> bool" where
  "name_char c \<longleftrightarrow> in_range 97 122 c \<or> in_range 48 57 c"

text \<open>The regular expression \<open>^[a-z0-9]([-a-z0-9]*[a-z0-9])?$\<close>.\<close>

definition valid_name :: "string \<Rightarrow> bool" where
  "valid_name s \<longleftrightarrow> s \<noteq> [] \<and> name_char (hd s) \<and> name_char (last s) \<and>
     list_all (\<lambda>c. name_char c \<or> c = CHR ''-'') s"

fun first_invalid :: "string list \<Rightarrow> string option" where
  "first_invalid [] = None"
| "first_invalid (u # us) = (if \<not> valid_name u \<and> length u > 0 then Some u else first_invalid us)"

definition split_slash :: "string \<Rightarrow> string \<Rightarrow> error + string \<times> string" where
  "split_slash selection defaultNamespace =
     (case go_split CHR ''/'' selection of
        [n] \<Rightarrow> Inr (defaultNamespace, n)
      | [ns, n] \<Rightarrow> Inr (ns, n)
      | _ \<Rightarrow> Inl (''invalid network selection element - more than one '' @ [CHR 0x27] @ ''/'' @ [CHR 0x27]
               @ '' rune in: '' @ [CHR 0x27] @ selection @ [CHR 0x27]))"

definition split_at_sign :: "string \<Rightarrow> string \<Rightarrow> error + string \<times> string" where
  "split_at_sign selection name =
     (case go_split CHR ''@'' name of
        [n] \<Rightarrow> Inr (n, [])
      | [n, i] \<Rightarrow> Inr (n, i)
      | _ \<Rightarrow> Inl (''invalid network selection element - more than one '' @ [CHR 0x27] @ ''@'' @ [CHR 0x27]
               @ '' rune in: '' @ [CHR 0x27] @ selection @ [CHR 0x27]))"

definition parsePodNetworkSelectionElement :: "string \<Rightarrow> string \<Rightarrow> error + network_selection" where
  "parsePodNetworkSelectionElement selection defaultNamespace =
     (case split_slash selection defaultNamespace of
        Inl err \<Rightarrow> Inl err
      | Inr (namespace, name) \<Rightarrow>
          (case split_at_sign selection name of
             Inl err \<Rightarrow> Inl err
           | Inr (name, netInterface) \<Rightarrow>
               (case first_invalid [namespace, name, netInterface] of
                  Some unit \<Rightarrow>
                    Inl (''at least one of the network selection units is invalid: error found at ''
                         @ [CHR 0x27] @ unit @ [CHR 0x27])
                | None \<Rightarrow>
                    Inr \<lparr>ns_namespace = namespace, ns_name = name, ns_interface = netInterface\<rparr>)))"

text \<open>
  \<open>json.Unmarshal\<close> into the nil slice of pointers: a null element is a nil pointer, a
  type error inside an element is recorded and the decoding goes on, an error of an element's
  own decoding method ends it. The result is the slice and whether there was an error.
\<close>

datatype decode_status = DecodeOk | DecodeTypeError | DecodeAbort

type_synonym selection_decoder = "json \<Rightarrow> network_selection \<times> decode_status"

fun decode_selections :: "selection_decoder \<Rightarrow> json list \<Rightarrow> network_selection option list \<times> bool" where
  "decode_selections dec [] = ([], False)"
| "decode_selections dec (v # vs) =
     (if v = JNull then apfst ((#) None) (decode_selections dec vs)
      else case dec v of
        (e, DecodeOk) \<Rightarrow> apfst ((#) (Some e)) (decode_selections dec vs)
      | (e, DecodeTypeError) \<Rightarrow> (Some e # fst (decode_selections dec vs), True)
      | (e, DecodeAbort) \<Rightarrow> ([Some e], True))"

definition unmarshal_selections :: "selection_decoder \<Rightarrow> string \<Rightarrow> network_selection option list \<times> bool" where
  "unmarshal_selections dec text =
     (case json_parse text of
        None \<Rightarrow> ([], True)
      | Some JNull \<Rightarrow> ([], False)
      | Some (JArr vs) \<Rightarrow> decode_selections dec vs
      | Some _ \<Rightarrow> ([], True))"

text \<open>The comma-separated form; the elements are appended to what the slice holds.\<close>

fun parse_elements :: "string \<Rightarrow> string list \<Rightarrow> network_selection option list \<Rightarrow> error + network_selection option list" where
  "parse_elements defaultNamespace [] acc = Inr acc"
| "parse_elements defaultNamespace (s # ss) acc =
     (case parsePodNetworkSelectionElement (trim_space s) defaultNamespace of
        Inl err \<Rightarrow> Inl (errors_wrap err ''error parsing network selection element'')
      | Inr e \<Rightarrow> parse_elements defaultNamespace ss (acc @ [Some e]))"

text \<open>
  Filling in the namespaces, element by element: a nil element panics; an element without a
  namespace ends the loop with \<open>nil, nil\<close> when there is no default, here
  \<open>Some None\<close>.
\<close>

fun fill_namespaces :: "string \<Rightarrow> network_selection option list \<Rightarrow> network_selection list option option" where
  "fill_namespaces defaultNamespace [] = go_return (Some [])"
| "fill_namespaces defaultNamespace (None # es) = go_panic"
| "fill_namespaces defaultNamespace (Some e # es) =
     (if ns_namespace e = [] then
        (if defaultNamespace = [] then go_return None
         else map_option (map_option ((#) (e\<lparr>ns_namespace := defaultNamespace\<rparr>)))
                (fill_namespaces defaultNamespace es))
      else map_option (map_option ((#) e)) (fill_namespaces defaultNamespace es))"

definition parsePodNetworkSelections ::
  "selection_decoder \<Rightarrow> string \<Rightarrow> string \<Rightarrow> (error + network_selection list) option" where
  "parsePodNetworkSelections dec podNetworks defaultNamespace =
     (if podNetworks = [] then
        go_return (Inl ''empty string passed as network selection elements list'')
      else
        (let (slice, err) = unmarshal_selections dec podNetworks;
             parsed = (if err then parse_elements defaultNamespace (go_split CHR '','' podNetworks) slice
                       else Inr slice)
         in case parsed of
              Inl e \<Rightarrow> go_return (Inl e)
            | Inr networkSelections \<Rightarrow> do {
                filled \<leftarrow> fill_namespaces defaultNamespace networkSelections;
                go_return (Inr (case filled of None \<Rightarrow> [] | Some es \<Rightarrow> es)) }))"

section \<open>Where the selection comes from\<close>

text \<open>
  The type assertions \<open>p.Value.(map[string]interface{})\<close> and \<open>v.(string)\<close> panic
  on a value of another type.
\<close>

definition value_map :: "'q patch_value \<Rightarrow> goval gomap option" where
  "value_map v = (case v of PvAny (GMap m) \<Rightarrow> go_return m | _ \<Rightarrow> go_panic)"

definition value_string :: "goval \<Rightarrow> string option" where
  "value_string v = (case v of GStr s \<Rightarrow> go_return s | _ \<Rightarrow> go_panic)"

fun search_user_defined :: "string \<Rightarrow> 'q json_patch_operation list \<Rightarrow> (string \<times> bool) option" where
  "search_user_defined annotationKey [] = go_return ([], False)"
| "search_user_defined annotationKey (p # ps) =
     (if jp_operation p = patchOperationAdd \<and> jp_path p = annotations_path then do {
        m \<leftarrow> value_map (jp_value p);
        (case map_get m annotationKey of
           Some v \<Rightarrow> do { s \<leftarrow> value_string v; go_return (s, True) }
         | None \<Rightarrow> search_user_defined annotationKey ps) }
      else search_user_defined annotationKey ps)"

definition getNetworkSelections ::
  "string \<Rightarrow> 'q pod \<Rightarrow> 'q json_patch_operation list \<Rightarrow> (string \<times> bool) option" where
  "getNetworkSelections annotationKey pod userDefinedPatch =
     (case map_get (pod_annotations pod) annotationKey of
        Some nets \<Rightarrow> go_return (nets, True)
      | None \<Rightarrow> search_user_defined annotationKey userDefinedPatch)"

section \<open>What a network asks for\<close>

text \<open>
  Where annotations are read from: the cache, and the API server, whose answer is decoded by
  the client library into an object of which only the annotations are used.
\<close>

record nad_source =
  src_cache_get :: "string \<Rightarrow> string \<Rightarrow> annotations"
  src_api_get :: "string \<Rightarrow> error + string"
  src_decode :: "string \<Rightarrow> annotations"

definition getNetworkAttachmentDefinition :: "nad_source \<Rightarrow> string \<Rightarrow> string \<Rightarrow> error + annotations" where
  "getNetworkAttachmentDefinition src namespace name =
     (case src_api_get src (''/apis/k8s.cni.cncf.io/v1/namespaces/'' @ namespace
             @ ''/network-attachment-definitions/'' @ name) of
        Inl err \<Rightarrow> Inl (errors_wrap err (''could not get Network Attachment Definition '' @ namespace @ ''/'' @ name))
      | Inr raw \<Rightarrow> Inr (src_decode src raw))"

definition find_annotations :: "nad_source \<Rightarrow> network_selection \<Rightarrow> error + string gomap" where
  "find_annotations src net =
     (case src_cache_get src (ns_namespace net) (ns_name net) of
        Some annotationsMap \<Rightarrow> Inr annotationsMap
      | None \<Rightarrow>
          (case getNetworkAttachmentDefinition src (ns_namespace net) (ns_name net) of
             Inl err \<Rightarrow>
               Inl (errors_wrap err (''could not find network attachment definition '' @ [CHR 0x27]
                      @ ns_namespace net @ ''/'' @ ns_name net @ [CHR 0x27]))
           | Inr None \<Rightarrow> Inr []
           | Inr (Some annotationsMap) \<Rightarrow> Inr annotationsMap))"

text \<open>\<open>reqs[resourceName]++\<close> on a 64-bit counter.\<close>

definition increment :: "int64 gomap \<Rightarrow> string \<Rightarrow> int64 gomap" where
  "increment reqs r = map_put reqs r (case map_get reqs r of None \<Rightarrow> 1 | Some n \<Rightarrow> n + 1)"

fun add_resources :: "string gomap \<Rightarrow> string list \<Rightarrow> int64 gomap \<Rightarrow> int64 gomap" where
  "add_resources annotationsMap [] reqs = reqs"
| "add_resources annotationsMap (key # keys) reqs =
     (case map_get annotationsMap key of
        Some resourceName \<Rightarrow> add_resources annotationsMap keys (increment reqs resourceName)
      | None \<Rightarrow> add_resources annotationsMap keys reqs)"

definition parseNetworkAttachDefinition ::
  "nad_source \<Rightarrow> string list \<Rightarrow> network_selection \<Rightarrow> int64 gomap \<Rightarrow> string gomap \<Rightarrow>
   int64 gomap \<times> string gomap \<times> error option" where
  "parseNetworkAttachDefinition src resourceNameKeys net reqs nsMap =
     (case find_annotations src net of
        Inl reason \<Rightarrow> (reqs, nsMap, Some reason)
      | Inr annotationsMap \<Rightarrow>
          (let reqs = add_resources annotationsMap resourceNameKeys reqs in
           case map_get annotationsMap nodeSelectorKey of
             None \<Rightarrow> (reqs, nsMap, None)
           | Some ns \<Rightarrow>
               (case go_split CHR ''='' ns of
                  [n, v] \<Rightarrow> (reqs, map_put nsMap (trim_space n) (trim_space v), None)
                | [_] \<Rightarrow> (reqs, map_put nsMap (trim_space ns) [], None)
                | _ \<Rightarrow> (reqs, nsMap, Some (''node selector in net-attach-def '' @ ns_name net
                                            @ '' has more than one label'')))))"

text \<open>The loop of the handler over the networks of an annotation.\<close>

fun parse_networks ::
  "nad_source \<Rightarrow> string list \<Rightarrow> network_selection list \<Rightarrow> int64 gomap \<Rightarrow> string gomap \<Rightarrow>
   int64 gomap \<times> string gomap \<times> error option" where
  "parse_networks src keys [] reqs nsMap = (reqs, nsMap, None)"
| "parse_networks src keys (n # ns) reqs nsMap =
     (case parseNetworkAttachDefinition src keys n reqs nsMap of
        (reqs, nsMap, Some err) \<Rightarrow> (reqs, nsMap, Some err)
      | (reqs, nsMap, None) \<Rightarrow> parse_networks src keys ns reqs nsMap)"

section \<open>Library\<close>

definition unit_ok :: "string \<Rightarrow> bool" where
  "unit_ok u \<longleftrightarrow> u = [] \<or> valid_name u"

lemma first_invalid_None: "first_invalid us = None \<longleftrightarrow> (\<forall>u\<in>set us. unit_ok u)"
  by (induction us) (auto simp: unit_ok_def)

lemma unit_ok_Nil [simp]: "unit_ok []"
  by (simp add: unit_ok_def)

lemma unit_chars: "unit_ok u \<Longrightarrow> c \<in> set u \<Longrightarrow> name_char c \<or> c = CHR ''-''"
  by (auto simp: unit_ok_def valid_name_def list_all_iff)

lemma special_chars:
  "\<not> name_char CHR ''/''" "\<not> name_char CHR ''@''" "\<not> name_char CHR '',''" "\<not> name_char CHR ''[''"
  by (simp_all add: name_char_def in_range_def byte_def)

lemma unit_no_special:
  "unit_ok u \<Longrightarrow> CHR ''/'' \<notin> set u \<and> CHR ''@'' \<notin> set u \<and> CHR '','' \<notin> set u \<and> CHR ''['' \<notin> set u"
  using unit_chars special_chars by fastforce

lemma plain_name_char: "name_char c \<Longrightarrow> plain c"
  by (auto simp: name_char_def plain_def in_range_def)

lemma plain_unit: "unit_ok u \<Longrightarrow> c \<in> set u \<Longrightarrow> plain c"
  using unit_chars [of u c] plain_name_char by (auto simp: plain_def byte_def)

text \<open>The grammar: an optional namespace and an optional interface around the name.\<close>

definition selection_text :: "string option \<Rightarrow> string \<Rightarrow> string option \<Rightarrow> string" where
  "selection_text ns n i =
     (case ns of None \<Rightarrow> [] | Some x \<Rightarrow> x @ ''/'') @ n @ (case i of None \<Rightarrow> [] | Some x \<Rightarrow> ''@'' @ x)"

definition selection_of :: "string \<Rightarrow> string option \<Rightarrow> string \<Rightarrow> string option \<Rightarrow> network_selection" where
  "selection_of def ns n i =
     \<lparr>ns_namespace = (case ns of None \<Rightarrow> def | Some x \<Rightarrow> x), ns_name = n,
      ns_interface = (case i of None \<Rightarrow> [] | Some x \<Rightarrow> x)\<rparr>"

definition selection_ok :: "network_selection \<Rightarrow> bool" where
  "selection_ok e \<longleftrightarrow> unit_ok (ns_namespace e) \<and> unit_ok (ns_name e) \<and> unit_ok (ns_interface e)"

lemma split_slash_Inr:
  "split_slash s def = Inr (ns, n) \<Longrightarrow> (ns = def \<and> s = n) \<or> s = ns @ ''/'' @ n"
  by (auto simp: split_slash_def split: list.splits dest: go_split_one go_split_two)

lemma split_at_sign_Inr:
  "split_at_sign s nm = Inr (n, i) \<Longrightarrow> (i = [] \<and> nm = n) \<or> nm = n @ ''@'' @ i"
  by (auto simp: split_at_sign_def split: list.splits dest: go_split_one go_split_two)

lemma parse_element_sound:
  assumes "parsePodNetworkSelectionElement s def = Inr e"
  shows "\<exists>ns i. s = selection_text ns (ns_name e) i \<and> e = selection_of def ns (ns_name e) i \<and> selection_ok e"
proof -
  obtain ns nm n i where 1: "split_slash s def = Inr (ns, nm)" "split_at_sign s nm = Inr (n, i)"
    "first_invalid [ns, n, i] = None" "e = \<lparr>ns_namespace = ns, ns_name = n, ns_interface = i\<rparr>"
    using assms by (auto simp: parsePodNetworkSelectionElement_def split: sum.splits option.splits)
  have ok: "selection_ok e"
    using 1(3,4) unfolding first_invalid_None by (simp add: selection_ok_def)
  obtain no where no: "s = (case no of None \<Rightarrow> [] | Some x \<Rightarrow> x @ ''/'') @ nm" "ns = (case no of None \<Rightarrow> def | Some x \<Rightarrow> x)"
    using split_slash_Inr [OF 1(1)] by (metis append.assoc append_Nil option.simps(4,5))
  obtain io where io: "nm = n @ (case io of None \<Rightarrow> [] | Some x \<Rightarrow> ''@'' @ x)" "i = (case io of None \<Rightarrow> [] | Some x \<Rightarrow> x)"
    using split_at_sign_Inr [OF 1(2)] by (metis append_Nil2 option.simps(4,5))
  show ?thesis
    by (rule exI [of _ no], rule exI [of _ io]) (use 1(4) ok no io in \<open>simp add: selection_text_def selection_of_def\<close>)
qed

lemma parse_element_complete:
  assumes "selection_ok (selection_of def ns n i)"
  shows "parsePodNetworkSelectionElement (selection_text ns n i) def = Inr (selection_of def ns n i)"
proof -
  let ?nm = "n @ (case i of None \<Rightarrow> [] | Some x \<Rightarrow> ''@'' @ x)"
  have n: "CHR ''/'' \<notin> set n" "CHR ''@'' \<notin> set n"
    and i: "\<And>x. i = Some x \<Longrightarrow> CHR ''/'' \<notin> set x \<and> CHR ''@'' \<notin> set x"
    and ns: "\<And>x. ns = Some x \<Longrightarrow> CHR ''/'' \<notin> set x"
    using assms unit_no_special by (auto simp: selection_ok_def selection_of_def)
  have "CHR ''/'' \<notin> set ?nm"
    using n i by (auto split: option.splits)
  then have 1: "split_slash (selection_text ns n i) def = Inr (case ns of None \<Rightarrow> def | Some x \<Rightarrow> x, ?nm)"
    using ns by (auto simp: split_slash_def selection_text_def go_split_no_sep go_split_append_sep split: option.splits)
  have 2: "split_at_sign s ?nm = Inr (n, case i of None \<Rightarrow> [] | Some x \<Rightarrow> x)" for s
    using n i by (auto simp: split_at_sign_def go_split_no_sep go_split_append_sep split: option.splits)
  have 3: "first_invalid [case ns of None \<Rightarrow> def | Some x \<Rightarrow> x, n, case i of None \<Rightarrow> [] | Some x \<Rightarrow> x] = None"
    unfolding first_invalid_None using assms by (simp add: selection_ok_def selection_of_def)
  show ?thesis
    unfolding parsePodNetworkSelectionElement_def using 1 2 3 by (simp add: selection_of_def)
qed

lemma parse_element_no_bracket:
  assumes "CHR ''['' \<in> set s"
  shows "\<exists>err. parsePodNetworkSelectionElement s def = Inl err"
proof (cases "parsePodNetworkSelectionElement s def")
  case (Inr e)
  then obtain ns i where s: "s = selection_text ns (ns_name e) i" and e: "e = selection_of def ns (ns_name e) i"
    and ok: "selection_ok e"
    using parse_element_sound by blast
  have "CHR ''['' \<notin> set (ns_name e)" "\<And>x. ns = Some x \<Longrightarrow> CHR ''['' \<notin> set x" "\<And>x. i = Some x \<Longrightarrow> CHR ''['' \<notin> set x"
    using ok e unit_no_special unfolding selection_ok_def selection_of_def
    by (metis network_selection.select_convs option.simps(5))+
  then have "CHR ''['' \<notin> set s"
    unfolding s by (auto simp: selection_text_def split: option.splits)
  with assms show ?thesis by simp
qed simp

subsection \<open>JSON or not\<close>

text \<open>A text that starts with a letter or a digit is never a JSON array, and null only as such.\<close>

lemma skip_ws_plain: "plain c \<Longrightarrow> skip_ws (c # s) = c # s"
  by (auto simp: skip_ws_def is_json_ws_def plain_def)

lemma expect_Some: "expect w x t = Some (v, r) \<Longrightarrow> v = x \<and> t = w @ r"
  by (auto simp: expect_def split: if_splits) (metis append_take_drop_id)

text \<open>The first byte of a list in the comma-separated form opens no JSON string, array or object.\<close>

definition list_start :: "char \<Rightarrow> bool" where
  "list_start c \<longleftrightarrow> plain c \<and> c \<noteq> CHR 0x22 \<and> c \<noteq> CHR ''['' \<and> c \<noteq> CHR ''{''"

lemma unmarshal_list:
  assumes "list_start c" "\<And>w. c # s = ''null'' @ w \<Longrightarrow> skip_ws w \<noteq> []"
  shows "unmarshal_selections dec (c # s) = ([], True)"
proof -
  have c: "c \<noteq> CHR 0x22" "c \<noteq> CHR ''[''" "c \<noteq> CHR ''{''"
    using assms(1) by (auto simp: list_start_def)
  have ws: "skip_ws (c # s) = c # s"
    using assms(1) skip_ws_plain unfolding list_start_def by blast
  have val: "v = JNull \<and> c # s = ''null'' @ r \<or> (\<exists>b. v = JBool b) \<or> (\<exists>t. v = JNum t)"
    if "parse_value (Suc f) 0 (c # s) = Some (v, r)" for f v r
  proof -
    have "(if c = CHR ''n'' then expect ''null'' JNull (c # s)
        else if c = CHR ''t'' then expect ''true'' (JBool True) (c # s)
        else if c = CHR ''f'' then expect ''false'' (JBool False) (c # s)
        else map_option (map_prod JNum id) (parse_number (c # s))) = Some (v, r)"
      using that c by (simp add: ws)
    then show ?thesis
      by (auto dest!: expect_Some split: if_splits)
  qed
  have "json_parse (c # s) = None \<or> (\<exists>b. json_parse (c # s) = Some (JBool b)) \<or> (\<exists>t. json_parse (c # s) = Some (JNum t))"
  proof (cases "parse_value (2 * length (c # s) + 2) 0 (c # s)")
    case (Some p)
    obtain v r where p: "p = (v, r)" by (cases p)
    then show ?thesis
      using Some val [of "2 * length (c # s) + 1" v r] assms(2) [of r] by (auto simp: json_parse_def)
  qed (simp add: json_parse_def)
  then show ?thesis
    by (auto simp: unmarshal_selections_def)
qed

text \<open>Only an array makes the decoder fill the slice, and its text has a bracket.\<close>

lemma json_array_bracket: "json_parse s = Some (JArr vs) \<Longrightarrow> CHR ''['' \<in> set s"
proof -
  assume "json_parse s = Some (JArr vs)"
  then obtain r where "parse_value (Suc (2 * length s + 1)) 0 s = Some (JArr vs, r)"
    by (auto simp: json_parse_def split: option.splits prod.splits if_splits)
  then obtain t where "skip_ws s = CHR ''['' # t"
    by (auto split: list.splits if_splits dest!: expect_Some)
  then show ?thesis
    by (metis list.set_intros(1) set_dropWhileD skip_ws_def)
qed

lemma unmarshal_slice: "unmarshal_selections dec s = (es, True) \<Longrightarrow> es = [] \<or> CHR ''['' \<in> set s"
  by (auto simp: unmarshal_selections_def split: option.splits json.splits dest: json_array_bracket)

lemma parse_elements_Inr:
  "parse_elements def ss acc = Inr es \<longleftrightarrow>
   (\<exists>es'. es = acc @ map Some es' \<and> list_all2 (\<lambda>s e. parsePodNetworkSelectionElement (trim_space s) def = Inr e) ss es')"
proof (induction ss arbitrary: acc)
  case (Cons s ss)
  show ?case
  proof (cases "parsePodNetworkSelectionElement (trim_space s) def")
    case (Inr e)
    have "(\<exists>es'. es = acc @ map Some es' \<and> (\<exists>zs. es' = e # zs \<and> Q zs)) \<longleftrightarrow>
        (\<exists>zs. es = acc @ Some e # map Some zs \<and> Q zs)" for Q
      by (metis list.map(2))
    then show ?thesis
      using Inr Cons.IH [of "acc @ [Some e]"] by (simp add: list_all2_Cons1)
  qed (simp add: list_all2_Cons1)
qed auto

lemma parse_elements_bracket:
  assumes "CHR ''['' \<in> set s"
  shows "parse_elements def (go_split CHR '','' s) acc \<noteq> Inr es"
proof
  assume "parse_elements def (go_split CHR '','' s) acc = Inr es"
  then obtain es' where es': "list_all2 (\<lambda>s e. parsePodNetworkSelectionElement (trim_space s) def = Inr e) (go_split CHR '','' s) es'"
    unfolding parse_elements_Inr by blast
  obtain p where "p \<in> set (go_split CHR '','' s)" "CHR ''['' \<in> set p"
    using set_go_join [of "CHR ''[''" "'',''" "go_split CHR '','' s"] assms by (auto simp: go_join_split)
  moreover from this have "CHR ''['' \<in> set (trim_space p)"
    by (intro trim_space_keeps) (simp_all add: plain_def byte_def)
  ultimately show False
    using es' parse_element_no_bracket unfolding list_all2_conv_all_nth
    by (metis Inl_Inr_False in_set_conv_nth)
qed

subsection \<open>Default namespaces\<close>

definition with_default :: "string \<Rightarrow> network_selection \<Rightarrow> network_selection" where
  "with_default def e = (if ns_namespace e = [] then e\<lparr>ns_namespace := def\<rparr> else e)"

text \<open>Without a default, one network without a namespace drops all of them.\<close>

definition defaulted :: "string \<Rightarrow> network_selection list \<Rightarrow> network_selection list" where
  "defaulted def es =
     (if def = [] \<and> (\<exists>e\<in>set es. ns_namespace e = []) then [] else map (with_default def) es)"

lemma fill_namespaces_Some:
  "fill_namespaces def (map Some es) =
     Some (if def = [] \<and> (\<exists>e\<in>set es. ns_namespace e = []) then None else Some (map (with_default def) es))"
  by (induction es) (auto simp: with_default_def)

lemma fill_namespaces_result:
  "fill_namespaces def es = Some res \<Longrightarrow> res = None \<or> (\<exists>es'. es = map Some es')"
proof (induction def es arbitrary: res rule: fill_namespaces.induct)
  case (3 def e es)
  then show ?case
    by (fastforce simp: Cons_eq_map_conv split: if_splits)
qed auto

lemma fill_namespaces_map_Some:
  "fill_namespaces def (map Some es) = Some filled \<Longrightarrow> (case filled of None \<Rightarrow> [] | Some es \<Rightarrow> es) = defaulted def es"
  by (auto simp: fill_namespaces_Some defaulted_def)

text \<open>The networks of a text in the comma-separated form, before the defaults.\<close>

definition comma_list :: "string \<Rightarrow> string \<Rightarrow> network_selection list \<Rightarrow> bool" where
  "comma_list def text es \<longleftrightarrow>
     list_all2 (\<lambda>s e. parsePodNetworkSelectionElement (trim_space s) def = Inr e) (go_split CHR '','' text) es"

lemma parse_selections_comma:
  assumes "text \<noteq> []" "snd (unmarshal_selections dec text)"
  shows "parsePodNetworkSelections dec text def = Some (Inr es) \<longleftrightarrow>
         (\<exists>es0. comma_list def text es0 \<and> es = defaulted def es0)"
proof (cases "CHR ''['' \<in> set text")
  case True
  obtain slice where slice: "unmarshal_selections dec text = (slice, True)"
    using assms(2) by (metis prod.collapse)
  obtain err where "parse_elements def (go_split CHR '','' text) slice = Inl err"
    using parse_elements_bracket [OF True, of def slice] by (metis sum.exhaust)
  moreover have "\<not> comma_list def text es0" for es0
    using parse_elements_bracket [OF True, of def "[]" "map Some es0"]
    by (auto simp: comma_list_def parse_elements_Inr)
  ultimately show ?thesis
    using assms(1) slice by (simp add: parsePodNetworkSelections_def)
next
  case False
  then have u: "unmarshal_selections dec text = ([], True)"
    using assms(2) unmarshal_slice [of dec "text"] by (metis prod.collapse)
  show ?thesis
  proof (cases "parse_elements def (go_split CHR '','' text) []")
    case (Inl err)
    then have "\<not> comma_list def text es0" for es0
      using parse_elements_Inr [of def "go_split CHR '','' text" "[]" "map Some es0"] by (auto simp: comma_list_def)
    then show ?thesis
      using assms(1) u Inl by (simp add: parsePodNetworkSelections_def)
  next
    case (Inr els)
    then obtain es0 where es0: "els = map Some es0" "comma_list def text es0"
      unfolding parse_elements_Inr comma_list_def by auto
    have "comma_list def text es1 \<longleftrightarrow> es1 = es0" for es1
      using es0(2) unfolding comma_list_def list_all2_conv_all_nth by (auto intro!: nth_equalityI)
    then show ?thesis
      using assms(1) u Inr es0(1)
      by (auto simp: parsePodNetworkSelections_def fill_namespaces_Some defaulted_def)
  qed
qed

lemma parse_selections_filled:
  assumes "parsePodNetworkSelections dec str def = Some (Inr es)"
  shows "\<exists>slice filled. fill_namespaces def slice = Some filled \<and> es = (case filled of None \<Rightarrow> [] | Some es \<Rightarrow> es)"
proof -
  obtain slice err where u: "unmarshal_selections dec str = (slice, err)"
    by (cases "unmarshal_selections dec str")
  have "str \<noteq> []"
    using assms by (auto simp: parsePodNetworkSelections_def)
  then obtain slice where "map_option (\<lambda>filled. Inr (case filled of None \<Rightarrow> [] | Some es \<Rightarrow> es))
      (fill_namespaces def slice) = Some (Inr es :: error + network_selection list)"
    using assms u
    by (cases "if err then parse_elements def (go_split CHR '','' str) slice else Inr slice")
      (simp_all add: parsePodNetworkSelections_def map_conv_bind_option comp_def del: not_None_eq)
  then show ?thesis by auto
qed

subsection \<open>A list of networks as text\<close>

type_synonym selection_parts = "string option \<times> string \<times> string option"

definition parts_text :: "selection_parts \<Rightarrow> string" where
  "parts_text p = (case p of (ns, n, i) \<Rightarrow> selection_text ns n i)"

definition parts_selection :: "string \<Rightarrow> selection_parts \<Rightarrow> network_selection" where
  "parts_selection def p = (case p of (ns, n, i) \<Rightarrow> selection_of def ns n i)"

definition parts_ok :: "string \<Rightarrow> selection_parts \<Rightarrow> bool" where
  "parts_ok def p \<longleftrightarrow> selection_ok (parts_selection def p)"

text \<open>The networks separated by a comma and any number of blanks.\<close>

definition list_text :: "nat \<Rightarrow> selection_parts list \<Rightarrow> string" where
  "list_text k ps = go_join (CHR '','' # replicate k CHR '' '') (map parts_text ps)"

lemma parts_text_chars:
  assumes "parts_ok def p" "c \<in> set (parts_text p)"
  shows "name_char c \<or> c \<in> {CHR ''-'', CHR ''/'', CHR ''@''}"
proof -
  obtain ns n i where p: "p = (ns, n, i)" by (cases p) auto
  have "unit_ok n" "\<And>x. ns = Some x \<Longrightarrow> unit_ok x" "\<And>x. i = Some x \<Longrightarrow> unit_ok x"
    using assms(1) by (auto simp: p parts_ok_def parts_selection_def selection_ok_def selection_of_def)
  then show ?thesis
    using assms(2) unit_chars by (auto simp: p parts_text_def selection_text_def split: option.splits)
qed

lemma parts_text_plain:
  assumes "parts_ok def p"
  shows "\<forall>c\<in>set (parts_text p). plain c" "CHR '','' \<notin> set (parts_text p)"
    "\<forall>c\<in>set (parts_text p). list_start c"
proof -
  show "CHR '','' \<notin> set (parts_text p)"
    using parts_text_chars [OF assms] special_chars by fastforce
  have "list_start c" if "name_char c \<or> c \<in> {CHR ''-'', CHR ''/'', CHR ''@''}" for c
    using that by (auto simp: list_start_def plain_def name_char_def in_range_def byte_def)
  then show "\<forall>c\<in>set (parts_text p). list_start c"
    using parts_text_chars [OF assms] by blast
  then show "\<forall>c\<in>set (parts_text p). plain c"
    by (simp add: list_start_def)
qed

lemma parts_text_parses:
  "parts_ok def p \<Longrightarrow>
   parsePodNetworkSelectionElement (trim_space (replicate k CHR '' '' @ parts_text p)) def = Inr (parts_selection def p)"
  unfolding trim_space_blanks [OF parts_text_plain(1)]
  by (cases p) (simp add: parts_text_def parts_ok_def parts_selection_def parse_element_complete)

lemma split_list_text:
  assumes "list_all (parts_ok def) (p # ps)"
  shows "go_split CHR '','' (list_text k (p # ps)) =
         parts_text p # map (\<lambda>p. replicate k CHR '' '' @ parts_text p) ps"
proof -
  have no: "CHR '','' \<notin> set (parts_text x)" if "x \<in> set (p # ps)" for x
    using parts_text_plain(2) that assms by (metis list_all_iff)
  have "list_text k (p # ps) = go_join '','' (parts_text p # map (\<lambda>p. replicate k CHR '' '' @ parts_text p) ps)"
    unfolding list_text_def list.map(2) by (subst go_join_padded) (simp add: comp_def)
  moreover have "\<forall>x\<in>set (parts_text p # map (\<lambda>p. replicate k CHR '' '' @ parts_text p) ps). CHR '','' \<notin> set x"
    using no by (auto simp del: split_paired_All)
  ultimately show ?thesis
    by (simp add: go_split_join)
qed

lemma comma_list_text:
  assumes "list_all (parts_ok def) (p # ps)"
  shows "comma_list def (list_text k (p # ps)) (map (parts_selection def) (p # ps))"
proof -
  have "parsePodNetworkSelectionElement (trim_space (parts_text p)) def = Inr (parts_selection def p)"
    using parts_text_parses [of def p 0] assms by simp
  then show ?thesis
    using assms parts_text_parses [of def _ k]
    unfolding comma_list_def split_list_text [OF assms]
    by (simp add: list_all2_map1 list_all2_map2 list.rel_refl_strong list_all_iff split_paired_all)
qed

lemma comma_no_ws: "\<not> is_json_ws CHR '',''" "list_start CHR '',''"
  by (simp_all add: is_json_ws_def list_start_def plain_def byte_def)

lemma unmarshal_list_text:
  assumes "list_all (parts_ok def) (p # ps)" "list_text k (p # ps) \<notin> {[], ''null''}"
  shows "unmarshal_selections dec (list_text k (p # ps)) = ([], True)"
proof (cases ps)
  case Nil
  then have t: "list_text k (p # ps) = parts_text p"
    by (simp add: list_text_def)
  then obtain c s where cs: "parts_text p = c # s"
    using assms(2) by (cases "parts_text p") auto
  have "list_start c" "\<forall>x\<in>set (parts_text p). plain x"
    using assms(1) parts_text_plain(1,3) [of def p] cs by auto
  moreover have "skip_ws w \<noteq> []" if "c # s = ''null'' @ w" for w
  proof -
    have "w \<noteq> []" using that assms(2) t cs by auto
    moreover have "\<forall>x\<in>set w. plain x"
      using that cs \<open>\<forall>x\<in>set (parts_text p). plain x\<close> by auto
    ultimately show ?thesis
      using skip_ws_plain by (cases w) auto
  qed
  ultimately show ?thesis
    using unmarshal_list [of c s dec] t cs by simp
next
  case (Cons q qs)
  then obtain u where t: "list_text k (p # ps) = parts_text p @ CHR '','' # u"
    by (simp add: list_text_def)
  then obtain c s where cs: "list_text k (p # ps) = c # s" "c \<in> set (parts_text p) \<or> c = CHR '',''"
    by (cases "parts_text p") auto
  then have "list_start c"
    using assms(1) parts_text_plain(3) [of def p] comma_no_ws(2) by auto
  moreover have "skip_ws w \<noteq> []" if "c # s = ''null'' @ w" for w
  proof -
    have "CHR '','' \<in> set (''null'' @ w)" using that t cs by (metis in_set_conv_decomp)
    then have "CHR '','' \<in> set w" by simp
    then show ?thesis
      unfolding skip_ws_def dropWhile_eq_Nil_conv using comma_no_ws by blast
  qed
  ultimately show ?thesis
    using unmarshal_list [of c s dec] cs(1) by simp
qed

subsection \<open>Counting resources\<close>

text \<open>
  What one network adds, on its annotations: a resource per resource-name key it carries, and
  a label when it has a node selector.
\<close>

definition requests_of :: "string list \<Rightarrow> string gomap \<Rightarrow> string list" where
  "requests_of keys m = concat (map (\<lambda>k. case map_get m k of None \<Rightarrow> [] | Some r \<Rightarrow> [r]) keys)"

definition selector_ok :: "string gomap \<Rightarrow> bool" where
  "selector_ok m \<longleftrightarrow> (case map_get m nodeSelectorKey of None \<Rightarrow> True | Some ns \<Rightarrow> count_list ns CHR ''='' \<le> 1)"

definition labels_of :: "string gomap \<Rightarrow> (string \<times> string) list" where
  "labels_of m =
     (case map_get m nodeSelectorKey of
        None \<Rightarrow> []
      | Some ns \<Rightarrow>
          (case go_split CHR ''='' ns of
             [n, v] \<Rightarrow> [(trim_space n, trim_space v)]
           | _ \<Rightarrow> [(trim_space ns, [])]))"

definition network_ok :: "nad_source \<Rightarrow> network_selection \<Rightarrow> bool" where
  "network_ok src n \<longleftrightarrow> (case find_annotations src n of Inl err \<Rightarrow> False | Inr m \<Rightarrow> selector_ok m)"

definition network_annotations :: "nad_source \<Rightarrow> network_selection \<Rightarrow> string gomap" where
  "network_annotations src n = (case find_annotations src n of Inl err \<Rightarrow> [] | Inr m \<Rightarrow> m)"

text \<open>A counter of a resource: absent until the first request, then the number of requests.\<close>

definition counter :: "string list \<Rightarrow> string \<Rightarrow> int64 option" where
  "counter rs r = (if r \<in> set rs then Some (of_nat (count_list rs r)) else None)"

definition counts :: "string list \<Rightarrow> int64 gomap \<Rightarrow> bool" where
  "counts rs reqs \<longleftrightarrow> wf_map reqs \<and> (\<forall>r. map_get reqs r = counter rs r)"

lemma counter_snoc: "counter (rs @ [x]) r = (if r = x then Some (case counter rs r of None \<Rightarrow> 1 | Some n \<Rightarrow> n + 1) else counter rs r)"
  by (auto simp: counter_def count_notin)

lemma counts_increment: "counts rs reqs \<Longrightarrow> counts (rs @ [r]) (increment reqs r)"
  by (auto simp: counts_def increment_def counter_snoc map_get_put wf_map_put)

lemma counts_add_resources:
  "counts rs reqs \<Longrightarrow> counts (rs @ requests_of keys m) (add_resources m keys reqs)"
proof (induction keys arbitrary: rs reqs)
  case (Cons k keys)
  show ?case
  proof (cases "map_get m k")
    case (Some r)
    with Cons.IH [OF counts_increment [OF Cons.prems, of r]] show ?thesis
      by (simp add: requests_of_def)
  qed (use Cons in \<open>simp add: requests_of_def\<close>)
qed (simp add: requests_of_def)

lemma parse_definition_cases:
  "parseNetworkAttachDefinition src keys n reqs nsMap =
     (case find_annotations src n of
        Inl err \<Rightarrow> (reqs, nsMap, Some err)
      | Inr m \<Rightarrow>
          (add_resources m keys reqs,
           if selector_ok m then foldl (\<lambda>s (l, v). map_put s l v) nsMap (labels_of m) else nsMap,
           if selector_ok m then None
           else Some (''node selector in net-attach-def '' @ ns_name n @ '' has more than one label'')))"
proof (cases "find_annotations src n")
  case (Inr m)
  show ?thesis
  proof (cases "map_get m nodeSelectorKey")
    case (Some ns)
    have len: "length (go_split CHR ''='' ns) = Suc (count_list ns CHR ''='')"
      by (rule length_go_split)
    consider p where "go_split CHR ''='' ns = [p]" | p q where "go_split CHR ''='' ns = [p, q]"
      | p q r ps where "go_split CHR ''='' ns = p # q # r # ps"
      by (metis go_split_not_Nil list.exhaust)
    then show ?thesis
      using len Inr Some
      by cases (simp_all add: parseNetworkAttachDefinition_def selector_ok_def labels_of_def)
  qed (use Inr in \<open>simp add: parseNetworkAttachDefinition_def selector_ok_def labels_of_def\<close>)
qed (simp add: parseNetworkAttachDefinition_def)

lemma parse_networks_append:
  "parse_networks src keys (xs @ ys) reqs nsMap =
     (case parse_networks src keys xs reqs nsMap of
        (reqs, nsMap, None) \<Rightarrow> parse_networks src keys ys reqs nsMap
      | (reqs, nsMap, Some err) \<Rightarrow> (reqs, nsMap, Some err))"
  by (induction xs arbitrary: reqs nsMap) (auto split: prod.splits option.splits)

lemma parse_networks_cases:
  "counts rs reqs \<Longrightarrow> parse_networks src keys nets reqs nsMap = (reqs', nsMap', err) \<Longrightarrow>
   (err = None \<longleftrightarrow> list_all (network_ok src) nets) \<and>
   (err = None \<longrightarrow>
      counts (rs @ concat (map (\<lambda>n. requests_of keys (network_annotations src n)) nets)) reqs' \<and>
      nsMap' = foldl (\<lambda>s (l, v). map_put s l v) nsMap
                 (concat (map (\<lambda>n. labels_of (network_annotations src n)) nets)))"
proof (induction nets arbitrary: rs reqs nsMap)
  case (Cons n nets)
  show ?case
  proof (cases "network_ok src n")
    case True
    then obtain m where m: "find_annotations src n = Inr m" "selector_ok m"
      by (auto simp: network_ok_def split: sum.splits)
    have "parse_networks src keys nets (add_resources m keys reqs)
        (foldl (\<lambda>s (l, v). map_put s l v) nsMap (labels_of m)) = (reqs', nsMap', err)"
      using Cons.prems(2) m by (simp add: parse_definition_cases)
    from Cons.IH [OF counts_add_resources [OF Cons.prems(1)] this] show ?thesis
      using True m by (simp add: network_annotations_def)
  next
    case False
    then have "err \<noteq> None"
      using Cons.prems(2) by (auto simp: parse_definition_cases network_ok_def split: sum.splits)
    with False show ?thesis by auto
  qed
qed (auto simp: counts_def)

lemma counts_Nil: "counts [] []"
  by (simp add: counts_def counter_def)

subsection \<open>When the parsing panics\<close>

lemma fill_namespaces_None:
  "fill_namespaces def es = None \<longleftrightarrow>
   (\<exists>pre post. es = map Some pre @ None # post \<and> (def = [] \<longrightarrow> list_all (\<lambda>e. ns_namespace e \<noteq> []) pre))"
proof (induction def es rule: fill_namespaces.induct)
  case (2 def es)
  then show ?case
    by (auto intro: exI [of _ "[]"])
next
  case (3 def e es)
  have "(\<exists>pre post. Some e # es = map Some pre @ None # post \<and> P pre) \<longleftrightarrow>
      (\<exists>pre post. es = map Some pre @ None # post \<and> P (e # pre))" for P
  proof
    assume "\<exists>pre post. Some e # es = map Some pre @ None # post \<and> P pre"
    then obtain pre post where "Some e # es = map Some pre @ None # post" "P pre" by blast
    then show "\<exists>pre post. es = map Some pre @ None # post \<and> P (e # pre)"
      by (cases pre) auto
  next
    assume "\<exists>pre post. es = map Some pre @ None # post \<and> P (e # pre)"
    then show "\<exists>pre post. Some e # es = map Some pre @ None # post \<and> P pre"
      by (metis append_Cons list.simps(9))
  qed
  then show ?case
    using 3 by auto
qed auto

definition decodes :: "selection_decoder \<Rightarrow> json \<Rightarrow> bool" where
  "decodes dec v \<longleftrightarrow> v = JNull \<or> snd (dec v) = DecodeOk"

lemma decode_selections_result:
  "snd (decode_selections dec vs) = (\<not> list_all (decodes dec) vs) \<and>
   (list_all (decodes dec) vs \<longrightarrow>
      fst (decode_selections dec vs) = map (\<lambda>v. if v = JNull then None else Some (fst (dec v))) vs)"
proof (induction vs)
  case (Cons v vs)
  then show ?case
    by (cases "dec v"; cases "snd (dec v)") (auto simp: decodes_def apfst_def map_prod_def split: prod.splits)
qed simp

lemma decode_selections_ok:
  "decode_selections dec vs = (sl, False) \<longleftrightarrow>
   list_all (decodes dec) vs \<and> sl = map (\<lambda>v. if v = JNull then None else Some (fst (dec v))) vs"
  using decode_selections_result [of dec vs] by (cases "decode_selections dec vs") auto

lemma unmarshal_selections_ok:
  "unmarshal_selections dec text = (sl, False) \<longleftrightarrow>
   json_parse text = Some JNull \<and> sl = [] \<or>
   (\<exists>vs. json_parse text = Some (JArr vs) \<and> decode_selections dec vs = (sl, False))"
  by (auto simp: unmarshal_selections_def split: option.splits json.splits)

lemma parse_selections_None:
  "parsePodNetworkSelections dec text def = None \<longleftrightarrow>
   (\<exists>sl. unmarshal_selections dec text = (sl, False) \<and> fill_namespaces def sl = None)"
proof (cases "text = []")
  case True
  have "json_parse [] = None"
    by (simp add: json_parse_def skip_ws_def)
  with True show ?thesis
    by (simp add: parsePodNetworkSelections_def unmarshal_selections_def)
next
  case False
  obtain sl err where u: "unmarshal_selections dec text = (sl, err)"
    by (cases "unmarshal_selections dec text")
  have "parsePodNetworkSelections dec text def \<noteq> None" if err
  proof (cases "parse_elements def (go_split CHR '','' text) sl")
    case (Inr els)
    then have "sl = []"
      using unmarshal_slice [of dec "text" sl] u that parse_elements_bracket [of "text" def sl els] by auto
    then obtain es where "els = map Some es"
      using Inr unfolding parse_elements_Inr by auto
    then show ?thesis
      using False u that Inr by (simp add: parsePodNetworkSelections_def fill_namespaces_Some)
  qed (use False u that in \<open>simp add: parsePodNetworkSelections_def\<close>)
  moreover have "parsePodNetworkSelections dec text def = None \<longleftrightarrow> fill_namespaces def sl = None" if "\<not> err"
    using False u that by (cases "fill_namespaces def sl") (simp_all add: parsePodNetworkSelections_def)
  ultimately show ?thesis
    using u by (cases err) auto
qed

lemma all_elements_Some:
  "map (\<lambda>v. if v = JNull then None else Some (f v)) vs = map Some es \<longleftrightarrow> JNull \<notin> set vs \<and> es = map f vs"
  by (induction vs arbitrary: es) (auto simp: Cons_eq_map_conv)

lemma nil_element_split:
  "map (\<lambda>v. if v = JNull then None else Some (f v)) vs = map Some es @ None # rest \<longleftrightarrow>
   (\<exists>pre post. vs = pre @ JNull # post \<and> JNull \<notin> set pre \<and> es = map f pre \<and>
      rest = map (\<lambda>v. if v = JNull then None else Some (f v)) post)"
  (is "map ?g vs = _ \<longleftrightarrow> ?split")
proof
  assume "map ?g vs = map Some es @ None # rest"
  then obtain pre us where us: "vs = pre @ us" "map Some es = map ?g pre" "None # rest = map ?g us"
    by (rule map_eq_append_conv [THEN iffD1, elim_format]) (elim exE conjE, rule that)
  obtain post where "us = JNull # post" "rest = map ?g post"
    using us(3) by (cases us) (auto split: if_splits)
  moreover have "JNull \<notin> set pre \<and> es = map f pre"
    using all_elements_Some [of f pre es] us(2) by simp
  ultimately show ?split
    using us(1) by blast
next
  assume ?split
  then obtain pre post where p: "vs = pre @ JNull # post" "JNull \<notin> set pre" "es = map f pre" "rest = map ?g post"
    by blast
  then have "map ?g pre = map Some es"
    using all_elements_Some [of f pre es] by blast
  with p show "map ?g vs = map Some es @ None # rest"
    by simp
qed

section \<open>Properties\<close>

text \<open>
  C8: a network of the comma-separated form is accepted exactly when its text is an optional
  namespace and a slash, a name, and an optional at sign and interface, such that the namespace
  (the default one where the text has none), the name and the interface are each empty or a
  valid name; the result has these parts. So a text with an empty name is accepted, and an
  invalid default namespace makes every text without a namespace fail.
\<close>

theorem parse_element_grammar:
  "parsePodNetworkSelectionElement s def = Inr e \<longleftrightarrow>
   (\<exists>ns n i. s = selection_text ns n i \<and> e = selection_of def ns n i \<and> selection_ok e)"
  using parse_element_sound parse_element_complete by blast

text \<open>
  C6: a text is accepted in two ways only: as JSON decoded without any error, or as a
  comma-separated list all of whose networks parse. What a failed JSON decoding leaves in the
  slice never becomes part of an accepted selection, although the code goes on appending to it.
\<close>

theorem parse_selections_accepts:
  "parsePodNetworkSelections dec str def = Some (Inr es) \<longleftrightarrow>
   str \<noteq> [] \<and>
   ((\<exists>slice filled. unmarshal_selections dec str = (slice, False) \<and>
       fill_namespaces def slice = Some filled \<and> es = (case filled of None \<Rightarrow> [] | Some es \<Rightarrow> es)) \<or>
    (snd (unmarshal_selections dec str) \<and> (\<exists>es0. comma_list def str es0 \<and> es = defaulted def es0)))"
proof (cases "str \<noteq> [] \<and> snd (unmarshal_selections dec str)")
  case True
  then show ?thesis
    using parse_selections_comma [of str dec def es] by auto
next
  case False
  show ?thesis
  proof (cases "str = []")
    case False
    with \<open>\<not> (str \<noteq> [] \<and> snd (unmarshal_selections dec str))\<close> obtain slice
      where "unmarshal_selections dec str = (slice, False)"
      by (metis prod.collapse)
    with False show ?thesis
      by (auto simp: parsePodNetworkSelections_def split: Option.bind_splits)
  qed (simp add: parsePodNetworkSelections_def)
qed

text \<open>
  Every network the handler goes on to look up has a namespace.
\<close>

lemma selections_have_namespaces:
  "parsePodNetworkSelections dec str def = Some (Inr es) \<Longrightarrow> e \<in> set es \<Longrightarrow> ns_namespace e \<noteq> []"
proof -
  assume "parsePodNetworkSelections dec str def = Some (Inr es)" and e: "e \<in> set es"
  then obtain slice filled where fill: "fill_namespaces def slice = Some filled"
    and es: "es = (case filled of None \<Rightarrow> [] | Some es \<Rightarrow> es)"
    using parse_selections_filled by blast
  with e have "filled \<noteq> None" by auto
  then obtain es0 where "slice = map Some es0"
    using fill_namespaces_result [OF fill] by blast
  with fill es have "es = defaulted def es0"
    using fill_namespaces_map_Some [of def es0 filled] by simp
  with e show ?thesis
    by (auto simp: defaulted_def with_default_def split: if_splits)
qed

text \<open>
  C7: the comma-separated form round-trips: networks written out with a comma and any number
  of blanks between them are read back, with the default namespace filled in where they have
  none. The empty text and the text null, which JSON takes, are excluded; and where there is no
  default namespace, one network without a namespace makes the result the empty list.
\<close>

theorem comma_list_roundtrip:
  assumes "list_all (parts_ok def) ps" "ps \<noteq> []" "list_text k ps \<notin> {[], ''null''}"
  shows "parsePodNetworkSelections dec (list_text k ps) def =
         Some (Inr (defaulted def (map (parts_selection def) ps)))"
proof -
  obtain q qs where ps: "ps = q # qs"
    using assms(2) by (cases ps) auto
  have "snd (unmarshal_selections dec (list_text k ps))"
    using unmarshal_list_text [of def q qs k dec] assms(1,3) ps by simp
  then show ?thesis
    using parse_selections_comma comma_list_text [of def q qs k] assms(1,3) ps by fastforce
qed

theorem comma_list_roundtrip_witness:
  "parsePodNetworkSelections (\<lambda>j. (\<lparr>ns_namespace = [], ns_name = [], ns_interface = []\<rparr>, DecodeAbort)) ''sriov,  kube-system/net1@eth1'' ''default'' =
   Some (Inr [\<lparr>ns_namespace = ''default'', ns_name = ''sriov'', ns_interface = []\<rparr>,
              \<lparr>ns_namespace = ''kube-system'', ns_name = ''net1'', ns_interface = ''eth1''\<rparr>])"
proof -
  let ?ps = "[(None, ''sriov'', None), (Some ''kube-system'', ''net1'', Some ''eth1'')]"
  have 1: "list_all (parts_ok ''default'') ?ps" by code_simp
  have 2: "list_text 2 ?ps = ''sriov,  kube-system/net1@eth1''" by code_simp
  have 3: "defaulted ''default'' (map (parts_selection ''default'') ?ps) =
     [\<lparr>ns_namespace = ''default'', ns_name = ''sriov'', ns_interface = []\<rparr>,
      \<lparr>ns_namespace = ''kube-system'', ns_name = ''net1'', ns_interface = ''eth1''\<rparr>]" by code_simp
  show ?thesis
    using comma_list_roundtrip [OF 1, of 2] unfolding 2 3 by simp
qed

text \<open>
  C37: when parsing a selection panics. It does so exactly for a JSON array whose elements all
  decode and that has a null among them, unless there is no default namespace and an element
  before the first null has no namespace, which ends the loop before it gets there.
\<close>

theorem null_element_panics:
  "parsePodNetworkSelections dec text def = None \<longleftrightarrow>
   (\<exists>pre post. json_parse text = Some (JArr (pre @ JNull # post)) \<and> JNull \<notin> set pre \<and>
      list_all (decodes dec) (pre @ post) \<and>
      (if def = [] then list_all (\<lambda>v. ns_namespace (fst (dec v)) \<noteq> []) pre else True))"
proof -
  have null: "decodes dec JNull"
    by (simp add: decodes_def)
  have "fill_namespaces def [] \<noteq> None"
    by simp
  then have "parsePodNetworkSelections dec text def = None \<longleftrightarrow>
      (\<exists>vs. json_parse text = Some (JArr vs) \<and> list_all (decodes dec) vs \<and>
         fill_namespaces def (map (\<lambda>v. if v = JNull then None else Some (fst (dec v))) vs) = None)"
    unfolding parse_selections_None unmarshal_selections_ok decode_selections_ok by auto
  also have "\<dots> \<longleftrightarrow> (\<exists>pre post. json_parse text = Some (JArr (pre @ JNull # post)) \<and>
         list_all (decodes dec) (pre @ JNull # post) \<and> JNull \<notin> set pre \<and>
         (def = [] \<longrightarrow> list_all (\<lambda>e. ns_namespace e \<noteq> []) (map (\<lambda>v. fst (dec v)) pre)))"
    unfolding fill_namespaces_None nil_element_split by blast
  also have "\<dots> \<longleftrightarrow> (\<exists>pre post. json_parse text = Some (JArr (pre @ JNull # post)) \<and> JNull \<notin> set pre \<and>
      list_all (decodes dec) (pre @ post) \<and>
      (if def = [] then list_all (\<lambda>v. ns_namespace (fst (dec v)) \<noteq> []) pre else True))"
    using null by (intro arg_cong [where f = Ex] ext) (auto simp: list.pred_map comp_def)
  finally show ?thesis .
qed

text \<open>
  C5: the requests and labels of all networks. The networks are processed without an error
  exactly when each is found and has at most one label in its node selector; then the counter
  of a resource is the number of pairs of a network and a resource-name key that name it,
  modulo 2 ^ 64 and absent if there is none, and the labels are those of the networks with
  later ones replacing earlier ones.
\<close>

theorem networks_counted:
  "case parse_networks src keys nets [] [] of (reqs, nsMap, err) \<Rightarrow>
     (err = None \<longleftrightarrow> list_all (network_ok src) nets) \<and>
     (err = None \<longrightarrow>
        map_get reqs r = counter (concat (map (\<lambda>n. requests_of keys (network_annotations src n)) nets)) r \<and>
        nsMap = foldl (\<lambda>s (l, v). map_put s l v) [] (concat (map (\<lambda>n. labels_of (network_annotations src n)) nets)))"
proof -
  obtain reqs nsMap err where p: "parse_networks src keys nets [] [] = (reqs, nsMap, err)"
    by (metis prod_cases3)
  from parse_networks_cases [OF counts_Nil p] show ?thesis
    by (simp add: p counts_def)
qed

theorem networks_counted_witness:
  "parse_networks \<lparr>src_cache_get = (\<lambda>ns n. if n = ''a'' then Some [(''r'', ''hw/vf''), (nodeSelectorKey, ''zone = east'')] else None),
       src_api_get = (\<lambda>p. Inl ''404''), src_decode = (\<lambda>s. None)\<rparr> [''r'', ''q'']
     [\<lparr>ns_namespace = ''x'', ns_name = ''a'', ns_interface = []\<rparr>, \<lparr>ns_namespace = ''y'', ns_name = ''a'', ns_interface = []\<rparr>] [] [] =
   ([(''hw/vf'', 2)], [(''zone'', ''east'')], None) \<and> counter [''hw/vf'', ''hw/vf''] ''hw/vf'' = Some 2"
  (is "?run = _ \<and> _")
proof -
  have run: "?run = ([(''hw/vf'', 2)], [(''zone'', ''east'')], None)"
    by code_simp
  have "map_get [(''hw/vf'', 2)] ''hw/vf'' = counter [''hw/vf'', ''hw/vf''] ''hw/vf''"
    using networks_counted [where src = "\<lparr>src_cache_get = (\<lambda>ns n. if n = ''a'' then Some [(''r'', ''hw/vf''), (nodeSelectorKey, ''zone = east'')] else None),
       src_api_get = (\<lambda>p. Inl ''404''), src_decode = (\<lambda>s. None)\<rparr>" and keys = "[''r'', ''q'']"
     and nets = "[\<lparr>ns_namespace = ''x'', ns_name = ''a'', ns_interface = []\<rparr>, \<lparr>ns_namespace = ''y'', ns_name = ''a'', ns_interface = []\<rparr>]" and r = "''hw/vf''"]
    unfolding run by (simp add: requests_of_def network_annotations_def find_annotations_def nodeSelectorKey_def)
  with run show ?thesis by simp
qed

end
