(* ===== verification/Patch_Build.thy ===== *)
theory Patch_Build
  imports Net_Selection
begin

text \<open>
  pkg/webhook/webhook.go, the functions that build the JSON patch of a pod. Each takes the
  patch so far and returns it with operations appended.
\<close>

definition podNetInfoVolumeName :: string where
  "podNetInfoVolumeName = ''podnetinfo''"

text \<open>The loops over maps whose order shows in the patch; one order for each.\<close>

datatype range_site = RangePatchs | RangeRequests nat | RangeLimits nat | RangeResources

type_synonym range_orders = "range_site \<Rightarrow> range_order"

definition lawful_orders :: "range_orders \<Rightarrow> bool" where
  "lawful_orders ords \<longleftrightarrow> (\<forall>site. lawful_order (ords site))"

section \<open>Resources\<close>

definition toSafeJSONPatchKey :: "string \<Rightarrow> string" where
  "toSafeJSONPatchKey s = replace_char CHR ''/'' ''~1'' (replace_char CHR ''~'' ''~0'' s)"

definition add_operation :: "string \<Rightarrow> 'q patch_value \<Rightarrow> 'q json_patch_operation" where
  "add_operation p v = \<lparr>jp_operation = ''add'', jp_path = p, jp_value = v\<rparr>"

type_synonym 'q patch = "'q json_patch_operation list"

definition patchEmptyResources :: "'q patch \<Rightarrow> nat \<Rightarrow> string \<Rightarrow> 'q patch" where
  "patchEmptyResources patch containerIndex key =
     patch @ [add_operation (''/spec/containers/'' @ itoa containerIndex @ ''/resources/''
                               @ toSafeJSONPatchKey key) (PvResourceList [])]"

definition appendResource :: "'q patch \<Rightarrow> string \<Rightarrow> 'q \<Rightarrow> 'q \<Rightarrow> 'q patch" where
  "appendResource patch resourceName reqQuantity limitQuantity =
     (let patch = patch @ [add_operation (''/spec/containers/0/resources/requests/''
                             @ toSafeJSONPatchKey resourceName) (PvQuantity reqQuantity)]
      in patch @ [add_operation (''/spec/containers/0/resources/limits/''
                             @ toSafeJSONPatchKey resourceName) (PvQuantity limitQuantity)])"

definition getResourceList :: "'q quantity_ops \<Rightarrow> int64 gomap \<Rightarrow> 'q gomap" where
  "getResourceList Q resourceRequests =
     map (\<lambda>(name, number). (name, q_new Q number DecimalSI)) resourceRequests"

text \<open>The resources some container already asks for are not injected.\<close>

definition drop_existing :: "'q container list \<Rightarrow> int64 gomap \<Rightarrow> int64 gomap" where
  "drop_existing containers resourceRequests =
     foldl (\<lambda>m r.
         foldl (\<lambda>m c.
             let m = (if map_get (ct_limits c) r \<noteq> None then map_del m r else m)
             in if map_get (ct_requests c) r \<noteq> None then map_del m r else m)
           m containers)
       resourceRequests (map_keys resourceRequests)"

definition createResourcePatch ::
  "'q quantity_ops \<Rightarrow> range_orders \<Rightarrow> 'q patch \<Rightarrow> 'q container list \<Rightarrow> int64 gomap \<Rightarrow> 'q patch option" where
  "createResourcePatch Q ords patch containers resourceRequests =
     (case containers of
        [] \<Rightarrow> go_panic
      | first # _ \<Rightarrow>
          (let patch = (if length (ct_requests first) = 0 then patchEmptyResources patch 0 ''requests'' else patch);
               patch = (if length (ct_limits first) = 0 then patchEmptyResources patch 0 ''limits'' else patch);
               resourceRequests = drop_existing containers resourceRequests;
               resourceList = getResourceList Q resourceRequests
           in go_return (foldl (\<lambda>patch (resource, quantity). appendResource patch resource quantity quantity)
                patch (map_range (ords RangeResources) resourceList))))"

text \<open>
  The two maps of existing resources are nil, here empty, where the first container has none.
\<close>

definition updateResourcePatch ::
  "'q quantity_ops \<Rightarrow> range_orders \<Rightarrow> 'q patch \<Rightarrow> 'q container list \<Rightarrow> int64 gomap \<Rightarrow> 'q patch option" where
  "updateResourcePatch Q ords patch containers resourceRequests =
     (case containers of
        [] \<Rightarrow> go_panic
      | first # _ \<Rightarrow>
          (let (patch, existingRequestsMap) =
                 (if length (ct_requests first) = 0 then (patchEmptyResources patch 0 ''requests'', [])
                  else (patch, ct_requests first));
               (patch, existingLimitsMap) =
                 (if length (ct_limits first) = 0 then (patchEmptyResources patch 0 ''limits'', [])
                  else (patch, ct_limits first));
               resourceList = getResourceList Q resourceRequests
           in go_return (foldl (\<lambda>patch (resourceName, quantity).
                let reqQuantity = (case map_get existingRequestsMap resourceName of
                                     Some value \<Rightarrow> q_add Q quantity value | None \<Rightarrow> quantity);
                    limitQuantity = (case map_get existingLimitsMap resourceName of
                                     Some value \<Rightarrow> q_add Q quantity value | None \<Rightarrow> quantity)
                in appendResource patch resourceName reqQuantity limitQuantity)
                patch (map_range (ords RangeResources) resourceList))))"

section \<open>Hugepages\<close>

record hugepage_resource_data =
  hp_resource_name :: string
  hp_container_name :: string
  hp_path :: string

text \<open>The group of the regular expression \<open>^hugepages-(.+)$\<close>, when it matches.\<close>

definition hugepage_match :: "string \<Rightarrow> string option" where
  "hugepage_match s =
     (let prefix = ''hugepages-''; rest = drop (length prefix) s in
      if take (length prefix) s = prefix \<and> rest \<noteq> [] \<and> CHR 0x0A \<notin> set rest then Some rest else None)"

definition addEnvVar :: "'q patch \<Rightarrow> nat \<Rightarrow> bool \<Rightarrow> string \<Rightarrow> string \<Rightarrow> 'q patch" where
  "addEnvVar patch containerIndex firstElement envName envVal =
     (let env = \<lparr>ev_name = envName, ev_value = envVal\<rparr> in
      if firstElement
      then patch @ [add_operation (''/spec/containers/'' @ itoa containerIndex @ ''/env'') (PvEnvs [env])]
      else patch @ [add_operation (''/spec/containers/'' @ itoa containerIndex @ ''/env/-'') (PvEnv env)])"

definition createEnvPatch :: "'q patch \<Rightarrow> 'q container \<Rightarrow> nat \<Rightarrow> string \<Rightarrow> string \<Rightarrow> 'q patch" where
  "createEnvPatch patch container containerIndex envName envVal =
     (let found = list_ex (\<lambda>env. ev_name env = envName) (ct_env container);
          firstElement = (length (ct_env container) = 0)
      in if \<not> found then addEnvVar patch containerIndex firstElement envName envVal else patch)"

text \<open>The entries of one resource map of a container, with the words for requests or limits.\<close>

definition hugepage_entries ::
  "'q quantity_ops \<Rightarrow> string \<Rightarrow> string \<Rightarrow> string \<Rightarrow> (string \<times> 'q) list \<Rightarrow> hugepage_resource_data list" where
  "hugepage_entries Q prefix infix_word containerName entries =
     concat (map (\<lambda>(resourceName, quantity).
       case hugepage_match resourceName of
         Some hugepageSize \<Rightarrow>
           if \<not> q_is_zero Q quantity then
             [\<lparr>hp_resource_name = prefix @ resourceName, hp_container_name = containerName,
               hp_path = ''hugepages_'' @ replace_char CHR ''i'' [] hugepageSize @ infix_word @ containerName\<rparr>]
           else []
       | None \<Rightarrow> []) entries)"

fun process_containers ::
  "'q quantity_ops \<Rightarrow> range_orders \<Rightarrow> nat \<Rightarrow> 'q container list \<Rightarrow> 'q patch \<Rightarrow> hugepage_resource_data list \<Rightarrow>
   'q patch \<times> hugepage_resource_data list" where
  "process_containers Q ords containerIndex [] patch hps = (patch, hps)"
| "process_containers Q ords containerIndex (c # cs) patch hps =
     (let reqs = hugepage_entries Q ''requests.'' ''_request_'' (ct_name c)
                   (map_range (ords (RangeRequests containerIndex)) (ct_requests c));
          lims = hugepage_entries Q ''limits.'' ''_limit_'' (ct_name c)
                   (map_range (ords (RangeLimits containerIndex)) (ct_limits c));
          patch = (if reqs @ lims \<noteq> []
                   then createEnvPatch patch c containerIndex EnvNameContainerName (ct_name c) else patch)
      in process_containers Q ords (Suc containerIndex) cs patch (hps @ reqs @ lims))"

definition processHugepagesForDownwardAPI ::
  "'q quantity_ops \<Rightarrow> range_orders \<Rightarrow> 'q patch \<Rightarrow> 'q container list \<Rightarrow> 'q patch \<times> hugepage_resource_data list" where
  "processHugepagesForDownwardAPI Q ords patch containers = process_containers Q ords 0 containers patch []"

section \<open>The Downward API volume\<close>

definition downward_items ::
  "'q quantity_ops \<Rightarrow> hugepage_resource_data list \<Rightarrow> 'q pod \<Rightarrow> 'q downward_file list" where
  "downward_items Q hugepageResourceList pod =
     (if length (pod_labels pod) > 0
      then [\<lparr>df_path = LabelsPath, df_source = FieldRef ''metadata.labels''\<rparr>] else [])
     @ (if length (pod_annotations pod) > 0
      then [\<lparr>df_path = AnnotationsPath, df_source = FieldRef ''metadata.annotations''\<rparr>] else [])
     @ map (\<lambda>hp. \<lparr>df_path = hp_path hp,
                    df_source = ResourceFieldRef (hp_resource_name hp) (hp_container_name hp)
                                  (q_new Q (1 * 1024 * 1024) BinarySI)\<rparr>) hugepageResourceList"

definition addVolDownwardAPI ::
  "'q quantity_ops \<Rightarrow> 'q patch \<Rightarrow> hugepage_resource_data list \<Rightarrow> 'q pod \<Rightarrow> 'q patch" where
  "addVolDownwardAPI Q patch hugepageResourceList pod =
     (if list_ex (\<lambda>vol. vol_name vol = podNetInfoVolumeName) (pod_volumes pod) then patch
      else
        (let patch = (if length (pod_volumes pod) = 0
                      then patch @ [add_operation ''/spec/volumes'' (PvVolumes [])] else patch);
             vol = \<lparr>vol_name = podNetInfoVolumeName,
                    vol_downward = Some (downward_items Q hugepageResourceList pod)\<rparr>
         in patch @ [add_operation ''/spec/volumes/-'' (PvVolume vol)]))"

definition downward_mount :: volume_mount where
  "downward_mount = \<lparr>vm_name = podNetInfoVolumeName, vm_read_only = True, vm_mount_path = DownwardAPIMountPath\<rparr>"

fun add_mounts :: "nat \<Rightarrow> 'q container list \<Rightarrow> 'q patch \<Rightarrow> 'q patch" where
  "add_mounts containerIndex [] patch = patch"
| "add_mounts containerIndex (c # cs) patch =
     (if list_ex (\<lambda>vm. vm_name vm = podNetInfoVolumeName) (ct_mounts c)
      then add_mounts (Suc containerIndex) cs patch
      else
        (let patch = (if length (ct_mounts c) = 0
                      then patch @ [add_operation (''/spec/containers/'' @ itoa containerIndex @ ''/volumeMounts'') (PvMounts [])]
                      else patch)
         in add_mounts (Suc containerIndex) cs
              (patch @ [add_operation (''/spec/containers/'' @ itoa containerIndex @ ''/volumeMounts/-'') (PvMount downward_mount)])))"

definition addVolumeMount :: "'q patch \<Rightarrow> 'q container list \<Rightarrow> 'q patch" where
  "addVolumeMount patch containers = add_mounts 0 containers patch"

definition createVolPatch ::
  "'q quantity_ops \<Rightarrow> 'q patch \<Rightarrow> hugepage_resource_data list \<Rightarrow> 'q pod \<Rightarrow> 'q patch" where
  "createVolPatch Q patch hugepageResourceList pod =
     addVolDownwardAPI Q (addVolumeMount patch (pod_containers pod)) hugepageResourceList pod"

section \<open>Node selector and annotations\<close>

definition map_put_all :: "'v gomap \<Rightarrow> 'v gomap \<Rightarrow> 'v gomap" where
  "map_put_all m new = foldl (\<lambda>m (k, v). map_put m k v) m new"

definition createNodeSelectorPatch :: "'q patch \<Rightarrow> string gomap \<Rightarrow> string gomap \<Rightarrow> 'q patch" where
  "createNodeSelectorPatch patch existing desired =
     (let targetMap = map_put_all (map_put_all [] existing) desired in
      if length targetMap = 0 then patch
      else patch @ [add_operation ''/spec/nodeSelector'' (PvStrings targetMap)])"

text \<open>Collecting the annotations of one user-defined patch; the first value of a key stays.\<close>

fun collect_annotations :: "(string \<times> goval) list \<Rightarrow> string gomap \<Rightarrow> string gomap option" where
  "collect_annotations [] annotations = go_return annotations"
| "collect_annotations ((k, v) # kvs) annotations = do {
     s \<leftarrow> value_string v;
     collect_annotations kvs
       (if map_get annotations k \<noteq> None then annotations else map_put annotations k s) }"

fun collect_patches :: "'q patch \<Rightarrow> string gomap \<Rightarrow> string gomap option" where
  "collect_patches [] annotations = go_return annotations"
| "collect_patches (p # ps) annotations =
     (if jp_path p = annotations_path \<and> jp_operation p = patchOperationAdd then do {
        m \<leftarrow> value_map (jp_value p);
        annotations \<leftarrow> collect_annotations m annotations;
        collect_patches ps annotations }
      else collect_patches ps annotations)"

definition add_missing :: "string gomap \<Rightarrow> string gomap \<Rightarrow> string gomap" where
  "add_missing annotations existing =
     foldl (\<lambda>m (k, v). if map_get m k = None then map_put m k v else m) annotations existing"

definition appendAddAnnotPatch :: "'q patch \<Rightarrow> 'q pod \<Rightarrow> 'q patch \<Rightarrow> 'q patch option" where
  "appendAddAnnotPatch patch pod userDefinedPatch = do {
     annotations \<leftarrow> collect_patches userDefinedPatch [];
     go_return
       (if length annotations > 0
        then patch @ [add_operation annotations_path (PvStrings (add_missing annotations (pod_annotations pod)))]
        else patch) }"

definition appendUserDefinedPatch :: "'q patch \<Rightarrow> 'q pod \<Rightarrow> 'q patch \<Rightarrow> 'q patch option" where
  "appendUserDefinedPatch patch pod userDefinedPatch = appendAddAnnotPatch patch pod userDefinedPatch"

end
