(* ===== verification/Json_Patch.thy ===== *)
theory Json_Patch
  imports Patch_Build
begin

text \<open>
  What a patch means: the JSON Patch (RFC 6902) that the API server applies to the pod it sent,
  on the part of the pod's document that the injector writes, and the effect of every function
  of \<open>Patch_Build\<close> on that document. The contract of those functions is the locale
  \<open>patch_effect\<close>: they only append operations, and these operations apply to a document
  of the pod and have a stated effect.
\<close>

section \<open>Documents\<close>

text \<open>
  A member that an empty map or list leaves out of the serialised pod is \<open>None\<close>.
\<close>

record 'q container_doc =
  cd_requests :: "'q gomap option"
  cd_limits :: "'q gomap option"
  cd_mounts :: "volume_mount list option"
  cd_env :: "env_var list option"

record 'q pod_doc =
  pd_annotations :: "string gomap option"
  pd_node_selector :: "string gomap option"
  pd_volumes :: "'q volume list option"
  pd_containers :: "'q container_doc list"

definition omitempty :: "'a list \<Rightarrow> 'a list option" where
  "omitempty xs = (if xs = [] then None else Some xs)"

definition container_doc_of :: "'q container \<Rightarrow> 'q container_doc" where
  "container_doc_of c =
     \<lparr>cd_requests = omitempty (ct_requests c), cd_limits = omitempty (ct_limits c),
      cd_mounts = omitempty (ct_mounts c), cd_env = omitempty (ct_env c)\<rparr>"

definition document_of :: "'q pod \<Rightarrow> 'q pod_doc" where
  "document_of pod =
     \<lparr>pd_annotations = omitempty (pod_annotations pod), pd_node_selector = omitempty (pod_node_selector pod),
      pd_volumes = omitempty (pod_volumes pod), pd_containers = map container_doc_of (pod_containers pod)\<rparr>"

section \<open>Applying a patch\<close>

text \<open>A JSON pointer (RFC 6901): tokens after slashes, with a tilde and a digit for two characters.\<close>

fun unescape_token :: "string \<Rightarrow> string" where
  "unescape_token [] = []"
| "unescape_token [c] = [c]"
| "unescape_token (c # d # s) =
     (if c = CHR ''~'' \<and> d = CHR ''1'' then CHR ''/'' # unescape_token s
      else if c = CHR ''~'' \<and> d = CHR ''0'' then CHR ''~'' # unescape_token s
      else c # unescape_token (d # s))"

definition pointer :: "string \<Rightarrow> string list" where
  "pointer path = map unescape_token (tl (go_split CHR ''/'' path))"

text \<open>
  The operation add: a member of an object is set or replaced, the token - appends to a list,
  and the object or list around it has to exist.
\<close>

definition add_resource_member :: "string list \<Rightarrow> 'q patch_value \<Rightarrow> 'q gomap option \<Rightarrow> 'q gomap option option" where
  "add_resource_member toks v old =
     (case (toks, v, old) of
        ([], PvResourceList m, _) \<Rightarrow> Some (Some m)
      | ([key], PvQuantity q, Some m) \<Rightarrow> Some (Some (map_put m key q))
      | _ \<Rightarrow> None)"

definition add_to_container :: "string list \<Rightarrow> 'q patch_value \<Rightarrow> 'q container_doc \<Rightarrow> 'q container_doc option" where
  "add_to_container toks v c =
     (if toks = [''env''] then
        (case v of PvEnvs es \<Rightarrow> Some (c\<lparr>cd_env := Some es\<rparr>) | _ \<Rightarrow> None)
      else if toks = [''env'', ''-''] then
        (case (v, cd_env c) of (PvEnv e, Some es) \<Rightarrow> Some (c\<lparr>cd_env := Some (es @ [e])\<rparr>) | _ \<Rightarrow> None)
      else if toks = [''volumeMounts''] then
        (case v of PvMounts ms \<Rightarrow> Some (c\<lparr>cd_mounts := Some ms\<rparr>) | _ \<Rightarrow> None)
      else if toks = [''volumeMounts'', ''-''] then
        (case (v, cd_mounts c) of (PvMount m, Some ms) \<Rightarrow> Some (c\<lparr>cd_mounts := Some (ms @ [m])\<rparr>) | _ \<Rightarrow> None)
      else if take 2 toks = [''resources'', ''requests''] then
        map_option (\<lambda>m. c\<lparr>cd_requests := m\<rparr>) (add_resource_member (drop 2 toks) v (cd_requests c))
      else if take 2 toks = [''resources'', ''limits''] then
        map_option (\<lambda>m. c\<lparr>cd_limits := m\<rparr>) (add_resource_member (drop 2 toks) v (cd_limits c))
      else None)"

definition apply_add :: "string list \<Rightarrow> 'q patch_value \<Rightarrow> 'q pod_doc \<Rightarrow> 'q pod_doc option" where
  "apply_add toks v d =
     (if toks = [''metadata'', ''annotations''] then
        (case v of PvStrings m \<Rightarrow> Some (d\<lparr>pd_annotations := Some m\<rparr>) | _ \<Rightarrow> None)
      else if toks = [''spec'', ''nodeSelector''] then
        (case v of PvStrings m \<Rightarrow> Some (d\<lparr>pd_node_selector := Some m\<rparr>) | _ \<Rightarrow> None)
      else if toks = [''spec'', ''volumes''] then
        (case v of PvVolumes vs \<Rightarrow> Some (d\<lparr>pd_volumes := Some vs\<rparr>) | _ \<Rightarrow> None)
      else if toks = [''spec'', ''volumes'', ''-''] then
        (case (v, pd_volumes d) of (PvVolume x, Some vs) \<Rightarrow> Some (d\<lparr>pd_volumes := Some (vs @ [x])\<rparr>) | _ \<Rightarrow> None)
      else if take 2 toks = [''spec'', ''containers''] then
        (case drop 2 toks of
           [] \<Rightarrow> None
         | i # rest \<Rightarrow>
             (case find (\<lambda>n. itoa n = i) [0..<length (pd_containers d)] of
                None \<Rightarrow> None
              | Some n \<Rightarrow> map_option (\<lambda>c. d\<lparr>pd_containers := (pd_containers d)[n := c]\<rparr>)
                            (add_to_container rest v (pd_containers d ! n))))
      else None)"

definition apply_operation :: "'q json_patch_operation \<Rightarrow> 'q pod_doc \<Rightarrow> 'q pod_doc option" where
  "apply_operation op d =
     (if jp_operation op = ''add'' then apply_add (pointer (jp_path op)) (jp_value op) d else None)"

fun apply_patch :: "'q patch \<Rightarrow> 'q pod_doc \<Rightarrow> 'q pod_doc option" where
  "apply_patch [] d = Some d"
| "apply_patch (op # ops) d = (case apply_operation op d of None \<Rightarrow> None | Some d' \<Rightarrow> apply_patch ops d')"

lemma apply_patch_append:
  "apply_patch (p @ q) d = (case apply_patch p d of None \<Rightarrow> None | Some d' \<Rightarrow> apply_patch q d')"
  by (induction p arbitrary: d) (auto split: option.splits)

section \<open>Pointers of the paths\<close>

named_theorems container_paths \<open>the paths that the builders write, as paths under a container\<close>

lemma unescape_toSafe: "unescape_token (toSafeJSONPatchKey s) = s"
proof (induction s)
  case (Cons c s)
  have "unescape_token (x # toSafeJSONPatchKey s) = x # s" if "x \<noteq> CHR ''~''" for x
    using that Cons by (cases "toSafeJSONPatchKey s") auto
  with Cons show ?case
    by (auto simp: toSafeJSONPatchKey_def)
qed (simp add: toSafeJSONPatchKey_def)

lemma toSafe_no_slash: "CHR ''/'' \<notin> set (toSafeJSONPatchKey s)"
  by (induction s) (auto simp: toSafeJSONPatchKey_def)

lemma unescape_plain: "CHR ''~'' \<notin> set s \<Longrightarrow> unescape_token s = s"
  by (induction s rule: unescape_token.induct) auto

lemma itoa_token: "CHR ''/'' \<notin> set (itoa n)" "unescape_token (itoa n) = itoa n"
  using itoa_chars [of "CHR ''/''" n] itoa_chars [of "CHR ''~''" n]
  by (auto simp: byte_def intro!: unescape_plain)

lemma pointer_container:
  "pointer (''/spec/containers/'' @ itoa n @ CHR ''/'' # s) =
   ''spec'' # ''containers'' # itoa n # map unescape_token (go_split CHR ''/'' s)"
  by (simp add: pointer_def go_split_append_sep itoa_token)

lemma itoa_zero: "itoa 0 = ''0''"
  by (subst itoa.simps) (simp add: digit_char_def, code_simp)

lemma find_container:
  "n < k \<Longrightarrow> find (\<lambda>m. itoa m = itoa n) [0..<k] = Some n"
  by (simp add: find_Some_iff) (metis nth_upt add_0 less_irrefl less_trans)

section \<open>The contract of the builders\<close>

locale patch_effect =
  fixes build :: "'q patch \<Rightarrow> 'q patch option"
    and fit :: "'q pod_doc \<Rightarrow> bool"
    and effect :: "'q pod_doc \<Rightarrow> 'q pod_doc"
  assumes build_applies: "fit d \<Longrightarrow> \<exists>ops. (\<forall>p. build p = Some (p @ ops)) \<and> apply_patch ops d = Some (effect d)"
begin

lemma build_after:
  "apply_patch p d = Some d' \<Longrightarrow> fit d' \<Longrightarrow> \<exists>q. build p = Some q \<and> apply_patch q d = Some (effect d')"
  using build_applies [of d'] by (auto simp: apply_patch_append)

end

text \<open>Two builders in sequence: the second has to fit what the first makes of the document.\<close>

locale patch_sequence =
  first: patch_effect build1 fit1 effect1 + second: patch_effect build2 fit2 effect2
  for build1 :: "'q patch \<Rightarrow> 'q patch option" and fit1 effect1
    and build2 :: "'q patch \<Rightarrow> 'q patch option" and fit2 effect2

sublocale patch_sequence \<subseteq> seq: patch_effect
  "\<lambda>p. Option.bind (build1 p) build2" "\<lambda>d. fit1 d \<and> fit2 (effect1 d)" "\<lambda>d. effect2 (effect1 d)"
proof
  fix d
  assume fit: "fit1 d \<and> fit2 (effect1 d)"
  obtain ops1 ops2 where "\<forall>p. build1 p = Some (p @ ops1)" "apply_patch ops1 d = Some (effect1 d)"
    "\<forall>p. build2 p = Some (p @ ops2)" "apply_patch ops2 (effect1 d) = Some (effect2 (effect1 d))"
    using first.build_applies second.build_applies fit by blast
  then show "\<exists>ops. (\<forall>p. Option.bind (build1 p) build2 = Some (p @ ops)) \<and>
      apply_patch ops d = Some (effect2 (effect1 d))"
    by (intro exI [of _ "ops1 @ ops2"]) (simp add: apply_patch_append)
qed

text \<open>
  A builder that goes through the containers appends, for each, operations that change the
  container's own document only.
\<close>

fun per_container :: "(nat \<Rightarrow> 'q container \<Rightarrow> 'q patch) \<Rightarrow> nat \<Rightarrow> 'q container list \<Rightarrow> 'q patch" where
  "per_container ops i [] = []"
| "per_container ops i (c # cs) = ops i c @ per_container ops (Suc i) cs"

fun zip_from :: "(nat \<Rightarrow> 'a \<Rightarrow> 'b \<Rightarrow> 'b) \<Rightarrow> nat \<Rightarrow> 'a list \<Rightarrow> 'b list \<Rightarrow> 'b list" where
  "zip_from f i (c # cs) (x # xs) = f i c x # zip_from f (Suc i) cs xs"
| "zip_from f i _ xs = xs"

definition on_container :: "nat \<Rightarrow> ('q container_doc \<Rightarrow> 'q container_doc) \<Rightarrow> 'q pod_doc \<Rightarrow> 'q pod_doc" where
  "on_container n f d = d\<lparr>pd_containers := (pd_containers d)[n := f (pd_containers d ! n)]\<rparr>"

lemma length_zip_from [simp]: "length (zip_from f i cs xs) = length xs"
  by (induction f i cs xs rule: zip_from.induct) auto

lemma nth_zip_from:
  "j < length cs \<Longrightarrow> j < length xs \<Longrightarrow> zip_from f i cs xs ! j = f (i + j) (cs ! j) (xs ! j)"
  by (induction f i cs xs arbitrary: j rule: zip_from.induct) (auto simp: nth_Cons split: nat.splits)

locale container_effect =
  fixes ops :: "nat \<Rightarrow> 'q container \<Rightarrow> 'q patch"
    and fit :: "'q container \<Rightarrow> 'q container_doc \<Rightarrow> bool"
    and effect :: "nat \<Rightarrow> 'q container \<Rightarrow> 'q container_doc \<Rightarrow> 'q container_doc"
  assumes ops_apply: "n < length (pd_containers d) \<Longrightarrow> fit c (pd_containers d ! n) \<Longrightarrow>
    apply_patch (ops n c) d = Some (on_container n (effect n c) d)"
begin

lemma per_container_applies:
  assumes "list_all2 fit cs (drop i (pd_containers d))"
  shows "apply_patch (per_container ops i cs) d =
     Some (d\<lparr>pd_containers := take i (pd_containers d) @ zip_from effect i cs (drop i (pd_containers d))\<rparr>)"
  using assms
proof (induction cs arbitrary: i d)
  case (Cons c cs)
  let ?ds = "pd_containers d"
  obtain x xs where x: "drop i ?ds = x # xs" "fit c x" "list_all2 fit cs xs"
    using Cons.prems by (auto simp: list_all2_Cons1)
  then have i: "i < length ?ds" "?ds ! i = x"
    by (metis drop_all leI list.discI) (metis x(1) Cons_nth_drop_Suc drop_all leI list.discI list.inject)
  let ?d = "on_container i (effect i c) d"
  have upd: "pd_containers ?d = take i ?ds @ effect i c x # xs"
    using i x(1) by (simp add: on_container_def upd_conv_take_nth_drop) (metis Cons_nth_drop_Suc list.inject)
  have "apply_patch (per_container ops (Suc i) cs) ?d =
      Some (?d\<lparr>pd_containers := take (Suc i) (pd_containers ?d) @ zip_from effect (Suc i) cs (drop (Suc i) (pd_containers ?d))\<rparr>)"
    using x(3) i(1) by (intro Cons.IH) (simp add: upd)
  then show ?case
    using ops_apply [OF i(1), of c] i x(1,2) upd
    by (simp add: apply_patch_append) (simp add: on_container_def)
qed simp

end

section \<open>Operations on one container\<close>

definition container_path :: "nat \<Rightarrow> string \<Rightarrow> string" where
  "container_path n s = ''/spec/containers/'' @ itoa n @ CHR ''/'' # s"

lemma mount_paths [container_paths]:
  "''/spec/containers/'' @ itoa n @ ''/volumeMounts'' = container_path n ''volumeMounts''"
  "''/spec/containers/'' @ itoa n @ ''/volumeMounts/-'' = container_path n ''volumeMounts/-''"
  "''/spec/containers/'' @ itoa n @ ''/env'' = container_path n ''env''"
  "''/spec/containers/'' @ itoa n @ ''/env/-'' = container_path n ''env/-''"
  "''/spec/containers/'' @ itoa n @ ''/resources/'' @ s = container_path n (''resources/'' @ s)"
  "''/spec/containers/0/resources/requests/'' @ s = container_path 0 (''resources/requests/'' @ s)"
  "''/spec/containers/0/resources/limits/'' @ s = container_path 0 (''resources/limits/'' @ s)"
  by (simp_all add: container_path_def itoa_zero)

lemma apply_container_operation:
  assumes "n < length (pd_containers d)"
  shows "apply_operation (add_operation (container_path n s) v) d =
     map_option (\<lambda>c. d\<lparr>pd_containers := (pd_containers d)[n := c]\<rparr>)
       (add_to_container (map unescape_token (go_split CHR ''/'' s)) v (pd_containers d ! n))"
proof -
  have p: "pointer (jp_path (add_operation (container_path n s) v)) =
      ''spec'' # ''containers'' # itoa n # map unescape_token (go_split CHR ''/'' s)"
    by (simp only: container_path_def add_operation_def json_patch_operation.select_convs pointer_container)
  show ?thesis
    unfolding apply_operation_def p using assms by (simp add: add_operation_def apply_add_def find_container [simplified])
qed

lemma on_container_same [simp]:
  "n < length (pd_containers d) \<Longrightarrow> on_container n f (on_container n g d) = on_container n (\<lambda>c. f (g c)) d"
  by (simp add: on_container_def)

lemma length_on_container [simp]: "length (pd_containers (on_container n f d)) = length (pd_containers d)"
  by (simp add: on_container_def)

lemma on_container_Nil [simp]: "pd_containers (on_container n f d) = [] \<longleftrightarrow> pd_containers d = []"
  by (simp add: on_container_def)

lemma nth_on_container [simp]:
  "n < length (pd_containers d) \<Longrightarrow> pd_containers (on_container n f d) ! n = f (pd_containers d ! n)"
  by (simp add: on_container_def)

lemma on_container_cong:
  "f (pd_containers d ! n) = g (pd_containers d ! n) \<Longrightarrow> on_container n f d = on_container n g d"
  by (simp add: on_container_def)

subsection \<open>Mounts\<close>

definition has_mount :: "'q container \<Rightarrow> bool" where
  "has_mount c \<longleftrightarrow> list_ex (\<lambda>vm. vm_name vm = podNetInfoVolumeName) (ct_mounts c)"

definition mount_operations :: "nat \<Rightarrow> 'q container \<Rightarrow> 'q patch" where
  "mount_operations n c =
     (if has_mount c then []
      else (if ct_mounts c = [] then [add_operation (''/spec/containers/'' @ itoa n @ ''/volumeMounts'') (PvMounts [])] else [])
           @ [add_operation (''/spec/containers/'' @ itoa n @ ''/volumeMounts/-'') (PvMount downward_mount)])"

definition mount_fit :: "'q container \<Rightarrow> 'q container_doc \<Rightarrow> bool" where
  "mount_fit c x \<longleftrightarrow> cd_mounts x = omitempty (ct_mounts c)"

definition mount_effect :: "nat \<Rightarrow> 'q container \<Rightarrow> 'q container_doc \<Rightarrow> 'q container_doc" where
  "mount_effect n c x = (if has_mount c then x else x\<lparr>cd_mounts := Some (ct_mounts c @ [downward_mount])\<rparr>)"

lemma add_mounts_per_container: "add_mounts i cs p = p @ per_container mount_operations i cs"
  by (induction cs arbitrary: i p) (auto simp: mount_operations_def has_mount_def)

interpretation mounts: container_effect mount_operations mount_fit mount_effect
proof
  fix n and d :: "'a pod_doc" and c :: "'a container"
  assume n: "n < length (pd_containers d)" and fit: "mount_fit c (pd_containers d ! n)"
  show "apply_patch (mount_operations n c) d = Some (on_container n (mount_effect n c) d)"
    using n fit unfolding mount_operations_def mount_effect_def mount_fit_def omitempty_def container_paths
    by (simp add: apply_container_operation add_to_container_def on_container_def)
qed

subsection \<open>The name of a container in its environment\<close>

definition container_hugepages :: "'q quantity_ops \<Rightarrow> range_orders \<Rightarrow> nat \<Rightarrow> 'q container \<Rightarrow> hugepage_resource_data list" where
  "container_hugepages Q ords n c =
     hugepage_entries Q ''requests.'' ''_request_'' (ct_name c) (map_range (ords (RangeRequests n)) (ct_requests c))
     @ hugepage_entries Q ''limits.'' ''_limit_'' (ct_name c) (map_range (ords (RangeLimits n)) (ct_limits c))"

definition needs_name :: "'q quantity_ops \<Rightarrow> range_orders \<Rightarrow> nat \<Rightarrow> 'q container \<Rightarrow> bool" where
  "needs_name Q ords n c \<longleftrightarrow>
     container_hugepages Q ords n c \<noteq> [] \<and> \<not> list_ex (\<lambda>e. ev_name e = EnvNameContainerName) (ct_env c)"

definition name_operations :: "'q quantity_ops \<Rightarrow> range_orders \<Rightarrow> nat \<Rightarrow> 'q container \<Rightarrow> 'q patch" where
  "name_operations Q ords n c =
     (if needs_name Q ords n c then addEnvVar [] n (ct_env c = []) EnvNameContainerName (ct_name c) else [])"

definition env_fit :: "'q container \<Rightarrow> 'q container_doc \<Rightarrow> bool" where
  "env_fit c x \<longleftrightarrow> cd_env x = omitempty (ct_env c)"

definition name_effect :: "'q quantity_ops \<Rightarrow> range_orders \<Rightarrow> nat \<Rightarrow> 'q container \<Rightarrow> 'q container_doc \<Rightarrow> 'q container_doc" where
  "name_effect Q ords n c x =
     (if needs_name Q ords n c
      then x\<lparr>cd_env := Some (ct_env c @ [\<lparr>ev_name = EnvNameContainerName, ev_value = ct_name c\<rparr>])\<rparr> else x)"

lemma process_containers_per_container:
  "process_containers Q ords i cs p hps =
     (p @ per_container (name_operations Q ords) i cs,
      hps @ concat (map (\<lambda>(n, c). container_hugepages Q ords n c) (enumerate i cs)))"
  by (induction cs arbitrary: i p hps)
    (auto simp: name_operations_def needs_name_def createEnvPatch_def addEnvVar_def container_hugepages_def Let_def)

interpretation names: container_effect "name_operations Q ords" env_fit "name_effect Q ords" for Q ords
proof
  fix n and d :: "'a pod_doc" and c :: "'a container"
  assume n: "n < length (pd_containers d)" and fit: "env_fit c (pd_containers d ! n)"
  show "apply_patch (name_operations Q ords n c) d = Some (on_container n (name_effect Q ords n c) d)"
    using n fit unfolding name_operations_def addEnvVar_def name_effect_def env_fit_def omitempty_def container_paths Let_def
    by (simp add: apply_container_operation add_to_container_def on_container_def)
qed

subsection \<open>Resources of the first container\<close>

text \<open>
  The entries to add: a resource with the quantities for requests and for limits.
\<close>

type_synonym 'q resource_entries = "(string \<times> 'q \<times> 'q) list"

definition append_entries :: "'q resource_entries \<Rightarrow> 'q patch" where
  "append_entries es = concat (map (\<lambda>(r, q, l). appendResource [] r q l) es)"

definition missing_resources :: "'q container \<Rightarrow> 'q patch" where
  "missing_resources c =
     (if ct_requests c = [] then patchEmptyResources [] 0 ''requests'' else [])
     @ (if ct_limits c = [] then patchEmptyResources [] 0 ''limits'' else [])"

definition created_entries ::
  "'q quantity_ops \<Rightarrow> range_orders \<Rightarrow> 'q container list \<Rightarrow> int64 gomap \<Rightarrow> 'q resource_entries" where
  "created_entries Q ords cs reqs =
     map (\<lambda>(r, q). (r, q, q)) (map_range (ords RangeResources) (getResourceList Q (drop_existing cs reqs)))"

definition added_to :: "'q quantity_ops \<Rightarrow> 'q gomap \<Rightarrow> string \<Rightarrow> 'q \<Rightarrow> 'q" where
  "added_to Q m r q = (case map_get m r of Some v \<Rightarrow> q_add Q q v | None \<Rightarrow> q)"

definition updated_entries ::
  "'q quantity_ops \<Rightarrow> range_orders \<Rightarrow> 'q container \<Rightarrow> int64 gomap \<Rightarrow> 'q resource_entries" where
  "updated_entries Q ords c reqs =
     map (\<lambda>(r, q). (r, added_to Q (ct_requests c) r q, added_to Q (ct_limits c) r q))
       (map_range (ords RangeResources) (getResourceList Q reqs))"

definition resource_entries_of ::
  "'q quantity_ops \<Rightarrow> range_orders \<Rightarrow> bool \<Rightarrow> 'q container list \<Rightarrow> int64 gomap \<Rightarrow> 'q resource_entries" where
  "resource_entries_of Q ords honor cs reqs =
     (if honor then updated_entries Q ords (hd cs) reqs else created_entries Q ords cs reqs)"

lemma appendResource_append: "appendResource p r q l = p @ appendResource [] r q l"
  by (simp add: appendResource_def)

lemma patchEmptyResources_append: "patchEmptyResources p n k = p @ patchEmptyResources [] n k"
  by (simp add: patchEmptyResources_def)

lemma foldl_appends: "(\<And>p x. f p x = p @ g x) \<Longrightarrow> foldl f p xs = p @ concat (map g xs)"
  by (induction xs arbitrary: p) auto

lemma createResourcePatch_appends:
  "createResourcePatch Q ords p (c # cs) reqs =
     Some (p @ missing_resources c @ append_entries (created_entries Q ords (c # cs) reqs))"
proof -
  let ?f = "\<lambda>p (r, q). appendResource p r q q" and ?g = "\<lambda>(r, q). appendResource [] r q q"
  have "foldl ?f p xs = p @ concat (map ?g xs)" for p :: "'a patch" and xs
    by (rule foldl_appends) (metis (no_types, lifting) appendResource_append case_prod_beta)
  moreover have "append_entries (created_entries Q ords (c # cs) reqs) =
      concat (map ?g (map_range (ords RangeResources) (getResourceList Q (drop_existing (c # cs) reqs))))"
    by (simp add: append_entries_def created_entries_def comp_def case_prod_unfold)
  moreover have "createResourcePatch Q ords p (c # cs) reqs =
      Some (foldl ?f (p @ missing_resources c) (map_range (ords RangeResources) (getResourceList Q (drop_existing (c # cs) reqs))))"
    by (simp add: createResourcePatch_def missing_resources_def Let_def patchEmptyResources_def)
  ultimately show ?thesis by simp
qed

lemma updateResourcePatch_appends:
  "updateResourcePatch Q ords p (c # cs) reqs =
     Some (p @ missing_resources c @ append_entries (updated_entries Q ords c reqs))"
proof -
  let ?f = "\<lambda>p (r, q). appendResource p r (added_to Q (ct_requests c) r q) (added_to Q (ct_limits c) r q)"
  let ?g = "\<lambda>(r, q). appendResource [] r (added_to Q (ct_requests c) r q) (added_to Q (ct_limits c) r q)"
  have "foldl ?f p xs = p @ concat (map ?g xs)" for p :: "'a patch" and xs
    by (rule foldl_appends) (metis (no_types, lifting) appendResource_append case_prod_beta)
  moreover have "append_entries (updated_entries Q ords c reqs) =
      concat (map ?g (map_range (ords RangeResources) (getResourceList Q reqs)))"
    by (simp add: append_entries_def updated_entries_def comp_def case_prod_unfold)
  moreover have "updateResourcePatch Q ords p (c # cs) reqs =
      Some (foldl ?f (p @ missing_resources c) (map_range (ords RangeResources) (getResourceList Q reqs)))"
    by (simp add: updateResourcePatch_def missing_resources_def Let_def added_to_def patchEmptyResources_def)
  ultimately show ?thesis by simp
qed

text \<open>The effect: every entry is set in both maps, which exist afterwards.\<close>

definition put_entries :: "'q gomap \<Rightarrow> (string \<times> 'q) list \<Rightarrow> 'q gomap" where
  "put_entries m es = foldl (\<lambda>m (r, q). map_put m r q) m es"

definition resource_effect :: "'q container \<Rightarrow> 'q resource_entries \<Rightarrow> 'q container_doc \<Rightarrow> 'q container_doc" where
  "resource_effect c es x =
     x\<lparr>cd_requests := Some (put_entries (ct_requests c) (map (\<lambda>(r, q, l). (r, q)) es)),
       cd_limits := Some (put_entries (ct_limits c) (map (\<lambda>(r, q, l). (r, l)) es))\<rparr>"

definition resource_fit :: "'q container list \<Rightarrow> 'q pod_doc \<Rightarrow> bool" where
  "resource_fit cs d \<longleftrightarrow> cs \<noteq> [] \<and> pd_containers d \<noteq> [] \<and>
     cd_requests (pd_containers d ! 0) = omitempty (ct_requests (hd cs)) \<and>
     cd_limits (pd_containers d ! 0) = omitempty (ct_limits (hd cs))"

lemma resource_tokens:
  "map unescape_token (go_split CHR ''/'' (''resources/requests/'' @ toSafeJSONPatchKey r)) = [''resources'', ''requests'', r]"
  "map unescape_token (go_split CHR ''/'' (''resources/limits/'' @ toSafeJSONPatchKey r)) = [''resources'', ''limits'', r]"
  "map unescape_token (go_split CHR ''/'' (''resources/'' @ toSafeJSONPatchKey ''requests'')) = [''resources'', ''requests'']"
  "map unescape_token (go_split CHR ''/'' (''resources/'' @ toSafeJSONPatchKey ''limits'')) = [''resources'', ''limits'']"
  by (simp_all add: go_split_no_sep toSafe_no_slash unescape_toSafe)

lemma put_entries_simps [simp]:
  "put_entries m [] = m" "put_entries m ((r, q) # es) = put_entries (map_put m r q) es"
  by (simp_all add: put_entries_def)

lemma on_container_id: "f (pd_containers d ! n) = pd_containers d ! n \<Longrightarrow> on_container n f d = d"
  by (simp add: on_container_def)

lemma missing_resource_apply:
  assumes "pd_containers d \<noteq> []"
  shows "apply_patch (patchEmptyResources [] 0 ''requests'') d = Some (on_container 0 (\<lambda>x. x\<lparr>cd_requests := Some []\<rparr>) d)"
    "apply_patch (patchEmptyResources [] 0 ''limits'') d = Some (on_container 0 (\<lambda>x. x\<lparr>cd_limits := Some []\<rparr>) d)"
  using assms unfolding patchEmptyResources_def container_paths
  by (simp_all add: apply_container_operation resource_tokens add_to_container_def add_resource_member_def on_container_def
      del: append.simps(2))

lemma missing_resources_apply:
  assumes "pd_containers d \<noteq> []" "cd_requests (pd_containers d ! 0) = omitempty (ct_requests c)"
    "cd_limits (pd_containers d ! 0) = omitempty (ct_limits c)"
  shows "apply_patch (missing_resources c) d =
     Some (on_container 0 (\<lambda>x. x\<lparr>cd_requests := Some (ct_requests c), cd_limits := Some (ct_limits c)\<rparr>) d)"
proof -
  let ?x = "pd_containers d ! 0"
  have same: "on_container 0 (\<lambda>x. x\<lparr>cd_requests := Some (ct_requests c), cd_limits := Some (ct_limits c)\<rparr>) d = on_container 0 g d"
    if "g ?x = ?x\<lparr>cd_requests := Some (ct_requests c), cd_limits := Some (ct_limits c)\<rparr>" for g
    using that by (simp add: on_container_def)
  consider "ct_requests c = []" "ct_limits c = []" | "ct_requests c = []" "ct_limits c \<noteq> []"
    | "ct_requests c \<noteq> []" "ct_limits c = []" | "ct_requests c \<noteq> []" "ct_limits c \<noteq> []"
    by blast
  then show ?thesis
  proof cases
    case 1
    then show ?thesis using assms by (simp add: missing_resources_def missing_resource_apply apply_patch_append)
  next
    case 2
    then show ?thesis
      using assms same [of "\<lambda>x. x\<lparr>cd_requests := Some []\<rparr>"]
      by (simp add: missing_resources_def missing_resource_apply omitempty_def)
  next
    case 3
    then show ?thesis
      using assms same [of "\<lambda>x. x\<lparr>cd_limits := Some []\<rparr>"]
      by (simp add: missing_resources_def missing_resource_apply omitempty_def)
  next
    case 4
    then show ?thesis
      using assms same [of "\<lambda>x. x"]
      by (simp add: missing_resources_def omitempty_def on_container_id)
  qed
qed

lemma append_entries_apply:
  assumes "pd_containers d \<noteq> []" "cd_requests (pd_containers d ! 0) = Some a" "cd_limits (pd_containers d ! 0) = Some b"
  shows "apply_patch (append_entries es) d =
     Some (on_container 0 (\<lambda>x. x\<lparr>cd_requests := Some (put_entries a (map (\<lambda>(r, q, l). (r, q)) es)),
                                  cd_limits := Some (put_entries b (map (\<lambda>(r, q, l). (r, l)) es))\<rparr>) d)"
  using assms
proof (induction es arbitrary: a b d)
  case (Cons e es)
  obtain r q l where e: "e = (r, q, l)" by (cases e)
  let ?d = "on_container 0 (\<lambda>x. x\<lparr>cd_requests := Some (map_put a r q), cd_limits := Some (map_put b r l)\<rparr>) d"
  have n: "0 < length (pd_containers d)" using Cons.prems by simp
  have "apply_patch (appendResource [] r q l) d = Some ?d"
    using n Cons.prems(2,3) unfolding appendResource_def Let_def container_paths
    by (simp add: apply_container_operation resource_tokens add_to_container_def add_resource_member_def on_container_def
        apply_patch_append del: append.simps(2))
  then show ?case
    using Cons.IH [of ?d "map_put a r q" "map_put b r l"] n
    by (simp add: e append_entries_def apply_patch_append)
qed (simp add: append_entries_def on_container_id)

definition resource_patch ::
  "'q quantity_ops \<Rightarrow> range_orders \<Rightarrow> bool \<Rightarrow> 'q container list \<Rightarrow> int64 gomap \<Rightarrow> 'q patch \<Rightarrow> 'q patch option" where
  "resource_patch Q ords honor cs reqs p =
     (if honor then updateResourcePatch Q ords p cs reqs else createResourcePatch Q ords p cs reqs)"

interpretation resources: patch_effect "resource_patch Q ords honor cs reqs" "resource_fit cs"
    "on_container 0 (resource_effect (hd cs) (resource_entries_of Q ords honor cs reqs))"
  for Q ords honor cs reqs
proof
  fix d
  assume fit: "resource_fit cs d"
  then obtain c cs' where cs: "cs = c # cs'"
    by (cases cs) (auto simp: resource_fit_def)
  let ?es = "resource_entries_of Q ords honor cs reqs"
  let ?ops = "missing_resources c @ append_entries ?es"
  have "resource_patch Q ords honor cs reqs p = Some (p @ ?ops)" for p
    by (simp add: resource_patch_def cs createResourcePatch_appends updateResourcePatch_appends resource_entries_of_def)
  moreover have "apply_patch ?ops d = Some (on_container 0 (resource_effect (hd cs) ?es) d)"
    using fit append_entries_apply [of "on_container 0 (\<lambda>x. x\<lparr>cd_requests := Some (ct_requests c), cd_limits := Some (ct_limits c)\<rparr>) d"
        "ct_requests c" "ct_limits c" ?es]
    by (simp add: resource_fit_def cs apply_patch_append missing_resources_apply resource_effect_def [abs_def])
  ultimately show "\<exists>ops. (\<forall>p. resource_patch Q ords honor cs reqs p = Some (p @ ops)) \<and>
      apply_patch ops d = Some (on_container 0 (resource_effect (hd cs) ?es) d)"
    by blast
qed

subsection \<open>The volume\<close>

definition has_volume :: "'q pod \<Rightarrow> bool" where
  "has_volume pod \<longleftrightarrow> list_ex (\<lambda>v. vol_name v = podNetInfoVolumeName) (pod_volumes pod)"

definition downward_volume :: "'q quantity_ops \<Rightarrow> hugepage_resource_data list \<Rightarrow> 'q pod \<Rightarrow> 'q volume" where
  "downward_volume Q hps pod =
     \<lparr>vol_name = podNetInfoVolumeName, vol_downward = Some (downward_items Q hps pod)\<rparr>"

definition volume_effect :: "'q quantity_ops \<Rightarrow> hugepage_resource_data list \<Rightarrow> 'q pod \<Rightarrow> 'q pod_doc \<Rightarrow> 'q pod_doc" where
  "volume_effect Q hps pod d =
     (if has_volume pod then d else d\<lparr>pd_volumes := Some (pod_volumes pod @ [downward_volume Q hps pod])\<rparr>)"

definition volume_fit :: "'q pod \<Rightarrow> 'q pod_doc \<Rightarrow> bool" where
  "volume_fit pod d \<longleftrightarrow> pd_volumes d = omitempty (pod_volumes pod)"

lemma pod_pointers:
  "pointer ''/spec/volumes'' = [''spec'', ''volumes'']"
  "pointer ''/spec/volumes/-'' = [''spec'', ''volumes'', ''-'']"
  "pointer ''/spec/nodeSelector'' = [''spec'', ''nodeSelector'']"
  "pointer annotations_path = [''metadata'', ''annotations'']"
  by code_simp+

interpretation volume: patch_effect "\<lambda>p. Some (addVolDownwardAPI Q p hps pod)" "volume_fit pod" "volume_effect Q hps pod"
  for Q hps pod
proof
  fix d
  assume fit: "volume_fit pod d"
  let ?empty = "add_operation ''/spec/volumes'' (PvVolumes [])"
  let ?add = "add_operation ''/spec/volumes/-'' (PvVolume (downward_volume Q hps pod))"
  let ?ops = "if has_volume pod then [] else if pod_volumes pod = [] then [?empty, ?add] else [?add]"
  have "addVolDownwardAPI Q p hps pod = p @ ?ops" for p
    by (simp add: addVolDownwardAPI_def has_volume_def downward_volume_def Let_def)
  moreover have "apply_patch ?ops d = Some (volume_effect Q hps pod d)"
    using fit by (simp add: volume_fit_def volume_effect_def omitempty_def apply_operation_def add_operation_def
      pod_pointers apply_add_def)
  ultimately show "\<exists>ops. (\<forall>p. Some (addVolDownwardAPI Q p hps pod) = Some (p @ ops)) \<and>
      apply_patch ops d = Some (volume_effect Q hps pod d)"
    by blast
qed

text \<open>The mounts of all containers, as a builder, and the two in sequence.\<close>

definition mounts_effect :: "'q container list \<Rightarrow> 'q pod_doc \<Rightarrow> 'q pod_doc" where
  "mounts_effect cs d = d\<lparr>pd_containers := zip_from mount_effect 0 cs (pd_containers d)\<rparr>"

definition mounts_fit :: "'q container list \<Rightarrow> 'q pod_doc \<Rightarrow> bool" where
  "mounts_fit cs d \<longleftrightarrow> list_all2 mount_fit cs (pd_containers d)"

interpretation all_mounts: patch_effect "\<lambda>p. Some (addVolumeMount p cs)" "mounts_fit cs" "mounts_effect cs" for cs
proof
  fix d
  assume "mounts_fit cs d"
  then show "\<exists>ops. (\<forall>p. Some (addVolumeMount p cs) = Some (p @ ops)) \<and> apply_patch ops d = Some (mounts_effect cs d)"
    using mounts.per_container_applies [of cs 0 d]
    by (simp add: addVolumeMount_def add_mounts_per_container mounts_fit_def mounts_effect_def)
qed

interpretation volume_patch: patch_sequence
  "\<lambda>p. Some (addVolumeMount p (pod_containers pod))" "mounts_fit (pod_containers pod)" "mounts_effect (pod_containers pod)"
  "\<lambda>p. Some (addVolDownwardAPI Q p hps pod)" "volume_fit pod" "volume_effect Q hps pod"
  for Q hps pod
  by unfold_locales

subsection \<open>Names, node selector, annotations\<close>

definition names_effect :: "'q quantity_ops \<Rightarrow> range_orders \<Rightarrow> 'q container list \<Rightarrow> 'q pod_doc \<Rightarrow> 'q pod_doc" where
  "names_effect Q ords cs d = d\<lparr>pd_containers := zip_from (name_effect Q ords) 0 cs (pd_containers d)\<rparr>"

definition names_fit :: "'q container list \<Rightarrow> 'q pod_doc \<Rightarrow> bool" where
  "names_fit cs d \<longleftrightarrow> list_all2 env_fit cs (pd_containers d)"

interpretation all_names: patch_effect "\<lambda>p. Some (fst (processHugepagesForDownwardAPI Q ords p cs))"
    "names_fit cs" "names_effect Q ords cs" for Q ords cs
proof
  fix d
  assume "names_fit cs d"
  then show "\<exists>ops. (\<forall>p. Some (fst (processHugepagesForDownwardAPI Q ords p cs)) = Some (p @ ops)) \<and>
      apply_patch ops d = Some (names_effect Q ords cs d)"
    using names.per_container_applies [of cs 0 d Q ords]
    by (simp add: processHugepagesForDownwardAPI_def process_containers_per_container names_fit_def names_effect_def)
qed

definition merged_selector :: "string gomap \<Rightarrow> string gomap \<Rightarrow> string gomap" where
  "merged_selector existing desired = map_put_all (map_put_all [] existing) desired"

definition selector_effect :: "string gomap \<Rightarrow> string gomap \<Rightarrow> 'q pod_doc \<Rightarrow> 'q pod_doc" where
  "selector_effect existing desired d =
     (if merged_selector existing desired = [] then d
      else d\<lparr>pd_node_selector := Some (merged_selector existing desired)\<rparr>)"

interpretation selector: patch_effect "\<lambda>p. Some (createNodeSelectorPatch p existing desired)" "\<lambda>d. True"
    "selector_effect existing desired" for existing desired
proof
  fix d :: "'a pod_doc"
  show "\<exists>ops. (\<forall>p. Some (createNodeSelectorPatch p existing desired) = Some (p @ ops)) \<and>
      apply_patch ops d = Some (selector_effect existing desired d)"
    by (rule exI [of _ "if merged_selector existing desired = [] then []
          else [add_operation ''/spec/nodeSelector'' (PvStrings (merged_selector existing desired))]"])
      (simp add: createNodeSelectorPatch_def merged_selector_def selector_effect_def Let_def
        apply_operation_def add_operation_def pod_pointers apply_add_def)
qed

definition annotations_effect :: "'q pod \<Rightarrow> string gomap \<Rightarrow> 'q pod_doc \<Rightarrow> 'q pod_doc" where
  "annotations_effect pod annotations d =
     (if annotations = [] then d
      else d\<lparr>pd_annotations := Some (add_missing annotations (pod_annotations pod))\<rparr>)"

interpretation user_annotations: patch_effect "\<lambda>p. appendUserDefinedPatch p pod udp" "\<lambda>d. collect_patches udp [] \<noteq> None"
    "annotations_effect pod (the (collect_patches udp []))" for pod udp
proof
  fix d
  assume "collect_patches udp [] \<noteq> None"
  then obtain a where a: "collect_patches udp [] = Some a" by blast
  show "\<exists>ops. (\<forall>p. appendUserDefinedPatch p pod udp = Some (p @ ops)) \<and>
      apply_patch ops d = Some (annotations_effect pod (the (collect_patches udp [])) d)"
    by (rule exI [of _ "if a = [] then [] else [add_operation annotations_path (PvStrings (add_missing a (pod_annotations pod)))]"])
      (simp add: a appendUserDefinedPatch_def appendAddAnnotPatch_def annotations_effect_def
        apply_operation_def add_operation_def pod_pointers apply_add_def)
qed

section \<open>What the effects amount to\<close>

subsection \<open>Requested resources\<close>

definition asked_for :: "'q container list \<Rightarrow> string \<Rightarrow> bool" where
  "asked_for cs r \<longleftrightarrow> list_ex (\<lambda>c. map_get (ct_limits c) r \<noteq> None \<or> map_get (ct_requests c) r \<noteq> None) cs"

lemma drop_in_containers:
  "foldl (\<lambda>m c. let m = (if map_get (ct_limits c) r \<noteq> None then map_del m r else m)
                 in if map_get (ct_requests c) r \<noteq> None then map_del m r else m) m cs =
   (if asked_for cs r then map_del m r else m)"
proof (induction cs arbitrary: m)
  case (Cons c cs)
  have "map_del (map_del m r) r = map_del m r"
    by (simp add: map_del_def delete_idem)
  with Cons show ?case
    by (simp add: asked_for_def Let_def)
qed (simp add: asked_for_def)

lemma drop_existing_fold:
  "drop_existing cs reqs = foldl (\<lambda>m r. if asked_for cs r then map_del m r else m) reqs (map_keys reqs)"
  unfolding drop_existing_def drop_in_containers ..

lemma drop_keys_get:
  "map_get (foldl (\<lambda>m r. if P r then map_del m r else m) m ks) x = (if P x \<and> x \<in> set ks then None else map_get m x)"
  by (induction ks arbitrary: m) (auto simp: map_get_del)

lemma drop_keys_wf: "wf_map m \<Longrightarrow> wf_map (foldl (\<lambda>m r. if P r then map_del m r else m) m ks)"
  by (induction ks arbitrary: m) (auto simp: wf_map_del)

lemma drop_existing_get:
  "map_get (drop_existing cs reqs) r = (if asked_for cs r then None else map_get reqs r)"
  by (auto simp: drop_existing_fold drop_keys_get map_keys_get)

lemma drop_existing_wf: "wf_map reqs \<Longrightarrow> wf_map (drop_existing cs reqs)"
  by (simp add: drop_existing_fold drop_keys_wf)

lemma getResourceList_get:
  "map_get (getResourceList Q reqs) r = map_option (\<lambda>n. q_new Q n DecimalSI) (map_get reqs r)"
  by (simp add: getResourceList_def map_of_map)

lemma getResourceList_wf: "wf_map reqs \<Longrightarrow> wf_map (getResourceList Q reqs)"
  by (simp add: wf_map_def map_keys_def getResourceList_def comp_def case_prod_unfold)

lemma put_entries_get:
  "distinct (map fst es) \<Longrightarrow>
   map_get (put_entries m es) r = (case map_of es r of None \<Rightarrow> map_get m r | Some q \<Rightarrow> Some q)"
proof (induction es arbitrary: m)
  case (Cons e es)
  then have "map_of es (fst e) = None"
    by (simp add: map_of_eq_None_iff)
  with Cons show ?case
    by (cases e) (auto simp: map_get_put split: option.splits)
qed simp

text \<open>Entries made of a map in some order, looked up in the resulting map.\<close>

lemma put_range_get:
  assumes "lawful_order ord" "wf_map m"
  shows "map_get (put_entries old (map (\<lambda>(r, q). (r, f r q)) (map_range ord m))) r =
     (case map_get m r of None \<Rightarrow> map_get old r | Some q \<Rightarrow> Some (f r q))"
proof -
  have keys: "map fst (map (\<lambda>(r, q). (r, f r q)) (map_range ord m)) = map fst (map_range ord m)"
    by (simp add: case_prod_unfold)
  have "map_of (map (\<lambda>(r, q). (r, f r q)) xs) r = map_option (f r) (map_of xs r)" for xs
    by (induction xs) auto
  then have "map_of (map (\<lambda>(r, q). (r, f r q)) (map_range ord m)) r = map_option (f r) (map_of m r)"
    by (simp add: map_of_map_range [OF assms])
  then show ?thesis
    using put_entries_get [of "map (\<lambda>(r, q). (r, f r q)) (map_range ord m)" old r]
      distinct_map_range [OF assms] unfolding keys by (auto split: option.splits)
qed

lemma document_fits:
  "pod_containers pod \<noteq> [] \<Longrightarrow> resource_fit (pod_containers pod) (document_of pod)"
  "volume_fit pod (document_of pod)"
  "mounts_fit (pod_containers pod) (document_of pod)"
  "names_fit (pod_containers pod) (document_of pod)"
  by (auto simp: resource_fit_def volume_fit_def mounts_fit_def names_fit_def mount_fit_def env_fit_def
      document_of_def container_doc_of_def hd_conv_nth list_all2_map2 list.rel_refl_strong)

text \<open>The builders touch different members, so that what one does keeps the others' documents fitting.\<close>

lemma resource_effect_keeps:
  "cd_mounts (resource_effect c es x) = cd_mounts x" "cd_env (resource_effect c es x) = cd_env x"
  by (simp_all add: resource_effect_def)

lemma name_effect_keeps: "cd_mounts (name_effect Q ords n c x) = cd_mounts x"
  by (simp add: name_effect_def)

lemma nth_update_self: "i < length xs \<Longrightarrow> xs[n := f (xs ! n)] ! i = (if i = n then f (xs ! i) else xs ! i)"
  by (cases "i = n") simp_all

lemma fits_kept:
  "names_fit cs d \<Longrightarrow> names_fit cs (on_container n (resource_effect c es) d)"
  "mounts_fit cs d \<Longrightarrow> mounts_fit cs (on_container n (resource_effect c es) d)"
  "mounts_fit cs d \<Longrightarrow> mounts_fit cs (names_effect Q ords cs d)"
  "volume_fit pod d \<Longrightarrow> volume_fit pod (on_container n (resource_effect c es) d)"
  "volume_fit pod d \<Longrightarrow> volume_fit pod (names_effect Q ords cs d)"
  "volume_fit pod d \<Longrightarrow> volume_fit pod (mounts_effect cs d)"
  by (auto simp: names_fit_def mounts_fit_def volume_fit_def list_all2_conv_all_nth on_container_def names_effect_def
      mounts_effect_def mount_fit_def env_fit_def nth_update_self nth_zip_from resource_effect_keeps name_effect_keeps)

text \<open>
  The expected resources of the first container, on the lookups: \<open>old\<close> is what the pod
  has there.
\<close>

definition expected_created :: "'q quantity_ops \<Rightarrow> 'q container list \<Rightarrow> int64 gomap \<Rightarrow> 'q gomap \<Rightarrow> string \<Rightarrow> 'q option" where
  "expected_created Q cs reqs old r =
     (case map_get reqs r of
        Some n \<Rightarrow> if asked_for cs r then map_get old r else Some (q_new Q n DecimalSI)
      | None \<Rightarrow> map_get old r)"

definition expected_updated :: "'q quantity_ops \<Rightarrow> int64 gomap \<Rightarrow> 'q gomap \<Rightarrow> string \<Rightarrow> 'q option" where
  "expected_updated Q reqs old r =
     (case map_get reqs r of
        Some n \<Rightarrow> Some (case map_get old r of None \<Rightarrow> q_new Q n DecimalSI | Some v \<Rightarrow> q_add Q (q_new Q n DecimalSI) v)
      | None \<Rightarrow> map_get old r)"

definition expected_resources ::
  "'q quantity_ops \<Rightarrow> bool \<Rightarrow> 'q container list \<Rightarrow> int64 gomap \<Rightarrow> 'q gomap \<Rightarrow> string \<Rightarrow> 'q option" where
  "expected_resources Q honor cs reqs old r =
     (if honor then expected_updated Q reqs old r else expected_created Q cs reqs old r)"

lemma entries_projections:
  "map (\<lambda>(r, q, l). (r, q)) (map (\<lambda>(r, q). (r, f r q, g r q)) xs) = map (\<lambda>(r, q). (r, f r q)) xs"
  "map (\<lambda>(r, q, l). (r, l)) (map (\<lambda>(r, q). (r, f r q, g r q)) xs) = map (\<lambda>(r, q). (r, g r q)) xs"
  by (simp_all add: case_prod_unfold comp_def)

lemma created_entries_get:
  assumes "lawful_orders ords" "wf_map reqs"
  shows
    "map_get (put_entries old (map (\<lambda>(r, q, l). (r, q)) (created_entries Q ords cs reqs))) r = expected_created Q cs reqs old r"
    "map_get (put_entries old (map (\<lambda>(r, q, l). (r, l)) (created_entries Q ords cs reqs))) r = expected_created Q cs reqs old r"
  unfolding created_entries_def entries_projections [where f = "\<lambda>r q. q" and g = "\<lambda>r q. q"]
    put_range_get [where f = "\<lambda>r q. q", OF assms(1) [unfolded lawful_orders_def, rule_format] getResourceList_wf [OF drop_existing_wf [OF assms(2)]]]
  by (auto simp: expected_created_def getResourceList_get drop_existing_get split: option.splits)

lemma updated_entries_get:
  assumes "lawful_orders ords" "wf_map reqs"
  shows
    "map_get (put_entries (ct_requests c) (map (\<lambda>(r, q, l). (r, q)) (updated_entries Q ords c reqs))) r =
       expected_updated Q reqs (ct_requests c) r"
    "map_get (put_entries (ct_limits c) (map (\<lambda>(r, q, l). (r, l)) (updated_entries Q ords c reqs))) r =
       expected_updated Q reqs (ct_limits c) r"
  unfolding updated_entries_def entries_projections
    put_range_get [OF assms(1) [unfolded lawful_orders_def, rule_format] getResourceList_wf [OF assms(2)]]
  by (auto simp: expected_updated_def getResourceList_get added_to_def split: option.splits)

lemma resource_entries_get:
  assumes "lawful_orders ords" "wf_map reqs"
  shows
    "map_get (put_entries (ct_requests (hd cs)) (map (\<lambda>(r, q, l). (r, q)) (resource_entries_of Q ords honor cs reqs))) r =
       expected_resources Q honor cs reqs (ct_requests (hd cs)) r"
    "map_get (put_entries (ct_limits (hd cs)) (map (\<lambda>(r, q, l). (r, l)) (resource_entries_of Q ords honor cs reqs))) r =
       expected_resources Q honor cs reqs (ct_limits (hd cs)) r"
  by (simp_all add: resource_entries_of_def expected_resources_def created_entries_get [OF assms] updated_entries_get [OF assms])

subsection \<open>Hugepages\<close>

definition all_hugepages :: "'q quantity_ops \<Rightarrow> range_orders \<Rightarrow> 'q container list \<Rightarrow> hugepage_resource_data list" where
  "all_hugepages Q ords cs = concat (map (\<lambda>(n, c). container_hugepages Q ords n c) (enumerate 0 cs))"

lemma process_hugepages_snd: "snd (processHugepagesForDownwardAPI Q ords p cs) = all_hugepages Q ords cs"
  by (simp add: processHugepagesForDownwardAPI_def process_containers_per_container all_hugepages_def)

definition hugepage_item :: "string \<Rightarrow> string \<Rightarrow> string \<Rightarrow> string \<Rightarrow> string \<Rightarrow> hugepage_resource_data" where
  "hugepage_item prefix word cname r sz =
     \<lparr>hp_resource_name = prefix @ r, hp_container_name = cname,
      hp_path = ''hugepages_'' @ replace_char CHR ''i'' [] sz @ word @ cname\<rparr>"

lemma set_hugepage_entries:
  "hp \<in> set (hugepage_entries Q prefix word cname es) \<longleftrightarrow>
   (\<exists>r q sz. (r, q) \<in> set es \<and> hugepage_match r = Some sz \<and> \<not> q_is_zero Q q \<and>
      hp = hugepage_item prefix word cname r sz)"
  by (force simp: hugepage_entries_def hugepage_item_def split: option.splits if_splits)

text \<open>The maps of a container have distinct keys.\<close>

definition wf_container :: "'q container \<Rightarrow> bool" where
  "wf_container c \<longleftrightarrow> wf_map (ct_requests c) \<and> wf_map (ct_limits c)"

definition container_hugepage :: "'q quantity_ops \<Rightarrow> 'q container \<Rightarrow> hugepage_resource_data \<Rightarrow> bool" where
  "container_hugepage Q c hp \<longleftrightarrow>
     (\<exists>r q sz. hugepage_match r = Some sz \<and> \<not> q_is_zero Q q \<and>
        (map_get (ct_requests c) r = Some q \<and> hp = hugepage_item ''requests.'' ''_request_'' (ct_name c) r sz \<or>
         map_get (ct_limits c) r = Some q \<and> hp = hugepage_item ''limits.'' ''_limit_'' (ct_name c) r sz))"

lemma set_container_hugepages:
  assumes "lawful_orders ords" "wf_container c"
  shows "hp \<in> set (container_hugepages Q ords n c) \<longleftrightarrow> container_hugepage Q c hp"
proof -
  have "set (map_range (ords site) m) = set m" if "wf_map m" for site and m :: "'a gomap"
    using assms(1) that by (simp add: lawful_orders_def set_map_range)
  then show ?thesis
    using assms(2)
    by (simp add: container_hugepages_def set_hugepage_entries container_hugepage_def wf_container_def wf_map_get) blast
qed

lemma set_all_hugepages:
  assumes "lawful_orders ords" "list_all wf_container cs"
  shows "hp \<in> set (all_hugepages Q ords cs) \<longleftrightarrow> (\<exists>c\<in>set cs. container_hugepage Q c hp)"
proof -
  have "hp \<in> set (all_hugepages Q ords cs) \<longleftrightarrow> (\<exists>n<length cs. hp \<in> set (container_hugepages Q ords n (cs ! n)))"
    by (auto simp: all_hugepages_def in_set_enumerate_eq Bex_def)
  also have "\<dots> \<longleftrightarrow> (\<exists>n<length cs. container_hugepage Q (cs ! n) hp)"
    using assms by (metis list_all_length set_container_hugepages)
  also have "\<dots> \<longleftrightarrow> (\<exists>c\<in>set cs. container_hugepage Q c hp)"
    by (metis in_set_conv_nth)
  finally show ?thesis .
qed

subsection \<open>Selector and annotations\<close>

lemma map_put_all_get:
  "map_get (map_put_all m new) k = (case map_get (rev new) k of None \<Rightarrow> map_get m k | Some v \<Rightarrow> Some v)"
  unfolding map_put_all_def
  by (induction new arbitrary: m rule: rev_induct) (auto simp: map_get_put split: option.splits)

lemma map_of_rev_wf: "wf_map m \<Longrightarrow> map_of (rev m) = map_of m"
  by (metis wf_map_def map_keys_def distinct_rev rev_map map_of_inject_set set_rev)

lemma merged_selector_get:
  assumes "wf_map existing" "wf_map desired"
  shows "map_get (merged_selector existing desired) k =
     (case map_get desired k of None \<Rightarrow> map_get existing k | Some v \<Rightarrow> Some v)"
  by (auto simp: merged_selector_def map_put_all_get map_of_rev_wf assms split: option.splits)

lemma add_missing_get:
  "map_get (add_missing a existing) k = (case map_get a k of None \<Rightarrow> map_get existing k | Some v \<Rightarrow> Some v)"
  unfolding add_missing_def
proof (induction existing arbitrary: a)
  case (Cons p existing)
  then show ?case
    by (cases p) (auto simp: map_get_put split: option.splits)
qed (simp split: option.splits)

lemma volume_effect_keeps:
  "(\<And>x m. f (x\<lparr>cd_mounts := m\<rparr>) = f x) \<Longrightarrow>
   map f (pd_containers (volume_effect Q hps pod (mounts_effect (pod_containers pod) (document_of pod)))) =
   map f (pd_containers (document_of pod))"
  by (auto simp: volume_effect_def mounts_effect_def document_of_def mount_effect_def nth_zip_from intro!: nth_equalityI)

lemma no_mounts: "ct_mounts c = [] \<Longrightarrow> \<not> has_mount c"
  by (simp add: has_mount_def)

lemma no_volumes: "pod_volumes pod = [] \<Longrightarrow> \<not> has_volume pod"
  by (simp add: has_volume_def)

section \<open>Examples\<close>

text \<open>Quantities as integers, and a pod with two containers, for concrete instances.\<close>

definition int_quantities :: "int quantity_ops" where
  "int_quantities = \<lparr>q_new = (\<lambda>n format. sint n), q_add = (+), q_is_zero = (\<lambda>q. q = 0)\<rparr>"

definition sample_container :: "string \<Rightarrow> int gomap \<Rightarrow> int gomap \<Rightarrow> int container" where
  "sample_container name requests limits =
     \<lparr>ct_name = name, ct_requests = requests, ct_limits = limits, ct_mounts = [], ct_env = []\<rparr>"

definition sample_pod :: "int pod" where
  "sample_pod =
     \<lparr>pod_namespace = ''default'', pod_name = ''p'', pod_labels = [(''app'', ''x'')],
      pod_annotations = [(networksAnnotationKey, ''net1'')], pod_owners = [], pod_volumes = [],
      pod_containers = [sample_container ''a'' [(''cpu'', 4), (''hw/vf'', 1)] [],
                        sample_container ''b'' [] [(''hugepages-1Gi'', 2)]],
      pod_node_selector = [(''zone'', ''east'')]\<rparr>"

lemma sample_pod_containers:
  "pod_containers sample_pod = sample_container ''a'' [(''cpu'', 4), (''hw/vf'', 1)] [] # [sample_container ''b'' [] [(''hugepages-1Gi'', 2)]]"
  by (simp add: sample_pod_def)

lemma sample_wf: "list_all wf_container (pod_containers sample_pod)"
  by code_simp

lemma lawful_identity: "lawful_orders (\<lambda>site ks. ks)" "lawful_orders (\<lambda>site. rev)"
  by (simp_all add: lawful_orders_def lawful_order_id lawful_order_rev)

section \<open>Properties\<close>

text \<open>
  C26: escaping a resource name makes one token of a JSON pointer, and the API server reads the
  name back from it.
\<close>

theorem json_pointer_roundtrip:
  "unescape_token (toSafeJSONPatchKey s) = s \<and> CHR ''/'' \<notin> set (toSafeJSONPatchKey s)"
  by (simp add: unescape_toSafe toSafe_no_slash)

definition resources_as :: "(string \<Rightarrow> 'q option) \<Rightarrow> (string \<Rightarrow> 'q option) \<Rightarrow> 'q pod_doc \<Rightarrow> 'q pod_doc \<Rightarrow> bool" where
  "resources_as req lim d d' \<longleftrightarrow>
     (\<exists>m m'. d' = on_container 0 (\<lambda>x. x\<lparr>cd_requests := Some m, cd_limits := Some m'\<rparr>) d \<and>
             map_of m = req \<and> map_of m' = lim)"

lemma resource_patch_as:
  assumes "pod_containers pod = c # cs" "lawful_orders ords" "wf_map reqs"
  shows "\<exists>patch d. resource_patch Q ords honor (c # cs) reqs [] = Some patch \<and>
     apply_patch patch (document_of pod) = Some d \<and>
     resources_as (expected_resources Q honor (c # cs) reqs (ct_requests c))
       (expected_resources Q honor (c # cs) reqs (ct_limits c)) (document_of pod) d"
proof -
  have "resource_fit (c # cs) (document_of pod)"
    using document_fits(1) [of pod] assms(1) by simp
  from resources.build_after [OF apply_patch.simps(1) this, of Q ords honor reqs]
  show ?thesis
    using resource_entries_get [OF assms(2,3), of "c # cs" Q honor]
    unfolding resources_as_def resource_effect_def [abs_def] by fastforce
qed

text \<open>
  C3: injecting without regard to existing resources. Applied to the pod, the patch gives the
  first container, in requests and in limits, exactly the requested resources that no container
  asks for, each with its number, whatever the order of the maps; all others stay as they are,
  and so does the rest of the pod.
\<close>

theorem created_resources:
  assumes "pod_containers pod = c # cs" "lawful_orders ords" "wf_map reqs"
  shows "\<exists>patch d. createResourcePatch Q ords [] (pod_containers pod) reqs = Some patch \<and>
     apply_patch patch (document_of pod) = Some d \<and>
     resources_as (expected_created Q (c # cs) reqs (ct_requests c)) (expected_created Q (c # cs) reqs (ct_limits c))
       (document_of pod) d"
  using resource_patch_as [OF assms, of Q False]
  by (simp add: resource_patch_def expected_resources_def [abs_def] assms(1))

theorem created_resources_witness:
  "(\<exists>patch d. createResourcePatch int_quantities (\<lambda>site. rev) [] (pod_containers sample_pod) [(''hw/vf'', 2), (''hw/pf'', 3)] = Some patch \<and>
     apply_patch patch (document_of sample_pod) = Some d \<and>
     resources_as
       (expected_created int_quantities (pod_containers sample_pod) [(''hw/vf'', 2), (''hw/pf'', 3)] [(''cpu'', 4), (''hw/vf'', 1)])
       (expected_created int_quantities (pod_containers sample_pod) [(''hw/vf'', 2), (''hw/pf'', 3)] [])
       (document_of sample_pod) d) \<and>
   map (expected_created int_quantities (pod_containers sample_pod) [(''hw/vf'', 2), (''hw/pf'', 3)] [(''cpu'', 4), (''hw/vf'', 1)])
     [''cpu'', ''hw/vf'', ''hw/pf''] = [Some 4, Some 1, Some 3]"
  (is "?inst \<and> ?vals")
proof
  have wf: "wf_map [(''hw/vf'', 2 :: int64), (''hw/pf'', 3)]"
    by code_simp
  show ?inst
    using created_resources [OF sample_pod_containers lawful_identity(2) wf, of int_quantities]
    by (simp add: sample_pod_containers sample_container_def)
  show ?vals
    by code_simp
qed

text \<open>
  C4: injecting on top of existing resources. The first container's requests and limits for a
  requested resource become the requested number, added to what the container has of it; all
  other resources and the rest of the pod stay as they are.
\<close>

theorem updated_resources:
  assumes "pod_containers pod = c # cs" "lawful_orders ords" "wf_map reqs"
  shows "\<exists>patch d. updateResourcePatch Q ords [] (pod_containers pod) reqs = Some patch \<and>
     apply_patch patch (document_of pod) = Some d \<and>
     resources_as (expected_updated Q reqs (ct_requests c)) (expected_updated Q reqs (ct_limits c))
       (document_of pod) d"
  using resource_patch_as [OF assms, of Q True]
  by (simp add: resource_patch_def expected_resources_def [abs_def] assms(1))

theorem updated_resources_witness:
  "(\<exists>patch d. updateResourcePatch int_quantities (\<lambda>site. rev) [] (pod_containers sample_pod) [(''hw/vf'', 2)] = Some patch \<and>
     apply_patch patch (document_of sample_pod) = Some d \<and>
     resources_as (expected_updated int_quantities [(''hw/vf'', 2)] [(''cpu'', 4), (''hw/vf'', 1)])
       (expected_updated int_quantities [(''hw/vf'', 2)] []) (document_of sample_pod) d) \<and>
   expected_updated int_quantities [(''hw/vf'', 2)] [(''cpu'', 4), (''hw/vf'', 1)] ''hw/vf'' = Some 3 \<and>
   expected_updated int_quantities [(''hw/vf'', 2)] [] ''hw/vf'' = Some 2"
  (is "?inst \<and> ?vals")
proof
  have wf: "wf_map [(''hw/vf'', 2 :: int64)]"
    by code_simp
  show ?inst
    using updated_resources [OF sample_pod_containers lawful_identity(2) wf, of int_quantities]
    by (simp add: sample_container_def)
  show ?vals
    by (simp add: expected_updated_def int_quantities_def)
qed

text \<open>
  C19: the Downward API volume. Applied to the pod, the patch mounts the volume podnetinfo in
  every container that has no mount of that name, keeping the mounts there are, and adds the
  volume itself, with its items, unless the pod has one of that name; nothing else changes.
\<close>

theorem volume_patch_applied:
  "\<exists>d. apply_patch (createVolPatch Q [] hps pod) (document_of pod) = Some d \<and>
     pd_volumes d = Some (if has_volume pod then pod_volumes pod else pod_volumes pod @ [downward_volume Q hps pod]) \<and>
     map cd_mounts (pd_containers d) =
       map (\<lambda>c. Some (if has_mount c then ct_mounts c else ct_mounts c @ [downward_mount])) (pod_containers pod) \<and>
     (pd_annotations d, pd_node_selector d, map cd_requests (pd_containers d), map cd_limits (pd_containers d), map cd_env (pd_containers d)) =
     (let d0 = document_of pod in
      (pd_annotations d0, pd_node_selector d0, map cd_requests (pd_containers d0), map cd_limits (pd_containers d0), map cd_env (pd_containers d0)))"
proof -
  let ?cs = "pod_containers pod"
  let ?d = "volume_effect Q hps pod (mounts_effect ?cs (document_of pod))"
  have "volume_fit pod (mounts_effect ?cs (document_of pod))"
    using document_fits(2) by (simp add: volume_fit_def mounts_effect_def)
  with volume_patch.seq.build_after [OF apply_patch.simps(1), of pod "document_of pod" Q hps]
  have "apply_patch (createVolPatch Q [] hps pod) (document_of pod) = Some ?d"
    by (simp add: createVolPatch_def document_fits(3))
  moreover have "pd_volumes ?d = Some (if has_volume pod then pod_volumes pod else pod_volumes pod @ [downward_volume Q hps pod])"
    "map cd_mounts (pd_containers ?d) =
       map (\<lambda>c. Some (if has_mount c then ct_mounts c else ct_mounts c @ [downward_mount])) ?cs"
    by (auto simp: volume_effect_def mounts_effect_def document_of_def omitempty_def mount_effect_def
        container_doc_of_def nth_zip_from no_mounts no_volumes intro!: nth_equalityI)
  moreover have "pd_annotations ?d = pd_annotations (document_of pod)" "pd_node_selector ?d = pd_node_selector (document_of pod)"
    by (simp_all add: volume_effect_def mounts_effect_def)
  ultimately show ?thesis
    by (intro exI [of _ ?d]) (simp add: Let_def volume_effect_keeps)
qed

text \<open>
  C18: hugepages. The entries collected for the volume are, for every container, one for each
  resource of its requests and of its limits whose name is hugepages- and a size and whose
  quantity is not zero, and none else, in whatever order the maps are visited; the patch adds
  the variable CONTAINER_NAME with the container's name to exactly the containers with such a
  resource that do not define the variable.
\<close>

theorem hugepages_processed:
  assumes "lawful_orders ords" "list_all wf_container (pod_containers pod)"
  shows "(hp \<in> set (snd (processHugepagesForDownwardAPI Q ords patch (pod_containers pod))) \<longleftrightarrow>
       (\<exists>c\<in>set (pod_containers pod). container_hugepage Q c hp)) \<and>
     (\<exists>d. apply_patch (fst (processHugepagesForDownwardAPI Q ords [] (pod_containers pod))) (document_of pod) = Some d \<and>
       map cd_env (pd_containers d) =
         map (\<lambda>c. if Ex (container_hugepage Q c) \<and> \<not> list_ex (\<lambda>e. ev_name e = EnvNameContainerName) (ct_env c)
                  then Some (ct_env c @ [\<lparr>ev_name = EnvNameContainerName, ev_value = ct_name c\<rparr>])
                  else omitempty (ct_env c)) (pod_containers pod))"
proof -
  let ?cs = "pod_containers pod" and ?d = "names_effect Q ords (pod_containers pod) (document_of pod)"
  have needs: "needs_name Q ords n c \<longleftrightarrow>
      Ex (container_hugepage Q c) \<and> \<not> list_ex (\<lambda>e. ev_name e = EnvNameContainerName) (ct_env c)"
    if "c \<in> set ?cs" for n c
  proof -
    have "wf_container c" using that assms(2) by (simp add: list_all_iff)
    from set_container_hugepages [OF assms(1) this, of _ Q n] show ?thesis
      by (auto simp: needs_name_def) (metis list.set_intros(1) neq_Nil_conv)+
  qed
  have "apply_patch (fst (processHugepagesForDownwardAPI Q ords [] ?cs)) (document_of pod) = Some ?d"
    using all_names.build_after [OF apply_patch.simps(1), of ?cs "document_of pod" Q ords] document_fits(4) by auto
  moreover have "map cd_env (pd_containers ?d) =
         map (\<lambda>c. if Ex (container_hugepage Q c) \<and> \<not> list_ex (\<lambda>e. ev_name e = EnvNameContainerName) (ct_env c)
                  then Some (ct_env c @ [\<lparr>ev_name = EnvNameContainerName, ev_value = ct_name c\<rparr>])
                  else omitempty (ct_env c)) ?cs"
    using needs by (auto simp: names_effect_def document_of_def name_effect_def container_doc_of_def nth_zip_from intro!: nth_equalityI)
  ultimately show ?thesis
    by (simp add: process_hugepages_snd set_all_hugepages [OF assms])
qed

theorem hugepages_processed_witness:
  "hugepage_item ''limits.'' ''_limit_'' ''b'' ''hugepages-1Gi'' ''1Gi'' =
     \<lparr>hp_resource_name = ''limits.hugepages-1Gi'', hp_container_name = ''b'', hp_path = ''hugepages_1G_limit_b''\<rparr> \<and>
   hugepage_item ''limits.'' ''_limit_'' ''b'' ''hugepages-1Gi'' ''1Gi''
     \<in> set (snd (processHugepagesForDownwardAPI int_quantities (\<lambda>site. rev) [] (pod_containers sample_pod)))"
  (is "_ \<and> ?hp \<in> _")
proof
  have "hugepage_match ''hugepages-1Gi'' = Some ''1Gi''"
    by code_simp
  then have "container_hugepage int_quantities (sample_container ''b'' [] [(''hugepages-1Gi'', 2)]) ?hp"
    unfolding container_hugepage_def
    by (intro exI [of _ "''hugepages-1Gi''"] exI [of _ 2] exI [of _ "''1Gi''"]) (simp add: sample_container_def int_quantities_def)
  then have "\<exists>c\<in>set (pod_containers sample_pod). container_hugepage int_quantities c ?hp"
    by (simp add: sample_pod_containers)
  then show "?hp \<in> set (snd (processHugepagesForDownwardAPI int_quantities (\<lambda>site. rev) [] (pod_containers sample_pod)))"
    using hugepages_processed [OF lawful_identity(2) sample_wf, of ?hp int_quantities "[]"] by blast
qed code_simp

text \<open>
  C25: the node selector. Applied to any document, the patch sets a selector with the labels the
  networks ask for and, for the other keys, the labels of the pod; when there is no label at
  all the document stays as it is.
\<close>

theorem node_selector_merged:
  assumes "wf_map existing" "wf_map desired"
  shows "\<exists>d'. apply_patch (createNodeSelectorPatch [] existing desired) d = Some d' \<and>
     (if existing = [] \<and> desired = [] then d' = d
      else \<exists>m. d' = d\<lparr>pd_node_selector := Some m\<rparr> \<and>
             map_of m = (\<lambda>k. case map_of desired k of None \<Rightarrow> map_of existing k | Some v \<Rightarrow> Some v))"
proof -
  have applied: "apply_patch (createNodeSelectorPatch [] existing desired) d = Some (selector_effect existing desired d)"
    using selector.build_after [OF apply_patch.simps(1), of existing desired d] by auto
  have lookup: "map_of (merged_selector existing desired) =
      (\<lambda>k. case map_of desired k of None \<Rightarrow> map_of existing k | Some v \<Rightarrow> Some v)"
    using merged_selector_get [OF assms] by blast
  show ?thesis
  proof (cases "existing = [] \<and> desired = []")
    case True
    then show ?thesis
      using applied by (simp add: selector_effect_def merged_selector_def map_put_all_def)
  next
    case False
    then obtain k v where "map_of desired k = Some v \<or> map_of existing k = Some v"
      by (metis assms wf_map_get list.set_intros(1) neq_Nil_conv surj_pair)
    then have "map_of (merged_selector existing desired) k \<noteq> None"
      by (auto simp: lookup split: option.splits)
    then have "merged_selector existing desired \<noteq> []"
      by (metis map_of.simps(1))
    then show ?thesis
      using applied lookup False by (auto simp: selector_effect_def)
  qed
qed

theorem node_selector_merged_witness:
  "\<exists>m. apply_patch (createNodeSelectorPatch [] [(''zone'', ''east''), (''arch'', ''arm'')] [(''zone'', ''west'')]) (document_of sample_pod) =
     Some ((document_of sample_pod)\<lparr>pd_node_selector := Some m\<rparr>) \<and> map_of m ''zone'' = Some ''west'' \<and> map_of m ''arch'' = Some ''arm''"
proof -
  have "wf_map [(''zone'', ''east''), (''arch'', ''arm'')]" "wf_map [(''zone'', ''west'')]"
    by code_simp+
  from node_selector_merged [OF this, of "document_of sample_pod"] show ?thesis
    by auto
qed

text \<open>
  C32: an injected annotation wins over the pod's own annotation of the same key in the patched
  pod, while the selection of networks prefers the pod's own. For an injected networks
  annotation the resources are therefore computed from one list of networks and the pod is
  created with another.
\<close>

theorem injected_annotation_overrides:
  assumes "map_get (pod_annotations pod) key = Some own" "collect_patches udp [] = Some injected"
    "map_get injected key = Some other"
  shows "getNetworkSelections key pod udp = Some (own, True) \<and>
     (\<exists>patch d m. appendUserDefinedPatch [] pod udp = Some patch \<and> apply_patch patch (document_of pod) = Some d \<and>
        pd_annotations d = Some m \<and> map_get m key = Some other)"
proof -
  have "injected \<noteq> []"
    using assms(3) by auto
  then show ?thesis
    using user_annotations.build_after [OF apply_patch.simps(1), of udp pod "document_of pod"] assms
    by (auto simp: getNetworkSelections_def annotations_effect_def add_missing_get)
qed

theorem injected_annotation_overrides_witness:
  "getNetworkSelections networksAnnotationKey sample_pod
       [\<lparr>jp_operation = ''add'', jp_path = ''/metadata/annotations'', jp_value = PvAny (GMap [(networksAnnotationKey, GStr ''net2'')])\<rparr>]
     = Some (''net1'', True) \<and>
   (\<exists>patch d m. appendUserDefinedPatch [] sample_pod
       [\<lparr>jp_operation = ''add'', jp_path = ''/metadata/annotations'', jp_value = PvAny (GMap [(networksAnnotationKey, GStr ''net2'')])\<rparr>]
       = Some patch \<and> apply_patch patch (document_of sample_pod) = Some d \<and>
     pd_annotations d = Some m \<and> map_get m networksAnnotationKey = Some ''net2'')"
proof (rule injected_annotation_overrides)
  show "map_get (pod_annotations sample_pod) networksAnnotationKey = Some ''net1''"
    by (simp add: sample_pod_def)
  show "collect_patches
       [\<lparr>jp_operation = ''add'', jp_path = ''/metadata/annotations'', jp_value = PvAny (GMap [(networksAnnotationKey, GStr ''net2'')])\<rparr>] []
     = Some [(networksAnnotationKey, ''net2'')]"
    by (simp add: annotations_path_def patchOperationAdd_def value_map_def value_string_def map_put_def)
qed simp

end
