(* ===== verification/Mutate_Handler.thy ===== *)
theory Mutate_Handler
  imports Control_Switches Json_Patch
begin

text \<open>
  pkg/webhook/webhook.go, the admission request: reading it, finding the pod and its
  namespace, and \<open>MutateHandler\<close> itself. What other modules do (decoding API objects,
  the API server's answers, quantities) is an environment record; the state is the package
  variables the handler reads.
\<close>

section \<open>Admission reviews\<close>

record admission_request =
  rq_uid :: string
  rq_namespace :: string
  rq_object_raw :: string

record 'q admission_response =
  rs_uid :: string
  rs_allowed :: bool
  rs_message :: "string option"
  rs_patch :: "'q patch option"
  rs_patch_type :: "string option"

record 'q admission_review =
  ar_kind :: string
  ar_request :: "admission_request option"
  ar_response :: "'q admission_response option"

definition prepareAdmissionReviewResponse ::
  "bool \<Rightarrow> string \<Rightarrow> 'q admission_review \<Rightarrow> error + 'q admission_review" where
  "prepareAdmissionReviewResponse allowed message ar =
     (case ar_request ar of
        Some request \<Rightarrow>
          Inr (ar\<lparr>ar_response := Some
                 \<lparr>rs_uid = rq_uid request, rs_allowed = allowed,
                  rs_message = (if message \<noteq> [] then Some message else None),
                  rs_patch = None, rs_patch_type = None\<rparr>\<rparr>)
      | None \<Rightarrow> Inl ''received empty AdmissionReview request'')"

section \<open>The environment and the package variables\<close>

record object_meta =
  om_name :: string
  om_uid :: string
  om_namespace :: string

record 'q environment =
  env_decode_review :: "string \<Rightarrow> 'q admission_review \<times> error option"
  env_decode_pod :: "string \<Rightarrow> 'q pod \<times> error option"
  env_list_objects :: "string \<Rightarrow> error + object_meta list"
  env_get_nad :: "string \<Rightarrow> error + string"
  env_decode_nad :: "string \<Rightarrow> annotations"
  env_decode_selection :: selection_decoder
  env_quantity :: "'q quantity_ops"

record 'q webhook_state =
  ws_switches :: control_switches
  ws_injections :: "'q user_defined_injections"
  ws_cache :: nad_cache

definition nad_source_of :: "'q environment \<Rightarrow> 'q webhook_state \<Rightarrow> nad_source" where
  "nad_source_of env st =
     \<lparr>src_cache_get = cache_Get (ws_cache st), src_api_get = env_get_nad env, src_decode = env_decode_nad env\<rparr>"

section \<open>Reading the request\<close>

text \<open>A body that is nil or cannot be read is \<open>None\<close>; one over a mebibyte fails to be read.\<close>

record http_request =
  hr_method :: string
  hr_path :: string
  hr_content_type :: string
  hr_body :: "string option"

definition max_body :: int where
  "max_body = 1048576"

definition read_body :: "http_request \<Rightarrow> string" where
  "read_body req =
     (case hr_body req of
        None \<Rightarrow> []
      | Some data \<Rightarrow> if int (length data) \<le> max_body then data else [])"

definition deserializeAdmissionReview ::
  "'q environment \<Rightarrow> string \<Rightarrow> 'q admission_review \<times> error option" where
  "deserializeAdmissionReview env body =
     (let (ar, err) = env_decode_review env body in
      (ar, if err = None \<and> ar_kind ar \<noteq> ''AdmissionReview''
           then Some ''received object is not an AdmissionReview'' else err))"

definition readAdmissionReview ::
  "'q environment \<Rightarrow> http_request \<Rightarrow> int \<times> error + 'q admission_review" where
  "readAdmissionReview env req =
     (let body = read_body req; contentType = hr_content_type req in
      if length body = 0 then Inl (400, ''Error reading HTTP request: empty body'')
      else if contentType \<noteq> ''application/json'' then
        Inl (415, ''Invalid Content-Type='' @ [CHR 0x27] @ contentType @ [CHR 0x27] @ '', expected ''
                  @ [CHR 0x27] @ ''application/json'' @ [CHR 0x27])
      else (case deserializeAdmissionReview env body of
              (_, Some err) \<Rightarrow> Inl (400, errors_wrap err ''error deserializing AdmissionReview'')
            | (ar, None) \<Rightarrow> Inr ar))"

section \<open>The pod and its namespace\<close>

definition find_owner :: "owner_reference \<Rightarrow> object_meta list \<Rightarrow> object_meta option" where
  "find_owner ownerRef items = find (\<lambda>o1. om_name o1 = or_name ownerRef \<and> om_uid o1 = or_uid ownerRef) items"

definition getNamespaceFromOwnerReference :: "'q environment \<Rightarrow> owner_reference \<Rightarrow> error + string" where
  "getNamespaceFromOwnerReference env ownerRef =
     (if or_kind ownerRef \<in> {''ReplicaSet'', ''DaemonSet'', ''StatefulSet'', ''ReplicationController''} then
        (case env_list_objects env (or_kind ownerRef) of
           Inl err \<Rightarrow> Inl err
         | Inr items \<Rightarrow>
             (let namespace = (case find_owner ownerRef items of None \<Rightarrow> [] | Some o1 \<Rightarrow> om_namespace o1)
              in if namespace = [] then Inl ''pod namespace is not found'' else Inr namespace))
      else Inr ''default'')"

definition deserializePod :: "'q environment \<Rightarrow> 'q admission_review \<Rightarrow> ('q pod \<times> error option) option" where
  "deserializePod env ar =
     (case ar_request ar of
        None \<Rightarrow> go_panic
      | Some request \<Rightarrow>
          (let (pod, err) = env_decode_pod env (rq_object_raw request) in
           if pod_namespace pod \<noteq> [] then go_return (pod, err)
           else if rq_namespace request \<noteq> [] then
             go_return (pod\<lparr>pod_namespace := rq_namespace request\<rparr>, None)
           else (case pod_owners pod of
                   [] \<Rightarrow> go_return (pod, err)
                 | ownerRef # _ \<Rightarrow>
                     (case getNamespaceFromOwnerReference env ownerRef of
                        Inl e \<Rightarrow> go_return (pod, Some e)
                      | Inr namespace \<Rightarrow> go_return (pod\<lparr>pod_namespace := namespace\<rparr>, err)))))"

section \<open>The handler\<close>

text \<open>\<open>http.Error\<close> or, with status 200, the review as JSON.\<close>

datatype 'q http_reply = HttpError int string | HttpReview "'q admission_review"

definition handleValidationError :: "'q admission_review \<Rightarrow> error \<Rightarrow> 'q http_reply" where
  "handleValidationError ar orgErr =
     (case prepareAdmissionReviewResponse False orgErr ar of
        Inl err \<Rightarrow> HttpError 400 (errors_wrap err ''error preparing AdmissionResponse'')
      | Inr ar \<Rightarrow> HttpReview ar)"

text \<open>The reply of the handler itself to a review: with the given verdict, or an HTTP error.\<close>

definition verdict_reply :: "bool \<Rightarrow> string \<Rightarrow> 'q admission_review \<Rightarrow> 'q http_reply" where
  "verdict_reply allowed message ar =
     (case prepareAdmissionReviewResponse allowed message ar of
        Inl err \<Rightarrow> HttpError 400 err
      | Inr ar \<Rightarrow> HttpReview ar)"

text \<open>
  The two blocks that turn the default and the additional networks into resource requests and
  node selectors. \<open>Inl\<close> is a reply that ends the handler.
\<close>

definition default_network ::
  "'q environment \<Rightarrow> nad_source \<Rightarrow> string list \<Rightarrow> 'q admission_review \<Rightarrow> string \<Rightarrow> string \<Rightarrow>
   int64 gomap \<times> string gomap \<Rightarrow> ('q http_reply + int64 gomap \<times> string gomap) option" where
  "default_network env src keys ar selection namespace maps =
     (if selection = [] then go_return (Inr maps)
      else do {
        parsed \<leftarrow> parsePodNetworkSelections (env_decode_selection env) selection namespace;
        go_return (case parsed of
          Inl err \<Rightarrow> Inl (HttpError 400 err)
        | Inr [n] \<Rightarrow>
            (case parseNetworkAttachDefinition src keys n (fst maps) (snd maps) of
               (reqs, nsMap, None) \<Rightarrow> Inr (reqs, nsMap)
             | (_, _, Some err) \<Rightarrow> Inl (verdict_reply False err ar))
        | Inr _ \<Rightarrow> Inr maps) })"

definition additional_networks ::
  "'q environment \<Rightarrow> nad_source \<Rightarrow> string list \<Rightarrow> 'q admission_review \<Rightarrow> string \<Rightarrow> string \<Rightarrow>
   int64 gomap \<times> string gomap \<Rightarrow> ('q http_reply + int64 gomap \<times> string gomap) option" where
  "additional_networks env src keys ar selection namespace maps =
     (if selection = [] then go_return (Inr maps)
      else do {
        parsed \<leftarrow> parsePodNetworkSelections (env_decode_selection env) selection namespace;
        go_return (case parsed of
          Inl err \<Rightarrow> Inl (HttpError 400 err)
        | Inr networks \<Rightarrow>
            (case parse_networks src keys networks (fst maps) (snd maps) of
               (reqs, nsMap, None) \<Rightarrow> Inr (reqs, nsMap)
             | (_, _, Some err) \<Rightarrow> Inl (verdict_reply False err ar))) })"

definition build_patch ::
  "'q quantity_ops \<Rightarrow> range_orders \<Rightarrow> control_switches \<Rightarrow> 'q pod \<Rightarrow> 'q patch \<Rightarrow>
   int64 gomap \<Rightarrow> string gomap \<Rightarrow> 'q patch option" where
  "build_patch Q ords sw pod userDefinedPatch resourceRequests desiredNsMap = do {
     patch \<leftarrow>
       (if length resourceRequests = 0 then go_return []
        else do {
          patch \<leftarrow> (if IsHonorExistingResourcesEnabled sw
                    then updateResourcePatch Q ords [] (pod_containers pod) resourceRequests
                    else createResourcePatch Q ords [] (pod_containers pod) resourceRequests);
          let (patch, hugepageResourceList) =
                (if IsHugePagedownAPIEnabled sw
                 then processHugepagesForDownwardAPI Q ords patch (pod_containers pod)
                 else (patch, []));
          appendUserDefinedPatch (createVolPatch Q patch hugepageResourceList pod) pod userDefinedPatch });
     go_return (createNodeSelectorPatch patch (pod_node_selector pod) desiredNsMap) }"

text \<open>The patch is marshalled into the response; its bytes are represented by the operations.\<close>

definition patched_reply :: "'q patch \<Rightarrow> 'q admission_review \<Rightarrow> 'q http_reply" where
  "patched_reply patch ar =
     (case prepareAdmissionReviewResponse True ''allowed'' ar of
        Inl err \<Rightarrow> HttpError 400 err
      | Inr ar \<Rightarrow>
          HttpReview (ar\<lparr>ar_response := map_option (\<lambda>rs.
            rs\<lparr>rs_patch := Some patch, rs_patch_type := Some ''JSONPatch''\<rparr>) (ar_response ar)\<rparr>))"

definition mutate_pod ::
  "'q environment \<Rightarrow> range_orders \<Rightarrow> 'q webhook_state \<Rightarrow> 'q admission_review \<Rightarrow> 'q pod \<Rightarrow> 'q http_reply option" where
  "mutate_pod env ords st ar pod =
     (let src = nad_source_of env st;
          keys = GetResourceNameKeys (ws_switches st);
          userDefinedPatch = CreateUserDefinedPatch (ords RangePatchs) (ws_injections st) pod
      in do {
        (defaultNetSelection, defExist) \<leftarrow> getNetworkSelections defaultNetworkAnnotationKey pod userDefinedPatch;
        (additionalNetSelections, addExists) \<leftarrow> getNetworkSelections networksAnnotationKey pod userDefinedPatch;
        if defExist \<or> addExists then do {
          step1 \<leftarrow> default_network env src keys ar defaultNetSelection (pod_namespace pod) ([], []);
          (case step1 of
             Inl reply \<Rightarrow> go_return reply
           | Inr maps \<Rightarrow> do {
               step2 \<leftarrow> additional_networks env src keys ar additionalNetSelections (pod_namespace pod) maps;
               (case step2 of
                  Inl reply \<Rightarrow> go_return reply
                | Inr (resourceRequests, desiredNsMap) \<Rightarrow>
                    (case prepareAdmissionReviewResponse True ''allowed'' ar of
                       Inl err \<Rightarrow> go_return (HttpError 400 err)
                     | Inr _ \<Rightarrow> do {
                         patch \<leftarrow> build_patch (env_quantity env) ords (ws_switches st) pod userDefinedPatch
                                    resourceRequests desiredNsMap;
                         go_return (patched_reply patch ar) })) }) }
        else go_return (verdict_reply True ''Pod spec doesn't have network annotations. Skipping...'' ar) })"

definition MutateHandler ::
  "'q environment \<Rightarrow> range_orders \<Rightarrow> 'q webhook_state \<Rightarrow> http_request \<Rightarrow> 'q http_reply option" where
  "MutateHandler env ords st req =
     (case readAdmissionReview env req of
        Inl (httpStatus, err) \<Rightarrow> go_return (HttpError httpStatus err)
      | Inr ar \<Rightarrow> do {
          (pod, err) \<leftarrow> deserializePod env ar;
          (case err of
             Some e \<Rightarrow> go_return (handleValidationError ar e)
           | None \<Rightarrow> mutate_pod env ords st ar pod) })"

section \<open>Library\<close>

subsection \<open>The whole patch\<close>

text \<open>
  The document the patch makes of the pod, as the composition of the effects of its parts.
\<close>

definition patched_document ::
  "'q quantity_ops \<Rightarrow> range_orders \<Rightarrow> bool \<Rightarrow> bool \<Rightarrow> 'q pod \<Rightarrow> string gomap \<Rightarrow> int64 gomap \<Rightarrow> string gomap \<Rightarrow> 'q pod_doc" where
  "patched_document Q ords honor hugepages pod injected reqs sel =
     (let cs = pod_containers pod; d = document_of pod in
      selector_effect (pod_node_selector pod) sel
        (if reqs = [] then d
         else annotations_effect pod injected
          (volume_effect Q (if hugepages then all_hugepages Q ords cs else []) pod
           (mounts_effect cs
            ((if hugepages then names_effect Q ords cs else (\<lambda>d. d))
             (on_container 0 (resource_effect (hd cs) (resource_entries_of Q ords honor cs reqs)) d))))))"

lemma build_patch_document:
  assumes "reqs \<noteq> [] \<Longrightarrow> pod_containers pod \<noteq> []" "collect_patches udp [] = Some injected"
  shows "\<exists>patch. build_patch Q ords sw pod udp reqs sel = Some patch \<and>
     apply_patch patch (document_of pod) =
       Some (patched_document Q ords (IsHonorExistingResourcesEnabled sw) (IsHugePagedownAPIEnabled sw) pod injected reqs sel)"
proof (cases "reqs = []")
  case True
  then show ?thesis
    using selector.build_after [OF apply_patch.simps(1), of "pod_node_selector pod" sel "document_of pod"]
    by (auto simp: build_patch_def patched_document_def)
next
  case False
  let ?cs = "pod_containers pod" and ?honor = "IsHonorExistingResourcesEnabled sw" and ?huge = "IsHugePagedownAPIEnabled sw"
  let ?d1 = "on_container 0 (resource_effect (hd ?cs) (resource_entries_of Q ords ?honor ?cs reqs)) (document_of pod)"
  let ?d2 = "(if ?huge then names_effect Q ords ?cs else (\<lambda>d. d)) ?d1"
  let ?hps = "if ?huge then all_hugepages Q ords ?cs else []"
  let ?d3 = "volume_effect Q ?hps pod (mounts_effect ?cs ?d2)"
  obtain p1 where p1: "resource_patch Q ords ?honor ?cs reqs [] = Some p1" "apply_patch p1 (document_of pod) = Some ?d1"
    using resources.build_after [OF apply_patch.simps(1) document_fits(1)] assms(1) False by blast
  have fit2: "names_fit ?cs ?d1" "mounts_fit ?cs ?d2" "volume_fit pod (mounts_effect ?cs ?d2)"
    using document_fits [of pod] by (simp_all add: fits_kept)
  let ?p2 = "if ?huge then fst (processHugepagesForDownwardAPI Q ords p1 ?cs) else p1"
  have p2: "apply_patch ?p2 (document_of pod) = Some ?d2"
    using all_names.build_after [OF p1(2) fit2(1)] p1(2) by auto
  let ?p3 = "createVolPatch Q ?p2 ?hps pod"
  have p3: "apply_patch ?p3 (document_of pod) = Some ?d3"
    using volume_patch.seq.build_after [OF p2, of pod Q ?hps] fit2(2,3) by (simp add: createVolPatch_def)
  obtain p4 where p4: "appendUserDefinedPatch ?p3 pod udp = Some p4"
    "apply_patch p4 (document_of pod) = Some (annotations_effect pod injected ?d3)"
    using user_annotations.build_after [OF p3, of udp pod] assms(2) by auto
  have "build_patch Q ords sw pod udp reqs sel = Some (createNodeSelectorPatch p4 (pod_node_selector pod) sel)"
    using p1(1) p4(1) False unfolding resource_patch_def
    by (cases "processHugepagesForDownwardAPI Q ords p1 ?cs")
      (auto simp: build_patch_def process_hugepages_snd [symmetric, of Q ords ?cs p1] split: if_splits)
  then show ?thesis
    using selector.build_after [OF p4(2), of "pod_node_selector pod" sel] False
    by (simp add: patched_document_def Let_def)
qed

subsection \<open>Replies\<close>

text \<open>
  A reply answers a request when it carries the request's UID, keeps the request, and has a
  patch only along with the patch type and the permission.
\<close>

definition answers :: "admission_request \<Rightarrow> 'q http_reply \<Rightarrow> bool" where
  "answers request reply \<longleftrightarrow>
     (case reply of
        HttpError httpStatus err \<Rightarrow> httpStatus = 400
      | HttpReview ar \<Rightarrow>
          ar_request ar = Some request \<and>
          (case ar_response ar of
             None \<Rightarrow> False
           | Some rs \<Rightarrow> rs_uid rs = rq_uid request \<and>
               (rs_patch rs = None \<and> rs_patch_type rs = None \<or>
                rs_allowed rs \<and> rs_patch rs \<noteq> None \<and> rs_patch_type rs = Some ''JSONPatch'')))"

text \<open>A request with a review in it, as the handler wants it.\<close>

definition acceptable_request :: "'q environment \<Rightarrow> http_request \<Rightarrow> 'q admission_review \<Rightarrow> bool" where
  "acceptable_request env req ar \<longleftrightarrow>
     (\<exists>body. hr_body req = Some body \<and> body \<noteq> [] \<and> int (length body) \<le> 1048576 \<and>
        env_decode_review env body = (ar, None)) \<and>
     hr_content_type req = ''application/json'' \<and> ar_kind ar = ''AdmissionReview''"

lemma prepare_request:
  "ar_request ar = Some request \<Longrightarrow>
   prepareAdmissionReviewResponse allowed message ar = Inr (ar\<lparr>ar_response := Some
      \<lparr>rs_uid = rq_uid request, rs_allowed = allowed, rs_message = (if message \<noteq> [] then Some message else None),
       rs_patch = None, rs_patch_type = None\<rparr>\<rparr>)"
  by (simp add: prepareAdmissionReviewResponse_def)

lemma answers_verdict: "ar_request ar = Some request \<Longrightarrow> answers request (verdict_reply allowed message ar)"
  by (simp add: verdict_reply_def prepare_request answers_def)

lemma answers_validation: "ar_request ar = Some request \<Longrightarrow> answers request (handleValidationError ar err)"
  by (simp add: handleValidationError_def prepare_request answers_def)

lemma answers_patched: "ar_request ar = Some request \<Longrightarrow> answers request (patched_reply patch ar)"
  by (simp add: patched_reply_def prepare_request answers_def)

lemma answers_http [simp]: "answers request (HttpError 400 err)"
  by (simp add: answers_def)

lemmas answers_intros = answers_verdict answers_validation answers_patched

lemma default_network_answers:
  "default_network env src keys ar selection ns maps = Some (Inl reply) \<Longrightarrow> ar_request ar = Some request \<Longrightarrow>
   answers request reply"
  by (auto simp: default_network_def answers_verdict split: if_splits Option.bind_splits sum.splits list.splits prod.splits option.splits)

lemma additional_networks_answers:
  "additional_networks env src keys ar selection ns maps = Some (Inl reply) \<Longrightarrow> ar_request ar = Some request \<Longrightarrow>
   answers request reply"
  by (auto simp: additional_networks_def answers_verdict split: if_splits Option.bind_splits sum.splits prod.splits option.splits)

text \<open>The steps of \<open>mutate_pod\<close> after the selections are known.\<close>

definition after_selections ::
  "'q environment \<Rightarrow> range_orders \<Rightarrow> 'q webhook_state \<Rightarrow> 'q admission_review \<Rightarrow> 'q pod \<Rightarrow>
   string \<Rightarrow> string \<Rightarrow> 'q http_reply option" where
  "after_selections env ords st ar pod sel_default sel_additional =
     (let src = nad_source_of env st; keys = GetResourceNameKeys (ws_switches st);
          udp = CreateUserDefinedPatch (ords RangePatchs) (ws_injections st) pod
      in case default_network env src keys ar sel_default (pod_namespace pod) ([], []) of
           None \<Rightarrow> None
         | Some (Inl reply) \<Rightarrow> Some reply
         | Some (Inr maps) \<Rightarrow>
             (case additional_networks env src keys ar sel_additional (pod_namespace pod) maps of
                None \<Rightarrow> None
              | Some (Inl reply) \<Rightarrow> Some reply
              | Some (Inr (reqs, sel)) \<Rightarrow>
                  map_option (\<lambda>patch. patched_reply patch ar)
                    (build_patch (env_quantity env) ords (ws_switches st) pod udp reqs sel)))"

lemma mutate_pod_cases:
  assumes "ar_request ar = Some request"
    "getNetworkSelections defaultNetworkAnnotationKey pod (CreateUserDefinedPatch (ords RangePatchs) (ws_injections st) pod) = Some (d, de)"
    "getNetworkSelections networksAnnotationKey pod (CreateUserDefinedPatch (ords RangePatchs) (ws_injections st) pod) = Some (a, ae)"
  shows "mutate_pod env ords st ar pod =
     (if de \<or> ae then after_selections env ords st ar pod d a
      else Some (verdict_reply True ''Pod spec doesn't have network annotations. Skipping...'' ar))"
  using assms
  by (auto simp: mutate_pod_def after_selections_def Let_def prepare_request map_conv_bind_option comp_def
      split: Option.bind_splits option.splits sum.splits)

lemma after_selections_answers:
  "after_selections env ords st ar pod d a = Some reply \<Longrightarrow> ar_request ar = Some request \<Longrightarrow> answers request reply"
  by (auto simp: after_selections_def Let_def answers_patched
      split: option.splits sum.splits dest: default_network_answers additional_networks_answers)

lemma mutate_pod_answers:
  assumes "mutate_pod env ords st ar pod = Some reply" "ar_request ar = Some request"
  shows "answers request reply"
proof -
  let ?udp = "CreateUserDefinedPatch (ords RangePatchs) (ws_injections st) pod"
  obtain d de where d: "getNetworkSelections defaultNetworkAnnotationKey pod ?udp = Some (d, de)"
    using assms(1) by (auto simp: mutate_pod_def Let_def split: Option.bind_splits)
  obtain a ae where a: "getNetworkSelections networksAnnotationKey pod ?udp = Some (a, ae)"
    using assms(1) by (auto simp: mutate_pod_def Let_def d split: Option.bind_splits)
  show ?thesis
    using assms after_selections_answers [of env ords st ar pod d a reply request] answers_verdict [of ar request]
    by (auto simp: mutate_pod_cases [where ords = ords and st = st and pod = pod, OF assms(2) d a] split: if_splits)
qed

subsection \<open>From the annotations to the networks\<close>

text \<open>
  The annotation of a pod with the injected annotations around it: its own comes first. The
  search of the handler through the patches finds what the collection of them for the patch has.
\<close>

definition network_annotation :: "string \<Rightarrow> 'q pod \<Rightarrow> string gomap \<Rightarrow> string option" where
  "network_annotation key pod injected =
     (case map_get (pod_annotations pod) key of Some s \<Rightarrow> Some s | None \<Rightarrow> map_get injected key)"

definition found :: "string option \<Rightarrow> string \<times> bool" where
  "found annotation = (case annotation of Some s \<Rightarrow> (s, True) | None \<Rightarrow> ([], False))"

lemma collect_annotations_get:
  "collect_annotations m acc = Some res \<Longrightarrow>
   (case map_get acc key of Some s \<Rightarrow> map_get res key = Some s
    | None \<Rightarrow> (case map_get m key of
        Some v \<Rightarrow> (\<exists>s. value_string v = Some s \<and> map_get res key = Some s)
      | None \<Rightarrow> map_get res key = None))"
proof (induction m acc rule: collect_annotations.induct)
  case (2 k v kvs acc)
  then obtain s where s: "value_string v = Some s"
    "collect_annotations kvs (if map_get acc k \<noteq> None then acc else map_put acc k s) = Some res"
    by (auto split: Option.bind_splits)
  from "2.IH" [OF s] s(1) show ?case
    by (auto simp: go_map split: option.splits if_splits)
qed (simp split: option.splits)

lemma collect_patches_get:
  "collect_patches ps acc = Some res \<Longrightarrow>
   (case map_get acc key of Some s \<Rightarrow> map_get res key = Some s
    | None \<Rightarrow> search_user_defined key ps = Some (found (map_get res key)))"
proof (induction ps acc rule: collect_patches.induct)
  case (2 p ps acc)
  show ?case
  proof (cases "jp_path p = annotations_path \<and> jp_operation p = patchOperationAdd")
    case True
    then obtain m acc' where m: "value_map (jp_value p) = Some m" "collect_annotations m acc = Some acc'"
      "collect_patches ps acc' = Some res"
      using "2.prems" by (auto split: Option.bind_splits)
    from "2.IH"(1) [OF True m] collect_annotations_get [OF m(2), of key] True m(1) show ?thesis
      by (auto simp: found_def split: option.splits)
  next
    case False
    with "2.IH"(2) "2.prems" show ?thesis
      by (auto split: option.splits)
  qed
qed (simp add: found_def split: option.splits)

lemma getNetworkSelections_found:
  "collect_patches udp [] = Some injected \<Longrightarrow>
   getNetworkSelections key pod udp = Some (found (network_annotation key pod injected))"
  using collect_patches_get [of udp "[]" injected key]
  by (auto simp: getNetworkSelections_def network_annotation_def found_def split: option.splits)

lemma MutateHandler_pod:
  assumes "readAdmissionReview env req = Inr ar" "deserializePod env ar = Some (pod, None)"
  shows "MutateHandler env ords st req = mutate_pod env ords st ar pod"
  using assms by (simp add: MutateHandler_def)

definition has_network_annotations :: "'q pod \<Rightarrow> string gomap \<Rightarrow> bool" where
  "has_network_annotations pod injected \<longleftrightarrow>
     network_annotation defaultNetworkAnnotationKey pod injected \<noteq> None \<or>
     network_annotation networksAnnotationKey pod injected \<noteq> None"

lemma handler_after_selections:
  assumes "readAdmissionReview env req = Inr ar" "ar_request ar = Some request" "deserializePod env ar = Some (pod, None)"
    "collect_patches (CreateUserDefinedPatch (ords RangePatchs) (ws_injections st) pod) [] = Some injected"
  shows "MutateHandler env ords st req =
     (if has_network_annotations pod injected
      then after_selections env ords st ar pod
        (fst (found (network_annotation defaultNetworkAnnotationKey pod injected)))
        (fst (found (network_annotation networksAnnotationKey pod injected)))
      else Some (verdict_reply True ''Pod spec doesn't have network annotations. Skipping...'' ar))"
  using mutate_pod_cases [where ords = ords and st = st and pod = pod, OF assms(2)] getNetworkSelections_found [OF assms(4)]
  unfolding MutateHandler_pod [OF assms(1,3)] has_network_annotations_def
  by (auto simp: found_def split: option.splits)

subsection \<open>When the handler replies\<close>

text \<open>Injections as the handler needs them, with an object of strings as their value.\<close>

definition injections_typed :: "'q user_defined_injections \<Rightarrow> bool" where
  "injections_typed ui \<longleftrightarrow>
     list_all (\<lambda>(k, p). \<exists>m. jp_value p = PvAny (GMap m) \<and> list_all (\<lambda>(a, v). \<exists>s. v = GStr s) m) (ui_patchs ui)"

lemma collect_annotations_typed:
  "list_all (\<lambda>(a, v). \<exists>s. v = GStr s) m \<Longrightarrow> \<exists>res. collect_annotations m acc = Some res"
  by (induction m acc rule: collect_annotations.induct) (auto simp: value_string_def)

lemma collect_patches_typed:
  assumes "\<forall>p\<in>set ps. \<exists>m. jp_value p = PvAny (GMap m) \<and> list_all (\<lambda>(a, v). \<exists>s. v = GStr s) m"
  shows "\<exists>res. collect_patches ps acc = Some res"
  using assms
proof (induction ps arbitrary: acc)
  case (Cons p ps)
  then obtain m where m: "jp_value p = PvAny (GMap m)" "list_all (\<lambda>(a, v). \<exists>s. v = GStr s) m"
    by auto
  obtain acc' where "collect_annotations m acc = Some acc'"
    using collect_annotations_typed [OF m(2)] by blast
  with Cons m(1) show ?case
    by (simp add: value_map_def)
qed simp

lemma typed_injections_collect:
  assumes "lawful_order ord" "injections_ok ui" "injections_typed ui"
  shows "\<exists>injected. collect_patches (CreateUserDefinedPatch ord ui pod) [] = Some injected"
proof (rule collect_patches_typed, rule ballI)
  fix p assume "p \<in> set (CreateUserDefinedPatch ord ui pod)"
  then obtain k where "map_get (ui_patchs ui) k = Some p"
    unfolding CreateUserDefinedPatch_mem [OF assms(1,2)] by blast
  then show "\<exists>m. jp_value p = PvAny (GMap m) \<and> list_all (\<lambda>(a, v). \<exists>s. v = GStr s) m"
    using assms(3) map_of_SomeD unfolding injections_typed_def list_all_iff by fastforce
qed

lemma search_reaches_bad_value:
  assumes "p \<in> set ps" "jp_operation p = patchOperationAdd" "jp_path p = annotations_path"
    "\<And>m. jp_value p \<noteq> PvAny (GMap m)"
    "\<And>p' m. p' \<in> set ps \<Longrightarrow> jp_value p' = PvAny (GMap m) \<Longrightarrow> map_get m key = None"
  shows "search_user_defined key ps = None"
  using assms(1,5)
proof (induction ps)
  case (Cons x xs)
  have bad: "value_map (jp_value p) = None"
    using assms(4) by (auto simp: value_map_def split: patch_value.splits goval.splits)
  have skip: "map_get m key = None" if "value_map (jp_value x) = Some m" for m
    using Cons.prems(2) [of x m] that by (auto simp: value_map_def split: patch_value.splits goval.splits)
  show ?case
  proof (cases "x = p")
    case False
    then have "search_user_defined key xs = None"
      using Cons by auto
    then show ?thesis
      using skip by (cases "value_map (jp_value x)") auto
  qed (use bad assms(2,3) in simp)
qed simp

text \<open>A selection that is not a JSON array with a null in it.\<close>

definition no_null_elements :: "string \<Rightarrow> bool" where
  "no_null_elements selection \<longleftrightarrow>
     (case json_parse selection of Some (JArr vs) \<Rightarrow> JNull \<notin> set vs | _ \<Rightarrow> True)"

lemma no_null_elements_Nil: "no_null_elements []"
  by (simp add: no_null_elements_def json_parse_def skip_ws_def)

lemma no_null_elements_parse:
  assumes "no_null_elements selection"
  shows "\<exists>r. parsePodNetworkSelections dec selection ns = Some r"
proof -
  have "None \<notin> set sl" if "unmarshal_selections dec selection = (sl, False)" for sl
    using that assms unfolding unmarshal_selections_ok decode_selections_ok
    by (auto simp: no_null_elements_def split: if_splits)
  then have "parsePodNetworkSelections dec selection ns \<noteq> None"
    unfolding parse_selections_None fill_namespaces_None by fastforce
  then show ?thesis by blast
qed

lemma network_blocks_reply:
  assumes "no_null_elements selection"
  shows "\<exists>r. default_network env src keys ar selection ns maps = Some r"
    "\<exists>r. additional_networks env src keys ar selection ns maps = Some r"
  using no_null_elements_parse [OF assms, of "env_decode_selection env" ns]
  by (auto simp: default_network_def additional_networks_def)

lemma after_selections_replies:
  assumes "pod_containers pod \<noteq> []" "collect_patches (CreateUserDefinedPatch (ords RangePatchs) (ws_injections st) pod) [] = Some injected"
    "no_null_elements d" "no_null_elements a"
  shows "after_selections env ords st ar pod d a \<noteq> None"
proof -
  have "build_patch (env_quantity env) ords (ws_switches st) pod
      (CreateUserDefinedPatch (ords RangePatchs) (ws_injections st) pod) reqs sel \<noteq> None" for reqs sel
    using build_patch_document [of reqs pod _ injected "env_quantity env" ords "ws_switches st" sel] assms(1,2) by auto
  then show ?thesis
    using network_blocks_reply(1) [OF assms(3), of env "nad_source_of env st" "GetResourceNameKeys (ws_switches st)" ar "pod_namespace pod" "([], [])"]
      network_blocks_reply(2) [OF assms(4), of env "nad_source_of env st" "GetResourceNameKeys (ws_switches st)" ar "pod_namespace pod"]
    by (auto simp: after_selections_def Let_def split: option.splits sum.splits) (metis option.distinct(1))
qed

lemma deserializePod_result:
  assumes "ar_request ar = Some request"
  shows "\<exists>pod err. deserializePod env ar = Some (pod, err)"
proof (cases "env_decode_pod env (rq_object_raw request)")
  case (Pair pod err)
  then show ?thesis
    by (cases "pod_owners pod"; cases "getNamespaceFromOwnerReference env (hd (pod_owners pod))")
      (simp_all add: deserializePod_def assms)
qed

lemma deserializePod_error:
  assumes "ar_request ar = Some request" "env_decode_pod env (rq_object_raw request) = (pod, Some err)"
    "pod_namespace pod \<noteq> [] \<or> rq_namespace request = []"
  shows "\<exists>pod' message. deserializePod env ar = Some (pod', Some message)"
  using assms(3)
  by (cases "pod_owners pod"; cases "getNamespaceFromOwnerReference env (hd (pod_owners pod))")
    (auto simp: deserializePod_def assms(1,2))

text \<open>How pods are decoded matters to nothing but \<open>deserializePod\<close>.\<close>

lemma other_pods_env:
  "env_decode_review (env\<lparr>env_decode_pod := f\<rparr>) = env_decode_review env"
  "env_decode_selection (env\<lparr>env_decode_pod := f\<rparr>) = env_decode_selection env"
  "env_quantity (env\<lparr>env_decode_pod := f\<rparr>) = env_quantity env"
  "nad_source_of (env\<lparr>env_decode_pod := f\<rparr>) st = nad_source_of env st"
  by (simp_all add: nad_source_of_def)

lemma other_pods:
  "deserializeAdmissionReview (env\<lparr>env_decode_pod := f\<rparr>) body = deserializeAdmissionReview env body"
  "default_network (env\<lparr>env_decode_pod := f\<rparr>) src keys ar selection ns maps = default_network env src keys ar selection ns maps"
  "additional_networks (env\<lparr>env_decode_pod := f\<rparr>) src keys ar selection ns maps =
   additional_networks env src keys ar selection ns maps"
  by (simp_all only: deserializeAdmissionReview_def default_network_def additional_networks_def other_pods_env)

lemma readAdmissionReview_other_pods:
  "readAdmissionReview (env\<lparr>env_decode_pod := f\<rparr>) req = readAdmissionReview env req"
  unfolding readAdmissionReview_def other_pods ..

lemma mutate_pod_other_pods:
  "mutate_pod (env\<lparr>env_decode_pod := f\<rparr>) ords st ar pod = mutate_pod env ords st ar pod"
  unfolding mutate_pod_def other_pods other_pods_env ..

subsection \<open>From the networks to the resources\<close>

lemma zip_from_keeps:
  "(\<And>n c x. f (g n c x) = f x) \<Longrightarrow> map f (zip_from g i cs xs) = map f xs"
  by (induction g i cs xs rule: zip_from.induct) auto

lemma keeps_members:
  "pd_containers (selector_effect a b d) = pd_containers d"
  "pd_containers (annotations_effect pod i d) = pd_containers d"
  "pd_containers (volume_effect Q hps pod d) = pd_containers d"
  by (simp_all add: selector_effect_def annotations_effect_def volume_effect_def)

lemma keeps_resources:
  "map cd_requests (pd_containers (mounts_effect cs d)) = map cd_requests (pd_containers d)"
  "map cd_limits (pd_containers (mounts_effect cs d)) = map cd_limits (pd_containers d)"
  "map cd_requests (pd_containers (names_effect Q ords cs d)) = map cd_requests (pd_containers d)"
  "map cd_limits (pd_containers (names_effect Q ords cs d)) = map cd_limits (pd_containers d)"
  by (simp_all add: mounts_effect_def names_effect_def zip_from_keeps mount_effect_def name_effect_def)

lemma map_eq_hd: "map f xs = map f ys \<Longrightarrow> ys \<noteq> [] \<Longrightarrow> f (hd xs) = f (hd ys)"
  by (cases xs; cases ys) auto

text \<open>What the first container asks for in the document of a patch.\<close>

lemma patched_document_resources:
  assumes "reqs \<noteq> []" "pod_containers pod \<noteq> []"
  shows "cd_requests (hd (pd_containers (patched_document Q ords honor huge pod injected reqs sel))) =
       Some (put_entries (ct_requests (hd (pod_containers pod)))
         (map (\<lambda>(r, q, l). (r, q)) (resource_entries_of Q ords honor (pod_containers pod) reqs)))"
    "cd_limits (hd (pd_containers (patched_document Q ords honor huge pod injected reqs sel))) =
       Some (put_entries (ct_limits (hd (pod_containers pod)))
         (map (\<lambda>(r, q, l). (r, l)) (resource_entries_of Q ords honor (pod_containers pod) reqs)))"
proof -
  let ?d = "on_container 0 (resource_effect (hd (pod_containers pod)) (resource_entries_of Q ords honor (pod_containers pod) reqs)) (document_of pod)"
  let ?p = "pd_containers (patched_document Q ords honor huge pod injected reqs sel)"
  have ne: "pd_containers ?d \<noteq> []"
    using assms(2) by (simp add: document_of_def)
  have "map cd_requests ?p = map cd_requests (pd_containers ?d)" "map cd_limits ?p = map cd_limits (pd_containers ?d)"
    using assms(1) by (simp_all add: patched_document_def Let_def keeps_members keeps_resources)
  moreover have "hd (pd_containers ?d) = resource_effect (hd (pod_containers pod)) (resource_entries_of Q ords honor (pod_containers pod) reqs) (pd_containers (document_of pod) ! 0)"
    using assms(2) hd_conv_nth [OF ne] by (simp add: document_of_def)
  ultimately show "cd_requests (hd ?p) = Some (put_entries (ct_requests (hd (pod_containers pod)))
         (map (\<lambda>(r, q, l). (r, q)) (resource_entries_of Q ords honor (pod_containers pod) reqs)))"
    "cd_limits (hd ?p) = Some (put_entries (ct_limits (hd (pod_containers pod)))
         (map (\<lambda>(r, q, l). (r, l)) (resource_entries_of Q ords honor (pod_containers pod) reqs)))"
    using map_eq_hd [OF _ ne, of cd_requests ?p] map_eq_hd [OF _ ne, of cd_limits ?p] by (simp_all add: resource_effect_def)
qed

definition asks_for :: "'q pod_doc \<Rightarrow> (string \<Rightarrow> 'q option) \<Rightarrow> (string \<Rightarrow> 'q option) \<Rightarrow> bool" where
  "asks_for d req lim \<longleftrightarrow>
     (\<exists>m m'. cd_requests (hd (pd_containers d)) = Some m \<and> cd_limits (hd (pd_containers d)) = Some m' \<and>
             map_of m = req \<and> map_of m' = lim)"

lemma patched_document_without:
  "pd_containers (patched_document Q ords honor huge pod injected [] sel) = pd_containers (document_of pod)"
  by (simp add: patched_document_def selector_effect_def Let_def)

lemma patched_document_asks_for:
  assumes "reqs \<noteq> []" "pod_containers pod \<noteq> []" "lawful_orders ords" "wf_map reqs"
  shows "asks_for (patched_document Q ords honor huge pod injected reqs sel)
     (expected_resources Q honor (pod_containers pod) reqs (ct_requests (hd (pod_containers pod))))
     (expected_resources Q honor (pod_containers pod) reqs (ct_limits (hd (pod_containers pod))))"
  using patched_document_resources [OF assms(1,2), of Q ords honor huge injected sel]
    resource_entries_get [OF assms(3,4), of "pod_containers pod" Q honor]
  by (auto simp: asks_for_def)

lemma patched_document_containers:
  assumes "pod_containers pod \<noteq> []" "lawful_orders ords" "wf_map reqs"
  shows "if reqs = [] then pd_containers (patched_document Q ords honor huge pod injected reqs sel) = pd_containers (document_of pod)
    else asks_for (patched_document Q ords honor huge pod injected reqs sel)
     (expected_resources Q honor (pod_containers pod) reqs (ct_requests (hd (pod_containers pod))))
     (expected_resources Q honor (pod_containers pod) reqs (ct_limits (hd (pod_containers pod))))"
  by (cases "reqs = []") (simp_all add: patched_document_without patched_document_asks_for [OF _ assms])

lemma counts_unique: "counts rs reqs \<Longrightarrow> map_of reqs = counter rs"
  by (auto simp: counts_def)

text \<open>
  The networks the two selections stand for: those of the networks annotation, after the one of
  the default network, which counts only when it is a single one.
\<close>

definition selected_networks :: "'q environment \<Rightarrow> 'q pod \<Rightarrow> string option \<Rightarrow> network_selection list option" where
  "selected_networks env pod annotation =
     (case annotation of
        None \<Rightarrow> Some []
      | Some selection \<Rightarrow>
          if selection = [] then Some []
          else case parsePodNetworkSelections (env_decode_selection env) selection (pod_namespace pod) of
            Some (Inr nets) \<Rightarrow> Some nets
          | _ \<Rightarrow> None)"

definition handled_networks :: "network_selection list \<Rightarrow> network_selection list \<Rightarrow> network_selection list" where
  "handled_networks defaults nets = (if length defaults = 1 then defaults else []) @ nets"

definition networks_result ::
  "'q admission_review \<Rightarrow> int64 gomap \<times> string gomap \<times> error option \<Rightarrow> 'q http_reply + int64 gomap \<times> string gomap" where
  "networks_result ar r =
     (case r of (reqs, sel, None) \<Rightarrow> Inr (reqs, sel) | (_, _, Some err) \<Rightarrow> Inl (verdict_reply False err ar))"

lemma default_network_result:
  assumes "selected_networks env pod annotation = Some defaults"
  shows "default_network env src keys ar (fst (found annotation)) (pod_namespace pod) maps =
     Some (networks_result ar (parse_networks src keys (handled_networks defaults []) (fst maps) (snd maps)))"
  using assms
  by (cases defaults; cases "tl defaults")
    (auto simp: default_network_def selected_networks_def found_def networks_result_def handled_networks_def
      split: if_splits option.splits sum.splits prod.splits)

lemma additional_networks_result:
  assumes "selected_networks env pod annotation = Some nets"
  shows "additional_networks env src keys ar (fst (found annotation)) (pod_namespace pod) maps =
     Some (networks_result ar (parse_networks src keys nets (fst maps) (snd maps)))"
  using assms
  by (auto simp: additional_networks_def selected_networks_def found_def networks_result_def
      split: if_splits option.splits sum.splits prod.splits)

lemma after_selections_result:
  assumes "selected_networks env pod d = Some defaults" "selected_networks env pod a = Some nets"
  shows "after_selections env ords st ar pod (fst (found d)) (fst (found a)) =
     (case networks_result ar (parse_networks (nad_source_of env st) (GetResourceNameKeys (ws_switches st))
             (handled_networks defaults nets) [] []) of
        Inl reply \<Rightarrow> Some reply
      | Inr (reqs, sel) \<Rightarrow>
          map_option (\<lambda>patch. patched_reply patch ar)
            (build_patch (env_quantity env) ords (ws_switches st) pod
              (CreateUserDefinedPatch (ords RangePatchs) (ws_injections st) pod) reqs sel))"
proof -
  have split: "handled_networks defaults nets = handled_networks defaults [] @ nets"
    by (simp add: handled_networks_def)
  show ?thesis
    unfolding after_selections_def Let_def default_network_result [OF assms(1)] additional_networks_result [OF assms(2)]
      split parse_networks_append
    by (auto simp: networks_result_def split: option.splits prod.splits)
qed

section \<open>Examples\<close>

text \<open>
  A request for the pod of \<open>Json_Patch\<close>, with two networks, one of them listed twice, and a
  default network; every definition names the resource hw/pf.
\<close>

definition sample_request :: admission_request where
  "sample_request = \<lparr>rq_uid = ''u1'', rq_namespace = [], rq_object_raw = []\<rparr>"

definition sample_review :: "int admission_review" where
  "sample_review = \<lparr>ar_kind = ''AdmissionReview'', ar_request = Some sample_request, ar_response = None\<rparr>"

definition sample_env :: "int pod \<Rightarrow> int environment" where
  "sample_env pod =
     \<lparr>env_decode_review = (\<lambda>body. (sample_review, None)), env_decode_pod = (\<lambda>raw. (pod, None)),
      env_list_objects = (\<lambda>k. Inr []), env_get_nad = (\<lambda>p. Inr []),
      env_decode_nad = (\<lambda>raw. Some [(''r'', ''hw/pf'')]),
      env_decode_selection = (\<lambda>j. (\<lparr>ns_namespace = [], ns_name = [], ns_interface = []\<rparr>, DecodeAbort)),
      env_quantity = int_quantities\<rparr>"

definition sample_state :: "int json_patch_operation gomap \<Rightarrow> int webhook_state" where
  "sample_state injections =
     \<lparr>ws_switches = InitControlSwitches (SetupControlSwitchesUnitTests True False ''r''),
      ws_injections = \<lparr>ui_patchs = injections\<rparr>, ws_cache = Create\<rparr>"

definition sample_http :: http_request where
  "sample_http = \<lparr>hr_method = ''POST'', hr_path = ''/mutate'', hr_content_type = ''application/json'', hr_body = Some ''x''\<rparr>"

definition two_networks :: "int pod" where
  "two_networks = sample_pod\<lparr>pod_annotations := [(networksAnnotationKey, ''a,b,a''), (defaultNetworkAnnotationKey, ''d'')]\<rparr>"

definition namespaced_review :: "int admission_review" where
  "namespaced_review = sample_review\<lparr>ar_request := Some (sample_request\<lparr>rq_namespace := ''ns''\<rparr>)\<rparr>"

definition text_injection :: "'q json_patch_operation" where
  "text_injection = \<lparr>jp_operation = ''add'', jp_path = ''/metadata/annotations'', jp_value = PvAny (GStr ''x'')\<rparr>"

lemma sample_read: "readAdmissionReview (sample_env pod) sample_http = Inr sample_review"
  by (simp add: readAdmissionReview_def read_body_def max_body_def deserializeAdmissionReview_def sample_env_def
      sample_http_def sample_review_def)

lemma sample_deserialize:
  "pod_namespace pod \<noteq> [] \<Longrightarrow> deserializePod (sample_env pod) sample_review = Some (pod, None)"
  by (simp add: deserializePod_def sample_env_def sample_review_def)

section \<open>Properties\<close>

text \<open>
  C2: the patch as a whole. For a pod with containers, whatever its volumes, mounts, variables
  and resources, the operations built for it all apply in their order, and together they make
  exactly the composition of the effects of the parts; without resources to inject only the
  node selector changes.
\<close>

theorem build_patch_refines:
  assumes "reqs \<noteq> [] \<Longrightarrow> pod_containers pod \<noteq> []" "collect_patches udp [] = Some injected"
  shows "\<exists>patch. build_patch Q ords sw pod udp reqs sel = Some patch \<and>
     apply_patch patch (document_of pod) =
       Some (patched_document Q ords (IsHonorExistingResourcesEnabled sw) (IsHugePagedownAPIEnabled sw) pod injected reqs sel)"
  using build_patch_document [OF assms] .

theorem build_patch_refines_witness:
  "\<exists>patch. build_patch int_quantities (\<lambda>site. rev) (ws_switches (sample_state [])) sample_pod [] [(''hw/pf'', 2)] [] = Some patch \<and>
     apply_patch patch (document_of sample_pod) =
       Some (patched_document int_quantities (\<lambda>site. rev) (IsHonorExistingResourcesEnabled (ws_switches (sample_state [])))
         (IsHugePagedownAPIEnabled (ws_switches (sample_state []))) sample_pod [] [(''hw/pf'', 2)] [])"
  by (rule build_patch_refines) (simp_all add: sample_pod_def)

text \<open>
  C9: every reply answers its request: once a review with a request has been read, the handler
  replies with an HTTP error 400 or with the review and a response that carries the request's
  UID, has a patch only if the pod is allowed, and then has the patch type JSONPatch.
\<close>

theorem handler_answers_request:
  assumes "readAdmissionReview env req = Inr ar" "ar_request ar = Some request"
    "MutateHandler env ords st req = Some reply"
  shows "answers request reply"
  using assms by (auto simp: MutateHandler_def answers_validation mutate_pod_answers
      split: Option.bind_splits option.splits)

theorem handler_answers_request_witness:
  "answers sample_request (verdict_reply True ''Pod spec doesn't have network annotations. Skipping...'' sample_review) \<and>
   MutateHandler (sample_env (sample_pod\<lparr>pod_annotations := []\<rparr>)) (\<lambda>site ks. ks) (sample_state []) sample_http =
     Some (verdict_reply True ''Pod spec doesn't have network annotations. Skipping...'' sample_review)"
proof -
  let ?pod = "sample_pod\<lparr>pod_annotations := []\<rparr>"
  have none: "getNetworkSelections k ?pod (CreateUserDefinedPatch (\<lambda>ks. ks) (ws_injections (sample_state [])) ?pod) = Some ([], False)" for k
    by (simp add: getNetworkSelections_def CreateUserDefinedPatch_def sample_state_def map_range_def map_keys_def)
  have run: "MutateHandler (sample_env ?pod) (\<lambda>site ks. ks) (sample_state []) sample_http =
     Some (verdict_reply True ''Pod spec doesn't have network annotations. Skipping...'' sample_review)"
    using MutateHandler_pod [OF sample_read sample_deserialize] none
    by (simp add: mutate_pod_def sample_pod_def)
  show ?thesis
    using handler_answers_request [OF sample_read _ run, of sample_request] run by (simp add: sample_review_def)
qed

text \<open>
  C23: what is refused as a request. A request gets past the reading exactly when its body has
  between one byte and a mebibyte, its content type is application/json, and the body decodes to
  an object of the kind AdmissionReview; otherwise the reply is an HTTP error, 415 for the
  content type of a body that is there and 400 for anything else.
\<close>

theorem request_validation:
  "case readAdmissionReview env req of
     Inl (httpStatus, err) \<Rightarrow>
       \<not> (\<exists>ar. acceptable_request env req ar) \<and>
       MutateHandler env ords st req = Some (HttpError httpStatus err) \<and>
       httpStatus = (if read_body req \<noteq> [] \<and> hr_content_type req \<noteq> ''application/json'' then 415 else 400)
   | Inr ar \<Rightarrow> acceptable_request env req ar"
  by (auto simp: readAdmissionReview_def deserializeAdmissionReview_def MutateHandler_def read_body_def max_body_def Let_def
      acceptable_request_def split: sum.splits option.splits prod.splits if_splits)

text \<open>
  C35: every request with a review gets a reply: the handler does not panic. It rests on four
  things: the review has a request; every stored injection is an object of strings; the pod, if
  it decodes, has a container; and neither of its two network annotations, its own or injected,
  is a JSON array with a null element.
\<close>

theorem handler_always_replies:
  assumes "readAdmissionReview env req = Inr ar" "ar_request ar = Some request"
    "lawful_orders ords" "injections_ok (ws_injections st)" "injections_typed (ws_injections st)"
    "\<And>pod. deserializePod env ar = Some (pod, None) \<Longrightarrow> pod_containers pod \<noteq> []"
    "\<And>pod key selection. deserializePod env ar = Some (pod, None) \<Longrightarrow>
       getNetworkSelections key pod (CreateUserDefinedPatch (ords RangePatchs) (ws_injections st) pod) = Some (selection, True) \<Longrightarrow>
       key \<in> {defaultNetworkAnnotationKey, networksAnnotationKey} \<Longrightarrow> no_null_elements selection"
  shows "\<exists>reply. MutateHandler env ords st req = Some reply"
proof -
  obtain pod err where pod: "deserializePod env ar = Some (pod, err)"
    using deserializePod_result [OF assms(2)] by blast
  show ?thesis
  proof (cases err)
    case None
    let ?udp = "CreateUserDefinedPatch (ords RangePatchs) (ws_injections st) pod"
    obtain injected where injected: "collect_patches ?udp [] = Some injected"
      using typed_injections_collect assms(3-5) unfolding lawful_orders_def by metis
    have found: "getNetworkSelections key pod ?udp = Some (found (network_annotation key pod injected))" for key
      by (rule getNetworkSelections_found [OF injected])
    have "no_null_elements (fst (found (network_annotation key pod injected)))"
      if "key \<in> {defaultNetworkAnnotationKey, networksAnnotationKey}" for key
      using assms(7) [OF pod [unfolded None], of key] found [of key] that
      by (cases "network_annotation key pod injected") (simp_all add: found_def no_null_elements_Nil)
    then have "after_selections env ords st ar pod
        (fst (found (network_annotation defaultNetworkAnnotationKey pod injected)))
        (fst (found (network_annotation networksAnnotationKey pod injected))) \<noteq> None"
      using after_selections_replies [where ords = ords and st = st, OF assms(6) [OF pod [unfolded None]] injected] by simp
    then show ?thesis
      unfolding handler_after_selections [where ords = ords and st = st, OF assms(1,2) pod [unfolded None] injected] by auto
  qed (use assms(1) pod in \<open>simp add: MutateHandler_def\<close>)
qed

theorem handler_always_replies_witness:
  "\<exists>reply. MutateHandler (sample_env two_networks) (\<lambda>site. rev) (sample_state [(''a'', example_operation)]) sample_http = Some reply"
proof (rule handler_always_replies)
  have read: "deserializePod (sample_env two_networks) sample_review = Some (two_networks, None)"
    by (rule sample_deserialize) (simp add: two_networks_def sample_pod_def)
  show "readAdmissionReview (sample_env two_networks) sample_http = Inr sample_review"
    by (rule sample_read)
  show "ar_request sample_review = Some sample_request"
    by (simp add: sample_review_def)
  show "pod_containers pod \<noteq> []" if "deserializePod (sample_env two_networks) sample_review = Some (pod, None)" for pod
    using that read by (auto simp: two_networks_def sample_pod_def)
  show "no_null_elements selection"
    if "deserializePod (sample_env two_networks) sample_review = Some (pod, None)"
      "getNetworkSelections key pod (CreateUserDefinedPatch rev (ws_injections (sample_state [(''a'', example_operation)])) pod) = Some (selection, True)"
      "key \<in> {defaultNetworkAnnotationKey, networksAnnotationKey}" for pod key selection
  proof -
    have "selection = ''d'' \<or> selection = ''a,b,a''"
      using that read by (auto simp: getNetworkSelections_def two_networks_def networksAnnotationKey_def defaultNetworkAnnotationKey_def)
    moreover have "no_null_elements ''d''" "no_null_elements ''a,b,a''"
      by code_simp+
    ultimately show ?thesis by blast
  qed
qed (simp_all add: lawful_identity sample_state_def injections_ok_def injections_typed_def example_operation_def annotations_path_def
    wf_map_def map_keys_def split: if_splits)

text \<open>
  C24: a decoding error of the pod is lost exactly when the decoded part names no namespace and
  the request does: then the handler does for any further state and request the same as if that
  part had been decoded without an error. In all other cases the pod is denied.
\<close>

theorem pod_decode_error_lost:
  assumes "readAdmissionReview env req = Inr ar" "ar_request ar = Some request"
    "env_decode_pod env (rq_object_raw request) = (pod, Some err)"
  shows "if pod_namespace pod = [] \<and> rq_namespace request \<noteq> []
    then MutateHandler env ords st req = MutateHandler (env\<lparr>env_decode_pod := \<lambda>raw. (pod, None)\<rparr>) ords st req
    else \<exists>message. MutateHandler env ords st req = Some (verdict_reply False message ar)"
proof (cases "pod_namespace pod = [] \<and> rq_namespace request \<noteq> []")
  case True
  let ?env = "env\<lparr>env_decode_pod := \<lambda>raw. (pod, None)\<rparr>"
  let ?pod = "pod\<lparr>pod_namespace := rq_namespace request\<rparr>"
  have "deserializePod env ar = Some (?pod, None)" "deserializePod ?env ar = Some (?pod, None)"
    using True assms(2,3) by (simp_all add: deserializePod_def)
  then have "MutateHandler env ords st req = mutate_pod env ords st ar ?pod"
    "MutateHandler ?env ords st req = mutate_pod ?env ords st ar ?pod"
    using assms(1) by (simp_all add: MutateHandler_pod readAdmissionReview_other_pods)
  then show ?thesis
    using True by (simp add: mutate_pod_other_pods)
next
  case False
  then obtain pod' message where "deserializePod env ar = Some (pod', Some message)"
    using deserializePod_error [OF assms(2,3)] by blast
  then show ?thesis
    unfolding if_not_P [OF False]
    by (auto simp: MutateHandler_def assms(1) handleValidationError_def verdict_reply_def prepare_request [OF assms(2)])
qed

theorem pod_decode_error_lost_witness:
  "MutateHandler ((sample_env two_networks)\<lparr>env_decode_review := \<lambda>body. (namespaced_review, None),
       env_decode_pod := \<lambda>raw. (two_networks\<lparr>pod_namespace := []\<rparr>, Some ''cannot unmarshal'')\<rparr>) (\<lambda>site. rev) (sample_state []) sample_http =
   MutateHandler ((sample_env two_networks)\<lparr>env_decode_review := \<lambda>body. (namespaced_review, None),
       env_decode_pod := \<lambda>raw. (two_networks\<lparr>pod_namespace := []\<rparr>, None)\<rparr>) (\<lambda>site. rev) (sample_state []) sample_http"
proof -
  let ?env = "(sample_env two_networks)\<lparr>env_decode_review := \<lambda>body. (namespaced_review, None),
       env_decode_pod := \<lambda>raw. (two_networks\<lparr>pod_namespace := []\<rparr>, Some ''cannot unmarshal'')\<rparr>"
  have "readAdmissionReview ?env sample_http = Inr namespaced_review"
    by (simp add: readAdmissionReview_def read_body_def max_body_def deserializeAdmissionReview_def sample_http_def
        namespaced_review_def sample_review_def)
  from pod_decode_error_lost [OF this, of "sample_request\<lparr>rq_namespace := ''ns''\<rparr>" "two_networks\<lparr>pod_namespace := []\<rparr>" "''cannot unmarshal''" "\<lambda>site. rev" "sample_state []"]
  show ?thesis
    by (simp add: namespaced_review_def)
qed

text \<open>
  C33: a pod without network annotations, of its own or injected, is allowed without a patch.
\<close>

theorem no_networks_allowed:
  assumes "readAdmissionReview env req = Inr ar" "ar_request ar = Some request" "deserializePod env ar = Some (pod, None)"
    "collect_patches (CreateUserDefinedPatch (ords RangePatchs) (ws_injections st) pod) [] = Some injected"
    "\<not> has_network_annotations pod injected"
  shows "MutateHandler env ords st req =
     Some (HttpReview (ar\<lparr>ar_response := Some
       \<lparr>rs_uid = rq_uid request, rs_allowed = True,
        rs_message = Some ''Pod spec doesn't have network annotations. Skipping...'', rs_patch = None, rs_patch_type = None\<rparr>\<rparr>))"
  using assms(5) unfolding handler_after_selections [where ords = ords and st = st, OF assms(1-4)]
  by (simp add: verdict_reply_def prepare_request [OF assms(2)])

theorem no_networks_allowed_witness:
  "MutateHandler (sample_env (sample_pod\<lparr>pod_annotations := [(''k'', ''v'')]\<rparr>)) (\<lambda>site. rev) (sample_state []) sample_http =
     Some (HttpReview (sample_review\<lparr>ar_response := Some
       \<lparr>rs_uid = ''u1'', rs_allowed = True,
        rs_message = Some ''Pod spec doesn't have network annotations. Skipping...'', rs_patch = None, rs_patch_type = None\<rparr>\<rparr>))"
proof -
  let ?pod = "sample_pod\<lparr>pod_annotations := [(''k'', ''v'')]\<rparr>"
  have none: "\<not> has_network_annotations ?pod []" "collect_patches (CreateUserDefinedPatch rev (ws_injections (sample_state [])) ?pod) [] = Some []"
    by (simp_all add: has_network_annotations_def network_annotation_def defaultNetworkAnnotationKey_def networksAnnotationKey_def
        CreateUserDefinedPatch_def sample_state_def map_range_def map_keys_def)
  show ?thesis
    using no_networks_allowed [where ords = "\<lambda>site. rev", OF sample_read _ sample_deserialize none(2,1), of sample_request]
    by (simp add: sample_review_def sample_request_def sample_pod_def)
qed

definition named_resources :: "'q environment \<Rightarrow> 'q webhook_state \<Rightarrow> network_selection list \<Rightarrow> string list" where
  "named_resources env st nets =
     concat (map (\<lambda>n. requests_of (GetResourceNameKeys (ws_switches st)) (network_annotations (nad_source_of env st) n)) nets)"

text \<open>
  C1: the networks decide. For a pod with containers and network annotations, its own or
  injected, that parse: if every network, the default one included, is found and has at most
  one label, the pod is allowed with a patch that applies to it. Let a resource be named n times,
  counted in 64 bits, by the networks and the resource-name keys. Where existing resources are honoured the first
  container's requests and limits become n more than they were; where they are not, they become n
  unless some container already asks for the resource, and stay as they were if one does.
  Resources that are not named stay, and no container changes when none is named. If one network is not found or has several labels, the pod
  is denied, without a patch.
\<close>

theorem networks_decide_verdict:
  assumes "readAdmissionReview env req = Inr ar" "ar_request ar = Some request" "deserializePod env ar = Some (pod, None)"
    "collect_patches (CreateUserDefinedPatch (ords RangePatchs) (ws_injections st) pod) [] = Some injected"
    "has_network_annotations pod injected"
    "selected_networks env pod (network_annotation defaultNetworkAnnotationKey pod injected) = Some defaults"
    "selected_networks env pod (network_annotation networksAnnotationKey pod injected) = Some additional"
    "lawful_orders ords" "pod_containers pod \<noteq> []" "nets = handled_networks defaults additional"
  shows "if list_all (network_ok (nad_source_of env st)) nets
    then \<exists>patch doc reqs.
      MutateHandler env ords st req = Some (patched_reply patch ar) \<and> apply_patch patch (document_of pod) = Some doc \<and>
      map_of reqs = counter (named_resources env st nets) \<and>
      (if reqs = [] then pd_containers doc = pd_containers (document_of pod)
       else asks_for doc
         (expected_resources (env_quantity env) (IsHonorExistingResourcesEnabled (ws_switches st)) (pod_containers pod) reqs
            (ct_requests (hd (pod_containers pod))))
         (expected_resources (env_quantity env) (IsHonorExistingResourcesEnabled (ws_switches st)) (pod_containers pod) reqs
            (ct_limits (hd (pod_containers pod)))))
    else \<exists>message. MutateHandler env ords st req = Some (verdict_reply False message ar)"
proof -
  let ?src = "nad_source_of env st" and ?keys = "GetResourceNameKeys (ws_switches st)"
  let ?udp = "CreateUserDefinedPatch (ords RangePatchs) (ws_injections st) pod"
  obtain reqs sel err where p: "parse_networks ?src ?keys nets [] [] = (reqs, sel, err)"
    by (metis prod_cases3)
  note result = parse_networks_cases [OF counts_Nil p]
  note steps = handler_after_selections [where ords = ords and st = st, OF assms(1-4)] assms(5)
    after_selections_result [OF assms(6,7), folded assms(10)] networks_result_def p
  show ?thesis
  proof (cases "list_all (network_ok ?src) nets")
    case True
    with result have ok: "err = None" "counts (named_resources env st nets) reqs"
      by (simp_all add: named_resources_def)
    obtain patch where patch: "build_patch (env_quantity env) ords (ws_switches st) pod ?udp reqs sel = Some patch"
      "apply_patch patch (document_of pod) = Some (patched_document (env_quantity env) ords
         (IsHonorExistingResourcesEnabled (ws_switches st)) (IsHugePagedownAPIEnabled (ws_switches st)) pod injected reqs sel)"
      using build_patch_document [of reqs pod ?udp injected] assms(4,9) by blast
    have "MutateHandler env ords st req = Some (patched_reply patch ar)"
      using ok(1) patch(1) by (simp add: steps)
    then show ?thesis
      unfolding if_P [OF True] using patch(2) counts_unique [OF ok(2)] ok(2) [unfolded counts_def]
        patched_document_containers [OF assms(9,8), of reqs] by blast
  next
    case False
    with result obtain message where "err = Some message" by auto
    with False show ?thesis
      by (auto simp: steps)
  qed
qed

theorem networks_decide_verdict_witness:
  "(\<exists>patch doc reqs.
      MutateHandler (sample_env two_networks) (\<lambda>site. rev) (sample_state []) sample_http = Some (patched_reply patch sample_review) \<and>
      apply_patch patch (document_of two_networks) = Some doc \<and>
      map_of reqs = counter [''hw/pf'', ''hw/pf'', ''hw/pf'', ''hw/pf''] \<and>
      asks_for doc
        (expected_resources int_quantities False (pod_containers two_networks) reqs [(''cpu'', 4), (''hw/vf'', 1)])
        (expected_resources int_quantities False (pod_containers two_networks) reqs []))"
proof -
  let ?env = "sample_env two_networks" and ?st = "sample_state []"
  let ?net = "\<lambda>n. \<lparr>ns_namespace = ''default'', ns_name = n, ns_interface = []\<rparr>"
  let ?nets = "[?net ''a'', ?net ''b'', ?net ''a'']"
  have udp: "CreateUserDefinedPatch rev (ws_injections ?st) two_networks = []"
    by (simp add: CreateUserDefinedPatch_def sample_state_def map_range_def map_keys_def)
  have find: "find_annotations (nad_source_of ?env ?st) n = Inr [(''r'', ''hw/pf'')]" for n
    by (simp add: find_annotations_def nad_source_of_def sample_state_def cache_Get_def Create_def
        getNetworkAttachmentDefinition_def sample_env_def)
  have ok: "list_all (network_ok (nad_source_of ?env ?st)) ns" for ns
    by (induction ns) (simp_all add: network_ok_def find selector_ok_def nodeSelectorKey_def)
  have keys: "GetResourceNameKeys (ws_switches ?st) = [''r'']"
    by code_simp
  have named: "named_resources ?env ?st (?net ''d'' # ?nets) = [''hw/pf'', ''hw/pf'', ''hw/pf'', ''hw/pf'']"
    by (simp add: named_resources_def keys network_annotations_def find requests_of_def)
  have nets: "selected_networks ?env two_networks (network_annotation defaultNetworkAnnotationKey two_networks []) = Some [?net ''d'']"
    "selected_networks ?env two_networks (network_annotation networksAnnotationKey two_networks []) = Some ?nets"
    "has_network_annotations two_networks []"
    by code_simp+
  have handled: "?net ''d'' # ?nets = handled_networks [?net ''d''] ?nets"
    by (simp add: handled_networks_def)
  have honor: "IsHonorExistingResourcesEnabled (ws_switches ?st) = False"
    by code_simp
  have read: "readAdmissionReview ?env sample_http = Inr sample_review" "deserializePod ?env sample_review = Some (two_networks, None)"
    using sample_read sample_deserialize by (simp_all add: two_networks_def sample_pod_def)
  have patches: "collect_patches (CreateUserDefinedPatch rev (ws_injections ?st) two_networks) [] = Some []"
    by (simp add: udp)
  have "ar_request sample_review = Some sample_request" "pod_containers two_networks \<noteq> []"
    "hd (pod_containers two_networks) = sample_container ''a'' [(''cpu'', 4), (''hw/vf'', 1)] []" "env_quantity ?env = int_quantities"
    by (simp_all add: sample_review_def two_networks_def sample_pod_def sample_env_def)
  note facts = this
  have some: "map_of reqs = counter (x # xs) \<Longrightarrow> reqs \<noteq> []" for reqs :: "int64 gomap" and x xs
    by (metis counter_def list.set_intros(1) map_of.simps(1) option.distinct(1))
  note result = networks_decide_verdict [where ords = "\<lambda>site. rev" and st = ?st and pod = two_networks and injected = "[]",
      OF read(1) facts(1) read(2) patches nets(3,1,2) lawful_identity(2) facts(2) handled]
  show ?thesis
    using result unfolding if_P [OF ok] named honor facts(3,4)
  proof (elim exE conjE)
    fix patch doc reqs
    assume asked: "map_of reqs = counter [''hw/pf'', ''hw/pf'', ''hw/pf'', ''hw/pf'']"
      "if reqs = [] then pd_containers doc = pd_containers (document_of two_networks)
       else asks_for doc
         (expected_resources int_quantities False (pod_containers two_networks) reqs
           (ct_requests (sample_container ''a'' [(''cpu'', 4), (''hw/vf'', 1)] [])))
         (expected_resources int_quantities False (pod_containers two_networks) reqs
           (ct_limits (sample_container ''a'' [(''cpu'', 4), (''hw/vf'', 1)] [])))"
    assume "MutateHandler ?env (\<lambda>site. rev) ?st sample_http = Some (patched_reply patch sample_review)"
      "apply_patch patch (document_of two_networks) = Some doc"
    with asked(1) asked(2) [unfolded if_not_P [OF some [OF asked(1)]]] show ?thesis
      by (intro exI [of _ patch] exI [of _ doc] exI [of _ reqs]) (simp add: sample_container_def)
  qed
qed

text \<open>
  Injected annotations only come with resources. When the networks ask for no resource the
  patch has the node selector and nothing else, so an annotation that was injected, and whose
  networks were looked up for the patch, is not added to the pod.
\<close>

lemma no_resources_no_annotations:
  "build_patch Q ords sw pod udp [] sel = Some (createNodeSelectorPatch [] (pod_node_selector pod) sel) \<and>
   list_all (\<lambda>op. jp_path op = ''/spec/nodeSelector'') (createNodeSelectorPatch [] (pod_node_selector pod) sel)"
  by (simp add: build_patch_def createNodeSelectorPatch_def Let_def add_operation_def)

text \<open>
  C34: an injection whose value is not an object panics the handler, in every order of the loop
  over the injections, for a pod that carries its label with the value true, that has no
  default-network annotation of its own, and for which no other stored injection supplies one:
  the search for that annotation then reaches the injection and asserts its type. Injections
  are stored with a value of any type, here with the operation add.
\<close>

theorem injection_value_panics:
  assumes "readAdmissionReview env req = Inr ar" "deserializePod env ar = Some (pod, None)"
    "lawful_order (ords RangePatchs)" "injections_ok (ws_injections st)"
    "map_get (ui_patchs (ws_injections st)) k = Some p" "map_get (pod_labels pod) k = Some v" "to_lower v = ''true''"
    "jp_operation p = ''add''" "\<And>m. jp_value p \<noteq> PvAny (GMap m)"
    "map_get (pod_annotations pod) defaultNetworkAnnotationKey = None"
    "\<And>k' p' m. map_get (ui_patchs (ws_injections st)) k' = Some p' \<Longrightarrow> jp_value p' = PvAny (GMap m) \<Longrightarrow>
       map_get m defaultNetworkAnnotationKey = None"
  shows "MutateHandler env ords st req = None"
proof -
  let ?udp = "CreateUserDefinedPatch (ords RangePatchs) (ws_injections st) pod"
  note selects = CreateUserDefinedPatch_mem [OF assms(3,4)]
  have "p \<in> set ?udp"
    using assms(5-7) selects by blast
  moreover have "map_get m defaultNetworkAnnotationKey = None" if "p' \<in> set ?udp" "jp_value p' = PvAny (GMap m)" for p' m
    using that assms(11) selects by blast
  moreover have "jp_path p = annotations_path"
    using assms(4,5) by (simp add: injections_ok_def)
  ultimately have "search_user_defined defaultNetworkAnnotationKey ?udp = None"
    using assms(8,9) by (intro search_reaches_bad_value) (auto simp: patchOperationAdd_def)
  then show ?thesis
    using assms(10) by (simp add: MutateHandler_pod [OF assms(1,2)] mutate_pod_def getNetworkSelections_def)
qed

theorem injection_value_panics_witness:
  "MutateHandler (sample_env (sample_pod\<lparr>pod_labels := [(''a'', ''True''), (''b'', ''true'')]\<rparr>)) (\<lambda>site. rev)
     (sample_state [(''b'', example_operation), (''a'', text_injection)]) sample_http = None"
proof (rule injection_value_panics [where k = "''a''" and v = "''True''", OF sample_read sample_deserialize])
  show "to_lower ''True'' = ''true''"
    by code_simp
  show "map_get m defaultNetworkAnnotationKey = None"
    if "map_get (ui_patchs (ws_injections (sample_state [(''b'', example_operation), (''a'', text_injection)]))) k' = Some p'"
      "jp_value p' = PvAny (GMap m)" for k' p' m
    using that by (auto simp: sample_state_def example_operation_def text_injection_def defaultNetworkAnnotationKey_def split: if_splits)
qed (auto simp: lawful_identity lawful_order_rev sample_pod_def networksAnnotationKey_def defaultNetworkAnnotationKey_def sample_state_def
    injections_ok_def text_injection_def example_operation_def annotations_path_def wf_map_def map_keys_def split: if_splits)

end
