(* ===== verification/Tls_Config.thy ===== *)
theory Tls_Config
  imports Go_Base
begin

text \<open>
  pkg/webhook/tlsconfig.go and tlsutils.go: the TLS flags of the server, its key pair and the
  pool of client CAs. The flag helpers of Kubernetes component-base, the loading of a key pair
  and the parsing of PEM text are parameters. Error values keep the arguments of their
  messages.
\<close>

type_synonym uint16 = "16 word"

section \<open>strconv.ParseUint in base 10\<close>

datatype num_error = ErrSyntax | ErrRange

text \<open>
  The digits after a first one, checked from the left: a byte that is no digit is a syntax
  error, exceeding the largest value of the width a range error.
\<close>

fun parse_uint_digits :: "int \<Rightarrow> int \<Rightarrow> string \<Rightarrow> num_error + int" where
  "parse_uint_digits max_val n [] = Inr n"
| "parse_uint_digits max_val n (c # s) =
     (case digit_value c of
        None \<Rightarrow> Inl ErrSyntax
      | Some d \<Rightarrow>
          (let n1 = n * 10 + int d in
           if n1 > max_val then Inl ErrRange else parse_uint_digits max_val n1 s))"

definition ParseUint16 :: "string \<Rightarrow> num_error + uint16" where
  "ParseUint16 s =
     (if s = [] then Inl ErrSyntax
      else map_sum id of_int (parse_uint_digits 65535 0 s))"

section \<open>Flags\<close>

datatype tls_error =
    EmptyCipherName
  | FlagError error
  | InsecureCipher string
  | EmptyCurve
  | InvalidCurve string num_error
  | VersionTooLow string

record tls_flag_helpers =
  fl_cipher_suites :: "string list \<Rightarrow> error + uint16 list"
  fl_insecure_ciphers :: "uint16 list"
  fl_version :: "string \<Rightarrow> error + uint16"

definition VersionTLS12 :: uint16 where
  "VersionTLS12 = 0x0303"

fun trim_names :: "string list \<Rightarrow> tls_error + string list" where
  "trim_names [] = Inr []"
| "trim_names (name # names) =
     (if trim_space name = [] then Inl EmptyCipherName
      else map_sum id ((#) (trim_space name)) (trim_names names))"

text \<open>The index of an insecure suite is read in the list of names; past its end that panics.\<close>

fun check_secure :: "uint16 list \<Rightarrow> string list \<Rightarrow> uint16 list \<Rightarrow> tls_error option option" where
  "check_secure insecure names [] = go_return None"
| "check_secure insecure names (i # is) =
     (if i \<in> set insecure then
        (case names of [] \<Rightarrow> go_panic | n # _ \<Rightarrow> go_return (Some (InsecureCipher n)))
      else check_secure insecure (tl names) is)"

definition CipherNamesToIDs :: "tls_flag_helpers \<Rightarrow> string list \<Rightarrow> (tls_error + uint16 list) option" where
  "CipherNamesToIDs fl names =
     (case trim_names names of
        Inl e \<Rightarrow> go_return (Inl e)
      | Inr trimmedNames \<Rightarrow>
          (case fl_cipher_suites fl trimmedNames of
             Inl err \<Rightarrow> go_return (Inl (FlagError err))
           | Inr ids \<Rightarrow> do {
               bad \<leftarrow> check_secure (fl_insecure_ciphers fl) trimmedNames ids;
               go_return (case bad of Some e \<Rightarrow> Inl e | None \<Rightarrow> Inr ids) }))"

text \<open>A nil list, for the defaults of the Go runtime, is \<open>Inr None\<close>.\<close>

definition ParseTLSCipherSuites :: "tls_flag_helpers \<Rightarrow> string \<Rightarrow> (tls_error + uint16 list option) option" where
  "ParseTLSCipherSuites fl cipherSuites =
     (let trimmed = trim_space cipherSuites in
      if trimmed = [] then go_return (Inr None)
      else map_option (map_sum id Some) (CipherNamesToIDs fl (go_split CHR '','' trimmed)))"

fun parse_curves :: "string list \<Rightarrow> tls_error + uint16 list" where
  "parse_curves [] = Inr []"
| "parse_curves (part # parts) =
     (let s = trim_space part in
      if s = [] then Inl EmptyCurve
      else case ParseUint16 s of
        Inl err \<Rightarrow> Inl (InvalidCurve s err)
      | Inr v \<Rightarrow> map_sum id ((#) v) (parse_curves parts))"

definition ParseCurvePreferences :: "string \<Rightarrow> tls_error + uint16 list option" where
  "ParseCurvePreferences curvePreferences =
     (let trimmed = trim_space curvePreferences in
      if trimmed = [] then Inr None
      else map_sum id Some (parse_curves (go_split CHR '','' trimmed)))"

definition TLSVersionToGo :: "tls_flag_helpers \<Rightarrow> string \<Rightarrow> tls_error + uint16" where
  "TLSVersionToGo fl version =
     (let trimmedVersion = trim_space version in
      if trimmedVersion = [] then Inr VersionTLS12
      else case fl_version fl trimmedVersion of
        Inl err \<Rightarrow> Inl (FlagError err)
      | Inr goVersion \<Rightarrow>
          if goVersion < VersionTLS12 then Inl (VersionTooLow trimmedVersion) else Inr goVersion)"

section \<open>Key pair\<close>

type_synonym 'cert key_loader = "string \<Rightarrow> string \<Rightarrow> error + 'cert"

record 'cert tls_keypair_reloader =
  kp_cert :: 'cert
  kp_cert_path :: string
  kp_key_path :: string

definition NewTLSKeypairReloader ::
  "'cert key_loader \<Rightarrow> string \<Rightarrow> string \<Rightarrow> error + 'cert tls_keypair_reloader" where
  "NewTLSKeypairReloader load certPath keyPath =
     (case load certPath keyPath of
        Inl err \<Rightarrow> Inl err
      | Inr cert \<Rightarrow> Inr \<lparr>kp_cert = cert, kp_cert_path = certPath, kp_key_path = keyPath\<rparr>)"

definition Reload ::
  "'cert key_loader \<Rightarrow> 'cert tls_keypair_reloader \<Rightarrow> error + 'cert tls_keypair_reloader" where
  "Reload load keyPair =
     (case load (kp_cert_path keyPair) (kp_key_path keyPair) of
        Inl err \<Rightarrow> Inl err
      | Inr newCert \<Rightarrow> Inr (keyPair\<lparr>kp_cert := newCert\<rparr>))"

definition GetCertificateFunc :: "'cert tls_keypair_reloader \<Rightarrow> 'cert" where
  "GetCertificateFunc keyPair = kp_cert keyPair"

section \<open>Client CA pool\<close>

type_synonym client_ca_flags = "string list"

definition ClientCAFlags_Set :: "client_ca_flags \<Rightarrow> string \<Rightarrow> client_ca_flags" where
  "ClientCAFlags_Set flags path = flags @ [path]"

record 'ca client_cert_pool =
  cp_pool :: "'ca list option"
  cp_paths :: client_ca_flags
  cp_insecure :: bool

record 'ca ca_files =
  fs_read :: "string \<Rightarrow> error + string"
  fs_pem_certs :: "string \<Rightarrow> 'ca list"

text \<open>\<open>AppendCertsFromPEM\<close> adds the certificates that parse, and fails if there is none.\<close>

fun load_ca_files :: "'ca ca_files \<Rightarrow> string list \<Rightarrow> 'ca list \<Rightarrow> 'ca list \<times> error option" where
  "load_ca_files fs [] pool = (pool, None)"
| "load_ca_files fs (path # paths) pool =
     (case fs_read fs path of
        Inl err \<Rightarrow>
          (pool, Some (''failed to load client CA file from path '' @ [CHR 0x27] @ path @ [CHR 0x27]))
      | Inr caCertPem \<Rightarrow>
          (let certs = fs_pem_certs fs caCertPem in
           if certs = [] then
             (pool, Some (''failed to parse client CA file from path '' @ [CHR 0x27] @ path @ [CHR 0x27]))
           else load_ca_files fs paths (pool @ certs)))"

definition pool_Load :: "'ca ca_files \<Rightarrow> 'ca client_cert_pool \<Rightarrow> 'ca client_cert_pool \<times> error option" where
  "pool_Load fs pool =
     (if cp_insecure pool then (pool, None)
      else if length (cp_paths pool) = 0 then (pool, Some ''no client CA file path(s) found'')
      else (let (certs, err) = load_ca_files fs (cp_paths pool) [] in (pool\<lparr>cp_pool := Some certs\<rparr>, err)))"

definition NewClientCertPool ::
  "'ca ca_files \<Rightarrow> client_ca_flags \<Rightarrow> bool \<Rightarrow> error + 'ca client_cert_pool" where
  "NewClientCertPool fs clientCaPaths insecure =
     (let pool = \<lparr>cp_pool = None, cp_paths = clientCaPaths, cp_insecure = insecure\<rparr> in
      if \<not> cp_insecure pool then
        (case pool_Load fs pool of
           (_, Some err) \<Rightarrow> Inl err
         | (pool, None) \<Rightarrow> Inr pool)
      else Inr pool)"

definition GetCertPool :: "'ca client_cert_pool \<Rightarrow> 'ca list option" where
  "GetCertPool pool = (if cp_insecure pool then None else cp_pool pool)"

text \<open>The policies of \<^verbatim>\<open>crypto/tls\<close> for client certificates, ordered by their numbers there.\<close>

datatype client_auth =
    NoClientCert
  | RequestClientCert
  | RequireAnyClientCert
  | VerifyClientCertIfGiven
  | RequireAndVerifyClientCert

primrec client_auth_number :: "client_auth \<Rightarrow> nat" where
  "client_auth_number NoClientCert = 0"
| "client_auth_number RequestClientCert = 1"
| "client_auth_number RequireAnyClientCert = 2"
| "client_auth_number VerifyClientCertIfGiven = 3"
| "client_auth_number RequireAndVerifyClientCert = 4"

instantiation client_auth :: linorder
begin

definition less_eq_client_auth :: "client_auth \<Rightarrow> client_auth \<Rightarrow> bool" where
  "less_eq_client_auth a b \<longleftrightarrow> client_auth_number a \<le> client_auth_number b"

definition less_client_auth :: "client_auth \<Rightarrow> client_auth \<Rightarrow> bool" where
  "less_client_auth a b \<longleftrightarrow> client_auth_number a < client_auth_number b"

instance
proof
  fix x y z :: client_auth
  show "x \<le> y \<Longrightarrow> y \<le> x \<Longrightarrow> x = y"
    by (cases x; cases y) (simp_all add: less_eq_client_auth_def)
qed (auto simp: less_eq_client_auth_def less_client_auth_def)

end

definition GetClientAuth :: "bool \<Rightarrow> client_auth" where
  "GetClientAuth insecure = (if insecure then NoClientCert else RequireAndVerifyClientCert)"

section \<open>Library\<close>

lemma trim_names_eq:
  "trim_names names =
     (if list_all (\<lambda>n. trim_space n \<noteq> []) names then Inr (map trim_space names) else Inl EmptyCipherName)"
  by (induction names) auto

text \<open>The check of the suites, as long as there are no more suites than names.\<close>

lemma check_secure_None:
  "check_secure insecure names ids = Some None \<Longrightarrow> set ids \<inter> set insecure = {}"
  by (induction insecure names ids rule: check_secure.induct) (auto split: if_splits list.splits)

lemma check_secure_total:
  "length ids \<le> length names \<Longrightarrow> check_secure insecure names ids \<noteq> None"
proof (induction insecure names ids rule: check_secure.induct)
  case (2 insecure names i ids)
  then show ?case by (cases names) auto
qed simp

lemma CipherNamesToIDs_Inr:
  assumes "CipherNamesToIDs fl names = Some (Inr ids)"
  shows "fl_cipher_suites fl (map trim_space names) = Inr ids \<and> set ids \<inter> set (fl_insecure_ciphers fl) = {}"
proof -
  obtain ts where ts: "trim_names names = Inr ts"
    using assms by (auto simp: CipherNamesToIDs_def split: sum.splits)
  then obtain ids' bad where ids': "fl_cipher_suites fl ts = Inr ids'" "check_secure (fl_insecure_ciphers fl) ts ids' = Some bad"
    using assms by (auto simp: CipherNamesToIDs_def split: sum.splits Option.bind_splits)
  then have "ids' = ids" "bad = None"
    using assms ts by (auto simp: CipherNamesToIDs_def split: option.splits)
  with ids' ts check_secure_None show ?thesis
    by (auto simp: trim_names_eq split: if_splits)
qed

lemma ParseTLSCipherSuites_Inr:
  assumes "ParseTLSCipherSuites fl s = Some (Inr (Some ids))"
  shows "set ids \<inter> set (fl_insecure_ciphers fl) = {}"
proof -
  obtain z where "CipherNamesToIDs fl (go_split CHR '','' (trim_space s)) = Some z" "map_sum id Some z = Inr (Some ids)"
    using assms by (auto simp: ParseTLSCipherSuites_def Let_def split: if_splits)
  moreover from this(2) have "z = Inr ids"
    by (cases z) simp_all
  ultimately show ?thesis
    using CipherNamesToIDs_Inr by blast
qed

text \<open>Decimal numbers of a port or curve are read back.\<close>

lemma parse_uint_digits_append:
  "parse_uint_digits max_val n (s @ t) =
     (case parse_uint_digits max_val n s of Inl e \<Rightarrow> Inl e | Inr m \<Rightarrow> parse_uint_digits max_val m t)"
  by (induction max_val n s rule: parse_uint_digits.induct) (auto simp: Let_def split: option.splits)

lemma parse_uint_itoa: "int n \<le> max_val \<Longrightarrow> parse_uint_digits max_val 0 (itoa n) = Inr (int n)"
proof (induction n rule: itoa.induct)
  case (1 n)
  show ?case
  proof (cases "n < 10")
    case True
    then show ?thesis
      using 1(2) by (subst itoa.simps) simp
  next
    case False
    have "int (n div 10) \<le> max_val"
      using 1(2) by (smt (verit) div_le_dividend of_nat_le_iff)
    then have "parse_uint_digits max_val 0 (itoa (n div 10)) = Inr (int (n div 10))"
      using 1(1) False by simp
    moreover have "int (n div 10) * 10 + int (n mod 10) = int n"
      by (simp add: zdiv_int zmod_int)
    ultimately show ?thesis
      using 1(2) False by (subst itoa.simps) (simp add: parse_uint_digits_append)
  qed
qed

lemma itoa_plain: "\<forall>c\<in>set (itoa n). plain c"
  using itoa_chars by (fastforce simp: plain_def)

lemma itoa_no_comma: "CHR '','' \<notin> set (itoa n)"
  using itoa_chars [of "CHR '',''" n] by (auto simp: byte_def)

lemma ParseUint16_itoa: "ParseUint16 (itoa (unat (w :: uint16))) = Inr w"
proof -
  have "int (unat w) < 65536"
    using uint_bounded [of w] by simp
  then have "parse_uint_digits 65535 0 (itoa (unat w)) = Inr (int (unat w))"
    by (intro parse_uint_itoa) simp
  then show ?thesis
    by (simp add: ParseUint16_def)
qed

lemma parse_curves_itoa: "parse_curves (map (\<lambda>w. itoa (unat w)) ws) = Inr ws"
  by (induction ws) (auto simp: trim_space_all_plain [OF itoa_plain] ParseUint16_itoa Let_def)

lemma load_ca_files_None:
  "load_ca_files fs paths pool = (certs, None) \<longleftrightarrow>
   list_all (\<lambda>p. \<exists>pem. fs_read fs p = Inr pem \<and> fs_pem_certs fs pem \<noteq> []) paths \<and>
   certs = pool @ concat (map (\<lambda>p. case fs_read fs p of Inl e \<Rightarrow> [] | Inr pem \<Rightarrow> fs_pem_certs fs pem) paths)"
  by (induction paths arbitrary: pool) (auto simp: Let_def split: sum.splits)

section \<open>Properties\<close>

text \<open>
  C28: the cipher-suite flag. No insecure suite is ever configured: an accepted list is what the
  names, without white space around them, stand for, and none of its suites is one of the
  insecure ones; when the names stand for at most one suite each, the check cannot panic.
\<close>

theorem cipher_suites_secure:
  "(case ParseTLSCipherSuites fl s of
      Some (Inr (Some ids)) \<Rightarrow>
        fl_cipher_suites fl (map trim_space (go_split CHR '','' (trim_space s))) = Inr ids \<and>
        set ids \<inter> set (fl_insecure_ciphers fl) = {}
    | Some (Inr None) \<Rightarrow> trim_space s = []
    | Some (Inl e) \<Rightarrow> trim_space s \<noteq> []
    | None \<Rightarrow> \<exists>names ids. fl_cipher_suites fl names = Inr ids \<and> length names < length ids)"
proof (cases "trim_space s = []")
  case False
  let ?names = "go_split CHR '','' (trim_space s)"
  show ?thesis
  proof (cases "CipherNamesToIDs fl ?names")
    case None
    then obtain ts ids where "fl_cipher_suites fl ts = Inr ids" "check_secure (fl_insecure_ciphers fl) ts ids = None"
      by (auto simp: CipherNamesToIDs_def split: sum.splits Option.bind_splits)
    then have "\<exists>names ids. fl_cipher_suites fl names = Inr ids \<and> length names < length ids"
      using check_secure_total not_le by metis
    with None False show ?thesis
      by (simp add: ParseTLSCipherSuites_def Let_def)
  next
    case (Some res)
    then show ?thesis
      using False CipherNamesToIDs_Inr [of fl ?names]
      by (cases res) (auto simp: ParseTLSCipherSuites_def Let_def)
  qed
qed (simp add: ParseTLSCipherSuites_def)

text \<open>
  C27: the curve flag round-trips: any non-empty list of 16-bit curve numbers, written in
  decimal and separated by commas, is read back as that list.
\<close>

theorem curve_preferences_roundtrip:
  "ws \<noteq> [] \<Longrightarrow> ParseCurvePreferences (go_join '','' (map (\<lambda>w. itoa (unat w)) ws)) = Inr (Some ws)"
proof -
  assume ws: "ws \<noteq> []"
  let ?t = "go_join '','' (map (\<lambda>w. itoa (unat w)) ws)"
  have "plain CHR '',''" by (simp add: plain_def byte_def)
  then have "\<forall>c\<in>set ?t. plain c"
    using set_go_join itoa_plain by fastforce
  then have trim: "trim_space ?t = ?t"
    by (rule trim_space_all_plain)
  have split: "go_split CHR '','' ?t = map (\<lambda>w. itoa (unat w)) ws"
    using ws itoa_no_comma by (intro go_split_join) auto
  have "?t \<noteq> []"
    using ws by (cases ws; cases "tl ws") auto
  then show ?thesis
    by (simp add: ParseCurvePreferences_def Let_def trim split parse_curves_itoa)
qed

theorem curve_preferences_roundtrip_witness:
  "ParseCurvePreferences (go_join '','' [itoa 29, itoa 23, itoa 4588]) = Inr (Some [29, 23, 4588])"
  using curve_preferences_roundtrip [of "[29, 23, 4588]"] by simp

end
