(* ===== verification/Webhook_Main.thy ===== *)
theory Webhook_Main
  imports Mutate_Handler Tls_Config
begin

text \<open>
  cmd/webhook/main.go: checking the flags and building the server's configuration, the route
  to the handler, and the loop that watches the certificate files and polls the ConfigMap.
\<close>

definition defaultClientCa :: string where
  "defaultClientCa = ''/var/run/secrets/kubernetes.io/serviceaccount/ca.crt''"

definition isValidPort :: "int \<Rightarrow> bool" where
  "isValidPort port = (if port < 1024 \<or> port > 65535 then False else True)"

section \<open>Start\<close>

record cli_flags =
  cl_port :: int
  cl_address :: string
  cl_cert :: string
  cl_key :: string
  cl_insecure :: bool
  cl_client_ca :: client_ca_flags
  cl_health_check_port :: int
  cl_enable_http2 :: bool
  cl_cipher_suites :: string
  cl_min_version :: string
  cl_curve_preferences :: string
  cl_inject_hugepage :: bool
  cl_resource_name_keys :: string
  cl_honor_resources :: bool

definition default_flags :: cli_flags where
  "default_flags =
     \<lparr>cl_port = 8443, cl_address = ''0.0.0.0'', cl_cert = ''cert.pem'', cl_key = ''key.pem'', cl_insecure = False,
      cl_client_ca = [], cl_health_check_port = 8444, cl_enable_http2 = False, cl_cipher_suites = [],
      cl_min_version = [], cl_curve_preferences = [], cl_inject_hugepage = False,
      cl_resource_name_keys = cs_resource_name_keys_flag SetupControlSwitchesFlags, cl_honor_resources = False\<rparr>"

text \<open>Flags that end the process with \<open>glog.Fatalf\<close>, in the order of the checks.\<close>

datatype fatal =
    FatalPort
  | FatalResourceName
  | FatalInput
  | FatalHealthCheckPort
  | FatalSamePort
  | FatalCertificate error
  | FatalClientCA error
  | FatalCipherSuites tls_error
  | FatalMinVersion tls_error
  | FatalCurves tls_error
  | FatalWatcher error
  | FatalWatchCertificate error
  | FatalWatchKey error

record ('cert, 'ca) host =
  ho_load_keypair :: "'cert key_loader"
  ho_ca_files :: "'ca ca_files"
  ho_tls_flags :: tls_flag_helpers
  ho_env_namespace :: string

record 'ca server_config =
  sc_client_auth :: client_auth
  sc_min_version :: uint16
  sc_client_cas :: "'ca list option"
  sc_cipher_suites :: "uint16 list option"
  sc_curve_preferences :: "uint16 list option"
  sc_http2 :: bool

record ('cert, 'ca) started =
  su_namespace :: string
  su_client_ca :: client_ca_flags
  su_switches :: control_switches
  su_keypair :: "'cert tls_keypair_reloader"
  su_config :: "'ca server_config"

definition check_flags :: "cli_flags \<Rightarrow> control_switches \<Rightarrow> fatal option" where
  "check_flags fl sw =
     (if \<not> isValidPort (cl_port fl) then Some FatalPort
      else if \<not> IsResourcesNameEnabled sw then Some FatalResourceName
      else if cl_address fl = [] \<or> cl_cert fl = [] \<or> cl_key fl = [] then Some FatalInput
      else if \<not> isValidPort (cl_health_check_port fl) then Some FatalHealthCheckPort
      else if cl_health_check_port fl = cl_port fl then Some FatalSamePort
      else None)"

definition client_ca_paths :: "cli_flags \<Rightarrow> client_ca_flags" where
  "client_ca_paths fl =
     (if length (cl_client_ca fl) = 0 then cl_client_ca fl @ [defaultClientCa] else cl_client_ca fl)"

definition start :: "('cert, 'ca) host \<Rightarrow> cli_flags \<Rightarrow> (fatal + ('cert, 'ca) started) option" where
  "start ho fl =
     (let sw = InitControlSwitches (SetupControlSwitchesFlags
                 \<lparr>cs_inject_hugepage := cl_inject_hugepage fl,
                  cs_resource_name_keys_flag := cl_resource_name_keys fl,
                  cs_resources_honor := cl_honor_resources fl\<rparr>);
          namespace = (if ho_env_namespace ho = [] then ''kube-system'' else ho_env_namespace ho)
      in case check_flags fl sw of
           Some f \<Rightarrow> go_return (Inl f)
         | None \<Rightarrow>
      (case NewTLSKeypairReloader (ho_load_keypair ho) (cl_cert fl) (cl_key fl) of
         Inl err \<Rightarrow> go_return (Inl (FatalCertificate err))
       | Inr keyPair \<Rightarrow>
      (case NewClientCertPool (ho_ca_files ho) (client_ca_paths fl) (cl_insecure fl) of
         Inl err \<Rightarrow> go_return (Inl (FatalClientCA err))
       | Inr clientCaPool \<Rightarrow> do {
           suites \<leftarrow> ParseTLSCipherSuites (ho_tls_flags ho) (cl_cipher_suites fl);
           (case suites of
              Inl err \<Rightarrow> go_return (Inl (FatalCipherSuites err))
            | Inr cipherSuites \<Rightarrow>
           (case TLSVersionToGo (ho_tls_flags ho) (cl_min_version fl) of
              Inl err \<Rightarrow> go_return (Inl (FatalMinVersion err))
            | Inr minVersion \<Rightarrow>
           (case ParseCurvePreferences (cl_curve_preferences fl) of
              Inl err \<Rightarrow> go_return (Inl (FatalCurves err))
            | Inr curvePreferences \<Rightarrow>
                go_return (Inr
                  \<lparr>su_namespace = namespace, su_client_ca = client_ca_paths fl, su_switches = sw,
                   su_keypair = keyPair,
                   su_config = \<lparr>sc_client_auth = GetClientAuth (cl_insecure fl),
                                sc_min_version = minVersion,
                                sc_client_cas = GetCertPool clientCaPool,
                                sc_cipher_suites = cipherSuites,
                                sc_curve_preferences = curvePreferences,
                                sc_http2 = cl_enable_http2 fl\<rparr>\<rparr>)))) })))"

section \<open>The route\<close>

text \<open>
  The function registered for the path: it checks the path and the method itself before it
  calls the handler.
\<close>

definition serve ::
  "'q environment \<Rightarrow> range_orders \<Rightarrow> 'q webhook_state \<Rightarrow> http_request \<Rightarrow> 'q http_reply option" where
  "serve env ords st req =
     (if hr_path req \<noteq> ''/mutate'' then go_return (HttpError 404 ''404 page not found'')
      else if hr_method req \<noteq> ''POST'' then go_return (HttpError 405 ''Invalid HTTP verb requested'')
      else MutateHandler env ords st req)"

text \<open>The status of the health-check server, which has two routes.\<close>

definition health_check :: "string \<Rightarrow> int" where
  "health_check path = (if path = ''/healthz'' \<or> path = ''/readyz'' then 200 else 404)"

section \<open>The loop\<close>

datatype fs_op = FsCreate | FsWrite | FsRemove | FsRename | FsChmod | FsOther

text \<open>What getting the ConfigMap returns: an object, or nil, and the kind of error.\<close>

datatype cm_error = CmNoError | CmNotFound | CmOtherError

datatype loop_event =
    WatcherEvent "fs_op list" string
  | WatcherEventsClosed
  | WatcherError error
  | WatcherErrorsClosed
  | PollTick range_order cm_error "string gomap option"

record ('q, 'cert) loop_state =
  lp_cert_updated :: bool
  lp_key_updated :: bool
  lp_keypair :: "'cert tls_keypair_reloader"
  lp_switches :: control_switches
  lp_injections :: "'q user_defined_injections"

datatype ('q, 'cert) loop_outcome =
    Running "('q, 'cert) loop_state"
  | FatalReload error
  | Panicked

definition watched_op :: "fs_op list \<Rightarrow> bool" where
  "watched_op ops = list_ex (\<lambda>o1. o1 \<in> {FsCreate, FsRename, FsRemove, FsWrite, FsChmod}) ops"

definition watcher_event ::
  "'cert key_loader \<Rightarrow> fs_op list \<Rightarrow> string \<Rightarrow> ('q, 'cert) loop_state \<Rightarrow> ('q, 'cert) loop_outcome" where
  "watcher_event load ops name st =
     (if \<not> watched_op ops then Running st
      else
        (let st = (if name = kp_cert_path (lp_keypair st) then st\<lparr>lp_cert_updated := True\<rparr> else st);
             st = (if name = kp_key_path (lp_keypair st) then st\<lparr>lp_key_updated := True\<rparr> else st)
         in if lp_key_updated st \<and> lp_cert_updated st then
              (case Reload load (lp_keypair st) of
                 Inl err \<Rightarrow> FatalReload err
               | Inr kp \<Rightarrow> Running (st\<lparr>lp_keypair := kp, lp_cert_updated := False, lp_key_updated := False\<rparr>))
            else Running st))"

definition poll_tick ::
  "range_order \<Rightarrow> cm_error \<Rightarrow> string gomap option \<Rightarrow> ('q, 'cert) loop_state \<Rightarrow> ('q, 'cert) loop_outcome" where
  "poll_tick ord err cm st =
     (if err = CmOtherError then Running st
      else case cm of
        None \<Rightarrow> Panicked
      | Some data \<Rightarrow>
          (case ProcessControlSwitchesConfigMap data (lp_switches st) of
             None \<Rightarrow> Panicked
           | Some sw \<Rightarrow>
               Running (st\<lparr>lp_switches := sw,
                           lp_injections := SetUserDefinedInjections ord data (lp_injections st)\<rparr>)))"

fun loop_step ::
  "'cert key_loader \<Rightarrow> loop_event \<Rightarrow> ('q, 'cert) loop_state \<Rightarrow> ('q, 'cert) loop_outcome" where
  "loop_step load (WatcherEvent ops name) st = watcher_event load ops name st"
| "loop_step load WatcherEventsClosed st = Running st"
| "loop_step load (WatcherError err) st = Running st"
| "loop_step load WatcherErrorsClosed st = Running st"
| "loop_step load (PollTick ord err cm) st = poll_tick ord err cm st"

text \<open>
  Before the loop main sets up the watcher of the two files; what the watcher answers is a
  parameter. \<open>run_main\<close> is the whole of main up to the loop.
\<close>

record watcher_host =
  wh_new :: "error option"
  wh_add :: "string \<Rightarrow> error option"

definition watch_files :: "watcher_host \<Rightarrow> cli_flags \<Rightarrow> fatal option" where
  "watch_files wh fl =
     (case wh_new wh of
        Some err \<Rightarrow> Some (FatalWatcher err)
      | None \<Rightarrow>
     (case wh_add wh (cl_cert fl) of
        Some err \<Rightarrow> Some (FatalWatchCertificate err)
      | None \<Rightarrow>
     (case wh_add wh (cl_key fl) of
        Some err \<Rightarrow> Some (FatalWatchKey err)
      | None \<Rightarrow> None)))"

definition loop_init :: "('cert, 'ca) started \<Rightarrow> ('q, 'cert) loop_state" where
  "loop_init su =
     \<lparr>lp_cert_updated = False, lp_key_updated = False, lp_keypair = su_keypair su,
      lp_switches = su_switches su, lp_injections = CreateUserInjectionsStructure\<rparr>"

definition run_main ::
  "('cert, 'ca) host \<Rightarrow> watcher_host \<Rightarrow> cli_flags \<Rightarrow> (fatal + ('q, 'cert) loop_state) option" where
  "run_main ho wh fl = do {
     started \<leftarrow> start ho fl;
     go_return (case started of
       Inl f \<Rightarrow> Inl f
     | Inr su \<Rightarrow> (case watch_files wh fl of Some f \<Rightarrow> Inl f | None \<Rightarrow> Inr (loop_init su))) }"

section \<open>Library\<close>

subsection \<open>Start\<close>

lemma TLSVersionToGo_min: "TLSVersionToGo fl v = Inr ver \<Longrightarrow> VersionTLS12 \<le> ver"
  by (auto simp: TLSVersionToGo_def Let_def split: if_splits sum.splits)

lemma NewClientCertPool_Inr:
  assumes "NewClientCertPool fs paths insecure = Inr pool"
  shows "GetCertPool pool =
     (if insecure then None
      else Some (concat (map (\<lambda>p. case fs_read fs p of Inl e \<Rightarrow> [] | Inr pem \<Rightarrow> fs_pem_certs fs pem) paths))) \<and>
     (insecure \<or> list_all (\<lambda>p. \<exists>pem. fs_read fs p = Inr pem \<and> fs_pem_certs fs pem \<noteq> []) paths)"
proof (cases insecure)
  case False
  obtain certs err where l: "load_ca_files fs paths [] = (certs, err)"
    by (cases "load_ca_files fs paths []")
  then have "err = None" "paths \<noteq> []" "pool = \<lparr>cp_pool = Some certs, cp_paths = paths, cp_insecure = False\<rparr>"
    using assms False by (auto simp: NewClientCertPool_def pool_Load_def Let_def split: if_splits option.splits)
  with l show ?thesis
    using load_ca_files_None [of fs paths "[]" certs] False by (simp add: GetCertPool_def)
qed (use assms in \<open>auto simp: NewClientCertPool_def GetCertPool_def\<close>)

lemma start_cases:
  assumes "start ho fl = Some (Inr su)"
  obtains keyPair pool suites minVersion curves where
    "check_flags fl (su_switches su) = None"
    "su_switches su = InitControlSwitches (SetupControlSwitchesFlags
       \<lparr>cs_inject_hugepage := cl_inject_hugepage fl, cs_resource_name_keys_flag := cl_resource_name_keys fl,
        cs_resources_honor := cl_honor_resources fl\<rparr>)"
    "NewTLSKeypairReloader (ho_load_keypair ho) (cl_cert fl) (cl_key fl) = Inr keyPair" "su_keypair su = keyPair"
    "NewClientCertPool (ho_ca_files ho) (client_ca_paths fl) (cl_insecure fl) = Inr pool"
    "ParseTLSCipherSuites (ho_tls_flags ho) (cl_cipher_suites fl) = Some (Inr suites)"
    "TLSVersionToGo (ho_tls_flags ho) (cl_min_version fl) = Inr minVersion"
    "su_config su = \<lparr>sc_client_auth = GetClientAuth (cl_insecure fl), sc_min_version = minVersion,
       sc_client_cas = GetCertPool pool, sc_cipher_suites = suites, sc_curve_preferences = curves, sc_http2 = cl_enable_http2 fl\<rparr>"
  using assms
  by (auto simp: start_def Let_def split: option.splits sum.splits Option.bind_splits intro: that)

subsection \<open>The loop\<close>

text \<open>
  The loop as a step relation: a step takes the loader as the files are at that moment and an
  event, and leads on only while the process runs.
\<close>

type_synonym 'cert loop_label = "'cert key_loader \<times> loop_event"

inductive loop_reaches ::
  "('q, 'cert) loop_state \<Rightarrow> 'cert loop_label list \<Rightarrow> ('q, 'cert) loop_state \<Rightarrow> bool"
  for st0 where
  start: "loop_reaches st0 [] st0"
| step: "loop_reaches st0 ls st \<Longrightarrow> loop_step load ev st = Running st' \<Longrightarrow> loop_reaches st0 (ls @ [(load, ev)]) st'"

inductive_cases loop_reaches_NilE: "loop_reaches st0 [] st"
inductive_cases loop_reaches_snocE: "loop_reaches st0 (ls @ [l]) st"

lemma loop_reaches_Nil [simp]: "loop_reaches st0 [] st \<longleftrightarrow> st = st0"
  by (auto elim: loop_reaches_NilE intro: loop_reaches.start)

lemma loop_reaches_snoc:
  "loop_reaches st0 (ls @ [(load, ev)]) st' \<longleftrightarrow>
   (\<exists>st. loop_reaches st0 ls st \<and> loop_step load ev st = Running st')"
  by (auto elim: loop_reaches_snocE intro: loop_reaches.step)

text \<open>
  What every state of the loop satisfies: the polled parts are well formed, the two flags of the
  watcher are never both set, the paths are those of the start, and the certificate served is
  the one of the start or was loaded from these paths at some step.
\<close>

definition loop_invariant ::
  "'cert tls_keypair_reloader \<Rightarrow> 'cert loop_label list \<Rightarrow> ('q, 'cert) loop_state \<Rightarrow> bool" where
  "loop_invariant kp0 ls st \<longleftrightarrow>
     switches_ready (lp_switches st) \<and> injections_ok (lp_injections st) \<and>
     \<not> (lp_cert_updated st \<and> lp_key_updated st) \<and>
     kp_cert_path (lp_keypair st) = kp_cert_path kp0 \<and> kp_key_path (lp_keypair st) = kp_key_path kp0 \<and>
     (kp_cert (lp_keypair st) = kp_cert kp0 \<or>
      list_ex (\<lambda>(load, ev). load (kp_cert_path kp0) (kp_key_path kp0) = Inr (kp_cert (lp_keypair st))) ls)"

lemma poll_tick_Running:
  assumes "poll_tick ord err cm st = Running st'" "switches_ready (lp_switches st)" "injections_ok (lp_injections st)"
  shows "switches_ready (lp_switches st') \<and> injections_ok (lp_injections st') \<and>
     lp_keypair st' = lp_keypair st \<and> lp_cert_updated st' = lp_cert_updated st \<and> lp_key_updated st' = lp_key_updated st"
  using assms switches.step_inv injections_ok_set
  by (auto simp: poll_tick_def split: if_splits option.splits)

lemma loop_invariant_more: "loop_invariant kp0 ls st \<Longrightarrow> loop_invariant kp0 (ls @ [l]) st"
  by (auto simp: loop_invariant_def)

lemma watcher_event_invariant:
  assumes "loop_invariant kp0 ls st" "watcher_event load ops name st = Running st'"
  shows "loop_invariant kp0 (ls @ [(load, ev)]) st'"
  using assms
  by (auto simp: watcher_event_def loop_invariant_def Reload_def Let_def split: if_splits sum.splits)

lemma loop_step_invariant:
  assumes "loop_invariant kp0 ls st" "loop_step load ev st = Running st'"
  shows "loop_invariant kp0 (ls @ [(load, ev)]) st'"
proof (cases ev)
  case (WatcherEvent ops name)
  with assms watcher_event_invariant show ?thesis by auto
next
  case (PollTick ord err cm)
  with assms poll_tick_Running [of ord err cm st st'] show ?thesis
    by (auto simp: loop_invariant_def)
qed (use assms loop_invariant_more in auto)

lemma loop_init_invariant:
  "switches_ready (su_switches su) \<Longrightarrow> loop_invariant (su_keypair su) [] (loop_init su)"
  by (simp add: loop_invariant_def loop_init_def injections_ok_create)

lemma start_switches_ready: "start ho fl = Some (Inr su) \<Longrightarrow> switches_ready (su_switches su)"
  by (erule start_cases) (simp add: switches_ready_init)

lemma loop_reaches_invariant:
  assumes "start ho fl = Some (Inr su)" "loop_reaches (loop_init su) ls st"
  shows "loop_invariant (su_keypair su) ls st"
  using assms(2)
proof (induction rule: loop_reaches.induct)
  case start
  then show ?case
    using assms(1) by (intro loop_init_invariant start_switches_ready)
next
  case (step ls st load ev st')
  then show ?case
    using loop_step_invariant by blast
qed

text \<open>Polls that find nothing about features: one of a deleted ConfigMap passes an empty object.\<close>

definition silent_poll :: "'cert loop_label \<Rightarrow> bool" where
  "silent_poll l \<longleftrightarrow>
     (case snd l of
        PollTick ord err (Some data) \<Rightarrow> switch_config_of data = NoFeatures
      | PollTick ord err None \<Rightarrow> err = CmOtherError
      | _ \<Rightarrow> False)"

lemma silent_poll_step:
  assumes "silent_poll (load, ev)"
  shows "\<exists>st'. loop_step load ev st = Running st' \<and> lp_switches st' = lp_switches st"
proof -
  have "ProcessControlSwitchesConfigMap data sw = Some sw" if "switch_config_of data = NoFeatures" for data sw
    using that by (auto simp: switch_config_of_def ProcessControlSwitchesConfigMap_def split: option.splits sum.splits)
  with assms show ?thesis
    by (auto simp: silent_poll_def poll_tick_def split: loop_event.splits option.splits)
qed

section \<open>Examples\<close>

definition sample_flags :: cli_flags where
  "sample_flags = default_flags\<lparr>cl_curve_preferences := ''29'', cl_resource_name_keys := ''r''\<rparr>"

definition sample_host :: "(string, string) host" where
  "sample_host =
     \<lparr>ho_load_keypair = (\<lambda>c k. Inr (c @ k)),
      ho_ca_files = \<lparr>fs_read = (\<lambda>p. Inr p), fs_pem_certs = (\<lambda>pem. [pem])\<rparr>,
      ho_tls_flags = \<lparr>fl_cipher_suites = (\<lambda>ns. Inr []), fl_insecure_ciphers = [], fl_version = (\<lambda>v. Inl v)\<rparr>,
      ho_env_namespace = []\<rparr>"

definition sample_started :: "(string, string) started" where
  "sample_started = (case start sample_host sample_flags of Some (Inr su) \<Rightarrow> su)"

lemma sample_start: "start sample_host sample_flags = Some (Inr sample_started)"
proof -
  have "case start sample_host sample_flags of Some (Inr su) \<Rightarrow> True | _ \<Rightarrow> False"
    by code_simp
  then show ?thesis
    by (auto simp: sample_started_def split: option.splits sum.splits)
qed

lemma sample_keypair:
  "NewTLSKeypairReloader (ho_load_keypair sample_host) (cl_cert sample_flags) (cl_key sample_flags) =
   Inr \<lparr>kp_cert = ''cert.pemkey.pem'', kp_cert_path = ''cert.pem'', kp_key_path = ''key.pem''\<rparr>"
  by (simp add: NewTLSKeypairReloader_def sample_host_def sample_flags_def default_flags_def)

lemma sample_started_keypair:
  "su_keypair sample_started = \<lparr>kp_cert = ''cert.pemkey.pem'', kp_cert_path = ''cert.pem'', kp_key_path = ''key.pem''\<rparr>"
  using sample_start by (rule start_cases) (simp add: sample_keypair)

section \<open>Properties\<close>

text \<open>
  C16: what a successful start guarantees. Both ports are unprivileged, in range and different,
  resource names are configured, the key pair was loaded from the paths of the flags, TLS is at
  least version 1.2, no insecure cipher suite is configured; and unless the insecure flag is set, clients
  must present a certificate that verifies against a pool with the certificates of every
  configured CA file, each of which was read and had one.
\<close>

theorem start_is_secure:
  assumes "start ho fl = Some (Inr su)"
  shows "1024 \<le> cl_port fl \<and> cl_port fl \<le> 65535 \<and> 1024 \<le> cl_health_check_port fl \<and> cl_health_check_port fl \<le> 65535 \<and>
     cl_port fl \<noteq> cl_health_check_port fl \<and> IsResourcesNameEnabled (su_switches su) \<and>
     ho_load_keypair ho (cl_cert fl) (cl_key fl) = Inr (kp_cert (su_keypair su)) \<and>
     VersionTLS12 \<le> sc_min_version (su_config su) \<and>
     (case sc_cipher_suites (su_config su) of None \<Rightarrow> True
      | Some ids \<Rightarrow> set ids \<inter> set (fl_insecure_ciphers (ho_tls_flags ho)) = {}) \<and>
     (if cl_insecure fl then sc_client_cas (su_config su) = None
      else RequireAndVerifyClientCert \<le> sc_client_auth (su_config su) \<and>
        sc_client_cas (su_config su) = Some (concat (map (\<lambda>p. case fs_read (ho_ca_files ho) p of
            Inl e \<Rightarrow> [] | Inr pem \<Rightarrow> fs_pem_certs (ho_ca_files ho) pem) (client_ca_paths fl))) \<and>
        list_all (\<lambda>p. \<exists>pem. fs_read (ho_ca_files ho) p = Inr pem \<and> fs_pem_certs (ho_ca_files ho) pem \<noteq> []) (client_ca_paths fl))"
  using assms
proof (rule start_cases)
  fix keyPair pool suites minVersion curves
  assume flags: "check_flags fl (su_switches su) = None"
    and kp: "NewTLSKeypairReloader (ho_load_keypair ho) (cl_cert fl) (cl_key fl) = Inr keyPair" "su_keypair su = keyPair"
    and pool: "NewClientCertPool (ho_ca_files ho) (client_ca_paths fl) (cl_insecure fl) = Inr pool"
    and suites: "ParseTLSCipherSuites (ho_tls_flags ho) (cl_cipher_suites fl) = Some (Inr suites)"
    and ver: "TLSVersionToGo (ho_tls_flags ho) (cl_min_version fl) = Inr minVersion"
    and config: "su_config su = \<lparr>sc_client_auth = GetClientAuth (cl_insecure fl), sc_min_version = minVersion,
       sc_client_cas = GetCertPool pool, sc_cipher_suites = suites, sc_curve_preferences = curves, sc_http2 = cl_enable_http2 fl\<rparr>"
  have "case suites of None \<Rightarrow> True | Some ids \<Rightarrow> set ids \<inter> set (fl_insecure_ciphers (ho_tls_flags ho)) = {}"
    using suites ParseTLSCipherSuites_Inr by (cases suites) auto
  moreover have "ho_load_keypair ho (cl_cert fl) (cl_key fl) = Inr (kp_cert (su_keypair su))"
    using kp(1) unfolding kp(2) by (auto simp: NewTLSKeypairReloader_def split: sum.splits)
  ultimately show ?thesis
    using flags NewClientCertPool_Inr [OF pool] TLSVersionToGo_min [OF ver]
    by (auto simp: config check_flags_def isValidPort_def GetClientAuth_def split: if_splits)
qed

theorem start_is_secure_witness:
  "start sample_host sample_flags = Some (Inr sample_started) \<and>
   RequireAndVerifyClientCert \<le> sc_client_auth (su_config sample_started) \<and>
   sc_client_cas (su_config sample_started) = Some [defaultClientCa] \<and> VersionTLS12 \<le> sc_min_version (su_config sample_started)"
  using start_is_secure [OF sample_start] sample_start
  by (simp add: sample_flags_def default_flags_def sample_host_def client_ca_paths_def)

text \<open>
  C15: the loop. Whatever events the watcher and the poll deliver and whatever the files hold
  at each of them, in every state the running process reaches the switches have exactly the two
  features, every stored injection patches annotations, the two file flags are never both left
  set, the paths are those of the start, and the certificate being served is the one of the start or was loaded
  from these paths as a pair.
\<close>

theorem loop_keeps_invariant:
  assumes "start ho fl = Some (Inr su)" "loop_reaches (loop_init su) ls st"
  shows "loop_invariant (su_keypair su) ls st"
  using loop_reaches_invariant [OF assms] .

theorem loop_keeps_invariant_witness:
  "\<exists>st. loop_reaches (loop_init sample_started)
     [(\<lambda>c k. Inr ''new'', WatcherEvent [FsWrite] ''cert.pem''), (\<lambda>c k. Inr ''new'', WatcherEvent [FsRename] ''key.pem'')] st \<and>
     kp_cert (lp_keypair st) = ''new'' \<and>
     loop_invariant (su_keypair sample_started)
       [(\<lambda>c k. Inr ''new'', WatcherEvent [FsWrite] ''cert.pem''), (\<lambda>c k. Inr ''new'', WatcherEvent [FsRename] ''key.pem'')]
       (st :: (int, string) loop_state)"
proof -
  let ?load = "\<lambda>c k. Inr ''new'' :: error + string" and ?init = "loop_init sample_started :: (int, string) loop_state"
  note kp = sample_started_keypair
  let ?st1 = "?init\<lparr>lp_cert_updated := True\<rparr>"
  let ?st2 = "?init\<lparr>lp_keypair := (su_keypair sample_started)\<lparr>kp_cert := ''new''\<rparr>\<rparr>"
  have "loop_step ?load (WatcherEvent [FsWrite] ''cert.pem'') ?init = Running ?st1"
    by (simp add: watcher_event_def watched_op_def loop_init_def kp)
  then have 1: "loop_reaches ?init ([] @ [(?load, WatcherEvent [FsWrite] ''cert.pem'')]) ?st1"
    unfolding loop_reaches_snoc by simp
  have "loop_step ?load (WatcherEvent [FsRename] ''key.pem'') ?st1 = Running ?st2"
    by (simp add: watcher_event_def watched_op_def loop_init_def kp Reload_def)
  then have 2: "loop_reaches ?init (([] @ [(?load, WatcherEvent [FsWrite] ''cert.pem'')]) @ [(?load, WatcherEvent [FsRename] ''key.pem'')]) ?st2"
    using 1 unfolding loop_reaches_snoc by blast
  then show ?thesis
    using loop_keeps_invariant [OF sample_start 2]
    by (intro exI [of _ ?st2]) simp
qed

text \<open>
  C40: the features are never restored by polls that do not mention them. In any state of the
  loop, after any number of polls of a ConfigMap that has been deleted (which pass an object
  without data), that says nothing about features, or that cannot be read, each feature has the
  value it had before, whatever its initial value; the poll is documented to restore the default.
\<close>

theorem silent_polls_keep_features:
  assumes "loop_reaches st0 ls st" "list_all silent_poll polls"
  shows "\<exists>st'. loop_reaches st0 (ls @ polls) st' \<and> lp_switches st' = lp_switches st"
  using assms(2)
proof (induction polls rule: rev_induct)
  case (snoc l polls)
  then obtain st1 where st1: "loop_reaches st0 (ls @ polls) st1" "lp_switches st1 = lp_switches st"
    by auto
  obtain load ev where l: "l = (load, ev)" by (cases l)
  then obtain st2 where "loop_step load ev st1 = Running st2" "lp_switches st2 = lp_switches st1"
    using snoc.prems silent_poll_step [of load ev st1] by auto
  with st1 l loop_reaches.step show ?case
    by fastforce
qed (use assms(1) in auto)

theorem silent_polls_keep_features_witness:
  "\<exists>st. loop_reaches (loop_init sample_started :: (int, string) loop_state)
       [(\<lambda>c k. Inr c, PollTick rev CmNoError (Some example_features)), (\<lambda>c k. Inr c, PollTick rev CmNotFound (Some []))] st \<and>
     IsHugePagedownAPIEnabled (lp_switches st) \<and> \<not> sw_initial (switch_of (lp_switches st) enableHugePageDownAPIKey)"
proof -
  let ?init = "loop_init sample_started :: (int, string) loop_state" and ?key = "enableHugePageDownAPIKey"
  let ?load = "\<lambda>c k. Inr c :: error + string"
  have "su_switches sample_started = InitControlSwitches (SetupControlSwitchesFlags
       \<lparr>cs_inject_hugepage := False, cs_resource_name_keys_flag := ''r'', cs_resources_honor := False\<rparr>)"
    using sample_start by (rule start_cases) (simp add: sample_flags_def default_flags_def)
  then have initial: "switch_of (lp_switches ?init) ?key = \<lparr>sw_active = False, sw_initial = False\<rparr>"
    by (simp add: loop_init_def switch_of_def InitControlSwitches_def map_get_put Let_def)
  have features: "updated_switch (switch_config_of example_features) ?key \<lparr>sw_active = False, sw_initial = False\<rparr> =
      \<lparr>sw_active = True, sw_initial = False\<rparr>"
    by code_simp
  have "switches_ready (lp_switches ?init)"
    using start_switches_ready [OF sample_start] by (simp add: loop_init_def)
  then obtain sw where sw: "ProcessControlSwitchesConfigMap example_features (lp_switches ?init) = Some sw"
    "switch_of sw ?key = updated_switch (switch_config_of example_features) ?key (switch_of (lp_switches ?init) ?key)"
    using process_ready feature_keys_mem(1) by metis
  then obtain st where "loop_step ?load (PollTick rev CmNoError (Some example_features)) ?init = Running st" "lp_switches st = sw"
    by (simp add: poll_tick_def)
  then have run: "loop_reaches ?init ([] @ [(?load, PollTick rev CmNoError (Some example_features))]) st"
    unfolding loop_reaches_snoc by simp
  have silent: "list_all silent_poll [(?load, PollTick rev CmNotFound (Some []))]"
    by (simp add: list_all_iff silent_poll_def switch_config_of_def)
  show ?thesis
    using silent_polls_keep_features [OF run silent] sw(2) \<open>lp_switches st = sw\<close> initial features
    by (auto simp: IsHugePagedownAPIEnabled_def)
qed

end
