(* ===== verification/Nri_System.thy ===== *)
theory Nri_System
  imports Webhook_Main
begin

text \<open>
  The running webhook as a whole: the loop of main, the informer that feeds the cache, and the
  requests. The handler reads the switches and injections through the pointers that main passed
  to the package with \<open>SetControlSwitches\<close> and \<open>SetUserInjectionStructure\<close>, so it
  sees what the loop has stored last; the cache is the one given to
  \<open>SetNetAttachDefCache\<close>. The steps of the three are interleaved in any order, each as
  one atomic step. For the switches the code does not ensure that: the loop writes the map that
  a handler reads without a lock.
\<close>

section \<open>Model\<close>

record ('q, 'cert) nri =
  ny_loop :: "('q, 'cert) loop_state"
  ny_cache :: nad_cache

text \<open>The package variables: the three setters, from what main creates.\<close>

definition SetControlSwitches :: "control_switches \<Rightarrow> 'q webhook_state \<Rightarrow> 'q webhook_state" where
  "SetControlSwitches activeConfiguration st = st\<lparr>ws_switches := activeConfiguration\<rparr>"

definition SetUserInjectionStructure :: "'q user_defined_injections \<Rightarrow> 'q webhook_state \<Rightarrow> 'q webhook_state" where
  "SetUserInjectionStructure injections st = st\<lparr>ws_injections := injections\<rparr>"

definition SetNetAttachDefCache :: "nad_cache \<Rightarrow> 'q webhook_state \<Rightarrow> 'q webhook_state" where
  "SetNetAttachDefCache cache st = st\<lparr>ws_cache := cache\<rparr>"

text \<open>
  The variables of the package before main has set them; main sets all three before it serves.
  Two of them point to what the loop changes, so a request finds the loop's current state there.
\<close>

definition unset_variables :: "'q webhook_state" where
  "unset_variables =
     \<lparr>ws_switches = SetupControlSwitchesFlags, ws_injections = CreateUserInjectionsStructure, ws_cache = Create\<rparr>"

definition handler_state :: "('q, 'cert) nri \<Rightarrow> 'q webhook_state" where
  "handler_state s =
     SetUserInjectionStructure (lp_injections (ny_loop s))
       (SetNetAttachDefCache (ny_cache s)
         (SetControlSwitches (lp_switches (ny_loop s)) unset_variables))"

lemma handler_state_eq:
  "handler_state s =
     \<lparr>ws_switches = lp_switches (ny_loop s), ws_injections = lp_injections (ny_loop s), ws_cache = ny_cache s\<rparr>"
  by (simp add: handler_state_def SetControlSwitches_def SetUserInjectionStructure_def SetNetAttachDefCache_def unset_variables_def)

definition nri_init :: "('cert, 'ca) started \<Rightarrow> ('q, 'cert) nri" where
  "nri_init su = \<lparr>ny_loop = loop_init su, ny_cache = informer_begin Create\<rparr>"

datatype ('q, 'cert) nri_label =
    LoopStep "'cert key_loader" loop_event
  | InformerStep informer_event
  | RequestStep "'q environment" range_orders http_request "'q http_reply option"

text \<open>
  A panic of the handler ends only its request, since the server of package net/http recovers
  from it; a panic or fatal error in the loop or in an informer's handler ends the process, and
  then there is no step.
\<close>

inductive nri_reaches ::
  "('q, 'cert) nri \<Rightarrow> ('q, 'cert) nri_label list \<Rightarrow> ('q, 'cert) nri \<Rightarrow> bool"
  for s0 where
  start: "nri_reaches s0 [] s0"
| loop: "nri_reaches s0 ls s \<Longrightarrow> loop_step load ev (ny_loop s) = Running l \<Longrightarrow>
    nri_reaches s0 (ls @ [LoopStep load ev]) (s\<lparr>ny_loop := l\<rparr>)"
| informer: "nri_reaches s0 ls s \<Longrightarrow> cache_event ev (ny_cache s) = Some c \<Longrightarrow>
    nri_reaches s0 (ls @ [InformerStep ev]) (s\<lparr>ny_cache := c\<rparr>)"
| request: "nri_reaches s0 ls s \<Longrightarrow> serve env ords (handler_state s) req = reply \<Longrightarrow>
    nri_reaches s0 (ls @ [RequestStep env ords req reply]) s"

inductive_cases nri_loopE: "nri_reaches s0 (ls @ [LoopStep load ev]) s"
inductive_cases nri_requestE: "nri_reaches s0 (ls @ [RequestStep env ords req reply]) s"

section \<open>Library\<close>

fun loop_label_of :: "('q, 'cert) nri_label \<Rightarrow> 'cert loop_label list" where
  "loop_label_of (LoopStep load ev) = [(load, ev)]"
| "loop_label_of _ = []"

fun informer_event_of :: "('q, 'cert) nri_label \<Rightarrow> informer_event list" where
  "informer_event_of (InformerStep ev) = [ev]"
| "informer_event_of _ = []"

definition loop_labels :: "('q, 'cert) nri_label list \<Rightarrow> 'cert loop_label list" where
  "loop_labels ls = concat (map loop_label_of ls)"

definition informer_events :: "('q, 'cert) nri_label list \<Rightarrow> informer_event list" where
  "informer_events ls = concat (map informer_event_of ls)"

lemma label_projections [simp]:
  "loop_labels [] = []" "informer_events [] = []"
  "loop_labels (ls @ ms) = loop_labels ls @ loop_labels ms"
  "informer_events (ls @ ms) = informer_events ls @ informer_events ms"
  "loop_labels [l] = loop_label_of l" "informer_events [l] = informer_event_of l"
  by (simp_all add: loop_labels_def informer_events_def)

text \<open>Each part runs on its own labels as if the others were not there.\<close>

lemma nri_parts:
  assumes "nri_reaches s0 ls s"
  shows "loop_reaches (ny_loop s0) (loop_labels ls) (ny_loop s) \<and>
         run_steps cache_event (informer_events ls) (ny_cache s0) = Some (ny_cache s)"
  using assms
proof (induction rule: nri_reaches.induct)
  case (loop ls s load ev l)
  then show ?case
    using loop_reaches.step by fastforce
next
  case (informer ls s ev c)
  then show ?case
    by (simp add: run_steps_snoc_Some)
qed (auto intro: loop_reaches.start)

lemma cache_event_view:
  assumes "cache.shows_view c v" "lawful_history slash_free es v" "run_steps cache_event es c = Some c'"
  shows "cache.shows_view c' (spec_history es v)"
proof -
  have "cache_event = on_event cache_put cache_remove"
    by (intro ext) (rule cache_event_eq)
  then show ?thesis
    using cache.history_simulation [OF assms(1,2)] assms(3) by auto
qed

lemma cache_shows_begin: "cache.shows_view (informer_begin Create) (\<lambda>_. None)"
  by (simp add: cache.shows_view_def cache_live_def informer_begin_def Create_def cache_Get_def)

lemma system_invariant:
  assumes "start ho fl = Some (Inr su)" "nri_reaches (nri_init su) ls s"
    "lawful_history slash_free (informer_events ls) (\<lambda>_. None)"
  shows "loop_reaches (loop_init su) (loop_labels ls) (ny_loop s)"
    "cache.shows_view (ny_cache s) (spec_history (informer_events ls) (\<lambda>_. None))"
  using nri_parts [OF assms(2)] cache_event_view [OF cache_shows_begin assms(3)]
  by (simp_all add: nri_init_def)

section \<open>Properties\<close>

text \<open>
  C13: whatever the order in which polls, file events, requests and the informer's reports are
  interleaved, as long as the reports are lawful, a request is served with the annotations last
  reported for a network: if there are any the API server is not asked, and what the handler
  counts and selects for the network is exactly what they say.
\<close>

theorem handler_sees_reports:
  assumes "start ho fl = Some (Inr su)" "nri_reaches (nri_init su) ls s"
    "lawful_history slash_free (informer_events ls) (\<lambda>_. None)"
    "slash_free (ns_namespace n)"
    "spec_history (informer_events ls) (\<lambda>_. None) (ns_namespace n, ns_name n) = Some m"
  shows "find_annotations (nad_source_of env (handler_state s)) n = Inr m \<and>
     (selector_ok m \<longrightarrow>
        snd (snd (parseNetworkAttachDefinition (nad_source_of env (handler_state s)) keys n reqs sel)) = None \<and>
        (counts rs reqs \<longrightarrow>
         counts (rs @ requests_of keys m)
           (fst (parseNetworkAttachDefinition (nad_source_of env (handler_state s)) keys n reqs sel))))"
proof -
  have "cache_Get (ny_cache s) (ns_namespace n) (ns_name n) = Some m"
    using system_invariant(2) [OF assms(1-3)] assms(4,5) by (simp add: cache.shows_view_def)
  then have "find_annotations (nad_source_of env (handler_state s)) n = Inr m"
    by (simp add: find_annotations_def nad_source_of_def handler_state_eq)
  then show ?thesis
    by (simp add: parse_definition_cases counts_add_resources)
qed

definition sample_nri :: "(int, string) nri" where
  "sample_nri = nri_init sample_started"

theorem handler_sees_reports_witness:
  "\<exists>s. nri_reaches sample_nri [InformerStep (InformerAdd (NadObject (example_nad ''1'' [(''r'', ''hw/vf'')])))] s \<and>
     find_annotations (nad_source_of (sample_env sample_pod) (handler_state s))
       \<lparr>ns_namespace = ''ns'', ns_name = ''net'', ns_interface = []\<rparr> = Inr [(''r'', ''hw/vf'')]"
proof -
  let ?ev = "InformerAdd (NadObject (example_nad ''1'' [(''r'', ''hw/vf'')]))"
  let ?n = "\<lparr>ns_namespace = ''ns'', ns_name = ''net'', ns_interface = []\<rparr>"
  have law: "lawful_history slash_free [?ev] (\<lambda>_. None)"
    "spec_history [?ev] (\<lambda>_. None) (ns_namespace ?n, ns_name ?n) = Some [(''r'', ''hw/vf'')]" "slash_free (ns_namespace ?n)"
    by (simp_all add: example_nad_def slash_free_def spec_history_def object_id_def)
  obtain c where "cache_event ?ev (ny_cache sample_nri) = Some c"
    by (simp add: sample_nri_def nri_init_def informer_begin_def Create_def AddFunc_def cache_put_def)
  then have run: "nri_reaches (nri_init sample_started) ([] @ [InformerStep ?ev]) (sample_nri\<lparr>ny_cache := c\<rparr>)"
    unfolding sample_nri_def by (intro nri_reaches.informer nri_reaches.start)
  have "find_annotations (nad_source_of (sample_env sample_pod) (handler_state (sample_nri\<lparr>ny_cache := c\<rparr>))) ?n = Inr [(''r'', ''hw/vf'')]"
    using handler_sees_reports [OF sample_start run _ law(3)] law(1,2) by simp
  with run show ?thesis
    unfolding sample_nri_def by auto
qed

text \<open>
  C14: a poll takes effect on the requests after it. When the loop has polled a ConfigMap, in
  whatever order it went over the entries, the next request is served with each feature as
  \<open>updated_switch\<close> has it (named with a boolean: that value; not named among the features, or
  undecodable: the initial value; no features at all, as in a deleted ConfigMap: the value
  before), and with injections as \<open>injections_updated\<close> has them: none when the ConfigMap says
  nothing of them; those before when it does not decode; and otherwise none for a label it does
  not name and, when all entries set their own fields, for each label it names its entry, or
  what the label had when that entry is rejected. The cache stays.
\<close>

theorem poll_takes_effect:
  assumes "start ho fl = Some (Inr su)" "nri_reaches (nri_init su) (ls @ [LoopStep load (PollTick ord err (Some data))]) s'"
    "err \<noteq> CmOtherError" "lawful_order ord"
  shows "\<exists>s. nri_reaches (nri_init su) ls s \<and>
     list_all (\<lambda>key. switch_of (ws_switches (handler_state s')) key =
       updated_switch (switch_config_of data) key (switch_of (ws_switches (handler_state s)) key))
       [enableHugePageDownAPIKey, enableHonorExistingResourcesKey] \<and>
     injections_updated (injection_config_of data) (ws_injections (handler_state s)) (ws_injections (handler_state s')) \<and>
     ws_cache (handler_state s') = ws_cache (handler_state s)"
proof -
  obtain s l where s: "nri_reaches (nri_init su) ls s" "loop_step load (PollTick ord err (Some data)) (ny_loop s) = Running l"
    "s' = s\<lparr>ny_loop := l\<rparr>"
    using assms(2) by (rule nri_loopE) auto
  have "loop_reaches (loop_init su) (loop_labels ls) (ny_loop s)"
    using nri_parts [OF s(1)] by (simp add: nri_init_def)
  then have "switches_ready (lp_switches (ny_loop s))"
    using loop_reaches_invariant [OF assms(1)] by (auto simp: loop_invariant_def)
  then obtain sw where sw: "ProcessControlSwitchesConfigMap data (lp_switches (ny_loop s)) = Some sw"
    "\<And>k. k \<in> feature_keys \<Longrightarrow> switch_of sw k = updated_switch (switch_config_of data) k (switch_of (lp_switches (ny_loop s)) k)"
    using process_ready by metis
  with s(2) assms(3) have "l = (ny_loop s)\<lparr>lp_switches := sw,
      lp_injections := SetUserDefinedInjections ord data (lp_injections (ny_loop s))\<rparr>"
    by (simp add: poll_tick_def)
  then show ?thesis
    using s sw(2) SetUserDefinedInjections_updates [OF assms(4)] by (intro exI [of _ s]) (simp add: handler_state_eq)
qed

theorem poll_takes_effect_witness:
  "\<exists>s. nri_reaches sample_nri [LoopStep (\<lambda>c k. Inr c) (PollTick rev CmNoError (Some example_features))] s \<and>
     \<not> IsHugePagedownAPIEnabled (ws_switches (handler_state sample_nri)) \<and>
     IsHugePagedownAPIEnabled (ws_switches (handler_state s))"
proof -
  let ?ev = "PollTick rev CmNoError (Some example_features)" and ?load = "\<lambda>c k. Inr c :: error + string"
  have "switches_ready (lp_switches (ny_loop sample_nri))"
    using start_switches_ready [OF sample_start] by (simp add: sample_nri_def nri_init_def loop_init_def)
  then obtain sw where "ProcessControlSwitchesConfigMap example_features (lp_switches (ny_loop sample_nri)) = Some sw"
    using process_ready by metis
  then obtain l where "loop_step ?load ?ev (ny_loop sample_nri) = Running l"
    by (simp add: poll_tick_def)
  then have run: "nri_reaches (nri_init sample_started) ([] @ [LoopStep ?load ?ev]) (sample_nri\<lparr>ny_loop := l\<rparr>)"
    unfolding sample_nri_def by (intro nri_reaches.loop nri_reaches.start)
  have initial: "switch_of (ws_switches (handler_state sample_nri)) enableHugePageDownAPIKey = \<lparr>sw_active = False, sw_initial = False\<rparr>"
  proof -
    have "su_switches sample_started = InitControlSwitches (SetupControlSwitchesFlags
       \<lparr>cs_inject_hugepage := False, cs_resource_name_keys_flag := ''r'', cs_resources_honor := False\<rparr>)"
      using sample_start by (rule start_cases) (simp add: sample_flags_def default_flags_def)
    then show ?thesis
      by (simp add: sample_nri_def nri_init_def loop_init_def handler_state_eq switch_of_def InitControlSwitches_def map_get_put Let_def)
  qed
  have features: "updated_switch (switch_config_of example_features) enableHugePageDownAPIKey \<lparr>sw_active = False, sw_initial = False\<rparr> =
      \<lparr>sw_active = True, sw_initial = False\<rparr>"
    by code_simp
  obtain s :: "(int, string) nri" where s: "nri_reaches (nri_init sample_started) [] s"
    "switch_of (ws_switches (handler_state (sample_nri\<lparr>ny_loop := l\<rparr>))) enableHugePageDownAPIKey =
     updated_switch (switch_config_of example_features) enableHugePageDownAPIKey (switch_of (ws_switches (handler_state s)) enableHugePageDownAPIKey)"
    using poll_takes_effect [OF sample_start run _ lawful_order_rev] by simp blast
  then have "s = sample_nri"
    unfolding sample_nri_def by (auto elim: nri_reaches.cases)
  then have "switch_of (ws_switches (handler_state (sample_nri\<lparr>ny_loop := l\<rparr>))) enableHugePageDownAPIKey = \<lparr>sw_active = True, sw_initial = False\<rparr>"
    using s(2) initial features by simp
  with run initial show ?thesis
    unfolding sample_nri_def [symmetric] by (auto simp: IsHugePagedownAPIEnabled_def)
qed

end
