(* ===== verification/Installer.thy ===== *)
theory Installer
  imports Go_Base
begin

text \<open>
  pkg/installer/installer.go: the init container that creates the certificates, the secret,
  the webhook configuration and the service. Every call that leaves the process is recorded in
  a log with whether it succeeded; the answers are functions of the log so far, so any
  behaviour of the API server, of other installers and of the file system is covered. Both
  files are written with mode 0400, which the log leaves out. The
  certificate library is a record of functions. \<open>glog.Fatal\<close> ends the run with a value
  of type \<open>install_fatal\<close>.
\<close>

section \<open>Objects\<close>

record owner_ref =
  ow_kind :: string
  ow_api_version :: string
  ow_name :: string
  ow_uid :: string

record secret =
  se_name :: string
  se_owners :: "owner_ref list"
  se_data :: "string gomap"

record service =
  sv_name :: string
  sv_labels :: "string gomap"
  sv_port :: int
  sv_target_port :: int
  sv_selector :: "string gomap"

datatype failure_policy = Ignore | Fail

record label_requirement =
  lr_key :: string
  lr_operator :: string
  lr_values :: "string list"

record webhook_rule =
  wr_operations :: "string list"
  wr_api_groups :: "string list"
  wr_api_versions :: "string list"
  wr_resources :: "string list"

record webhook_configuration =
  wc_name :: string
  wc_labels :: "string gomap"
  wc_webhook_name :: string
  wc_ca_bundle :: string
  wc_service_namespace :: string
  wc_service_name :: string
  wc_service_path :: string
  wc_failure_policy :: failure_policy
  wc_review_versions :: "string list"
  wc_side_effects :: string
  wc_namespace_selector :: "label_requirement list"
  wc_rules :: "webhook_rule list"

section \<open>Calls\<close>

datatype install_call =
    GetPod string string
  | CreateSecret string secret
  | GetSecret string string
  | WriteFile string string
  | GetWebhookConfiguration string
  | DeleteWebhookConfiguration string
  | CreateWebhookConfiguration webhook_configuration
  | GetService string string
  | DeleteService string string
  | CreateService string service

type_synonym install_log = "(install_call \<times> bool) list"

text \<open>A pod is fetched as text; decoding it, of which only the owners are used, can still fail.\<close>

record cluster_answers =
  an_get_pod :: "install_log \<Rightarrow> string \<Rightarrow> string \<Rightarrow> error + string"
  an_decode_owners :: "string \<Rightarrow> error + owner_ref list"
  an_create_secret :: "install_log \<Rightarrow> string \<Rightarrow> secret \<Rightarrow> error option"
  an_get_secret :: "install_log \<Rightarrow> string \<Rightarrow> string \<Rightarrow> error + secret"
  an_write_file :: "install_log \<Rightarrow> string \<Rightarrow> string \<Rightarrow> error option"
  an_get_webhook :: "install_log \<Rightarrow> string \<Rightarrow> bool"
  an_delete_webhook :: "install_log \<Rightarrow> string \<Rightarrow> error option"
  an_create_webhook :: "install_log \<Rightarrow> webhook_configuration \<Rightarrow> error option"
  an_get_service :: "install_log \<Rightarrow> string \<Rightarrow> string \<Rightarrow> bool"
  an_delete_service :: "install_log \<Rightarrow> string \<Rightarrow> string \<Rightarrow> error option"
  an_create_service :: "install_log \<Rightarrow> string \<Rightarrow> service \<Rightarrow> error option"

section \<open>Certificates\<close>

definition keyBitLength :: int where "keyBitLength = 3072"
definition CAExpiration :: string where "CAExpiration = ''630720000s''"
definition secretName :: string where "secretName = ''network-resources-injector''"

record cert_request =
  cr_cn :: string
  cr_hosts :: "string list"
  cr_algorithm :: string
  cr_bits :: int
  cr_ca_expiry :: "string option"

record ('key, 'cert, 'signer) pki =
  pk_parse_request :: "cert_request \<Rightarrow> error + string \<times> string"
  pk_new_ca :: "cert_request \<Rightarrow> error + string \<times> string"
  pk_parse_key :: "string \<Rightarrow> error + 'key"
  pk_parse_cert :: "string \<Rightarrow> error + 'cert"
  pk_new_signer :: "'key \<Rightarrow> 'cert \<Rightarrow> error + 'signer"
  pk_sign :: "'signer \<Rightarrow> string \<Rightarrow> error + string"

definition service_name :: "string \<Rightarrow> string" where
  "service_name prefix = go_join ''-'' [prefix, ''service'']"

definition generateCSR ::
  "('key, 'cert, 'signer) pki \<Rightarrow> string \<Rightarrow> string \<Rightarrow> error + string \<times> string" where
  "generateCSR pki prefix namespace =
     (let serviceName = service_name prefix in
      pk_parse_request pki
        \<lparr>cr_cn = go_join ''.'' [serviceName, namespace, ''svc''],
         cr_hosts = [serviceName, go_join ''.'' [serviceName, namespace],
                     go_join ''.'' [serviceName, namespace, ''svc'']],
         cr_algorithm = ''rsa'', cr_bits = keyBitLength, cr_ca_expiry = None\<rparr>)"

definition generateCACertificate :: "('key, 'cert, 'signer) pki \<Rightarrow> error + 'signer \<times> string" where
  "generateCACertificate pki =
     (case pk_new_ca pki
             \<lparr>cr_cn = ''Kubernetes NRI'', cr_hosts = [], cr_algorithm = ''rsa'',
              cr_bits = keyBitLength, cr_ca_expiry = Some CAExpiration\<rparr> of
        Inl err \<Rightarrow> Inl (''creating CA certificate failed: '' @ err)
      | Inr (cert, key) \<Rightarrow>
     (case pk_parse_key pki key of
        Inl err \<Rightarrow> Inl (''parsing private key pem failed: '' @ err)
      | Inr parsedKey \<Rightarrow>
     (case pk_parse_cert pki cert of
        Inl err \<Rightarrow> Inl (''parse certificate failed: '' @ err)
      | Inr parsedCert \<Rightarrow>
     (case pk_new_signer pki parsedKey parsedCert of
        Inl err \<Rightarrow> Inl (''failed to create signer: '' @ err)
      | Inr signer \<Rightarrow> Inr (signer, cert)))))"

section \<open>Operations\<close>

definition write_file :: "cluster_answers \<Rightarrow> string \<Rightarrow> string \<Rightarrow> install_log \<Rightarrow> error option \<times> install_log" where
  "write_file an path content log =
     (let err = an_write_file an log path content in (err, log @ [(WriteFile path content, err = None)]))"

definition writeToFile ::
  "cluster_answers \<Rightarrow> string \<Rightarrow> string \<Rightarrow> string \<Rightarrow> string \<Rightarrow> install_log \<Rightarrow> error option \<times> install_log" where
  "writeToFile an certificate key certFilename keyFilename log =
     (case write_file an (''/etc/tls/'' @ certFilename) certificate log of
        (Some err, log) \<Rightarrow> (Some err, log)
      | (None, log) \<Rightarrow> write_file an (''/etc/tls/'' @ keyFilename) key log)"

definition removeMutatingWebhookIfExists :: "cluster_answers \<Rightarrow> string \<Rightarrow> install_log \<Rightarrow> install_log" where
  "removeMutatingWebhookIfExists an configName log =
     (let exists = an_get_webhook an log configName;
          log = log @ [(GetWebhookConfiguration configName, exists)]
      in if exists
         then log @ [(DeleteWebhookConfiguration configName, an_delete_webhook an log configName = None)]
         else log)"

definition removeServiceIfExists :: "cluster_answers \<Rightarrow> string \<Rightarrow> string \<Rightarrow> install_log \<Rightarrow> install_log" where
  "removeServiceIfExists an namespace serviceName log =
     (let exists = an_get_service an log namespace serviceName;
          log = log @ [(GetService namespace serviceName, exists)]
      in if exists
         then log @ [(DeleteService namespace serviceName, an_delete_service an log namespace serviceName = None)]
         else log)"

definition parse_failure_policy :: "string \<Rightarrow> error + failure_policy" where
  "parse_failure_policy failurePolicyStr =
     (if equal_fold (trim_space failurePolicyStr) ''Ignore'' then Inr Ignore
      else if equal_fold (trim_space failurePolicyStr) ''Fail'' then Inr Fail
      else Inl ''unknown failure policy type'')"

definition webhook_configuration_for ::
  "string \<Rightarrow> string \<Rightarrow> string \<Rightarrow> failure_policy \<Rightarrow> webhook_configuration" where
  "webhook_configuration_for prefix namespace certificate failurePolicy =
     (let configName = go_join ''-'' [prefix, ''mutating-config''];
          namespaces = [''kube-system''] @ (if namespace \<noteq> ''kube-system'' then [namespace] else [])
      in \<lparr>wc_name = configName,
          wc_labels = [(''app'', prefix)],
          wc_webhook_name = configName @ ''.k8s.cni.cncf.io'',
          wc_ca_bundle = certificate,
          wc_service_namespace = namespace,
          wc_service_name = service_name prefix,
          wc_service_path = ''/mutate'',
          wc_failure_policy = failurePolicy,
          wc_review_versions = [''v1''],
          wc_side_effects = ''None'',
          wc_namespace_selector =
            [\<lparr>lr_key = ''kubernetes.io/metadata.name'', lr_operator = ''NotIn'', lr_values = namespaces\<rparr>],
          wc_rules =
            [\<lparr>wr_operations = [''CREATE''], wr_api_groups = [[]], wr_api_versions = [''v1''],
              wr_resources = [''pods'']\<rparr>]\<rparr>)"

definition createMutatingWebhookConfiguration ::
  "cluster_answers \<Rightarrow> string \<Rightarrow> string \<Rightarrow> string \<Rightarrow> string \<Rightarrow> install_log \<Rightarrow> error option \<times> install_log" where
  "createMutatingWebhookConfiguration an prefix namespace certificate failurePolicyStr log =
     (let configName = go_join ''-'' [prefix, ''mutating-config''];
          log = removeMutatingWebhookIfExists an configName log
      in case parse_failure_policy failurePolicyStr of
           Inl err \<Rightarrow> (Some err, log)
         | Inr failurePolicy \<Rightarrow>
             (let configuration = webhook_configuration_for prefix namespace certificate failurePolicy;
                  err = an_create_webhook an log configuration
              in (err, log @ [(CreateWebhookConfiguration configuration, err = None)])))"

definition createService ::
  "cluster_answers \<Rightarrow> string \<Rightarrow> string \<Rightarrow> install_log \<Rightarrow> error option \<times> install_log" where
  "createService an prefix namespace log =
     (let serviceName = service_name prefix;
          log = removeServiceIfExists an namespace serviceName log;
          service = \<lparr>sv_name = serviceName, sv_labels = [(''app'', prefix)], sv_port = 443,
                     sv_target_port = 8443, sv_selector = [(''app'', prefix)]\<rparr>;
          err = an_create_service an log namespace service
      in (err, log @ [(CreateService namespace service, err = None)]))"

text \<open>Of several owners of kind ReplicaSet the last counts; without one it is the zero value.\<close>

definition select_owner :: "owner_ref list \<Rightarrow> owner_ref" where
  "select_owner owners =
     foldl (\<lambda>ref ow. if ow_kind ow = ''ReplicaSet'' then ow else ref)
       \<lparr>ow_kind = [], ow_api_version = [], ow_name = [], ow_uid = []\<rparr> owners"

definition getOwnerReference :: "cluster_answers \<Rightarrow> string \<Rightarrow> install_log \<Rightarrow> (error + owner_ref) \<times> install_log" where
  "getOwnerReference an podName log =
     (case an_get_pod an log ''kube-system'' podName of
        Inl err \<Rightarrow> (Inl err, log @ [(GetPod ''kube-system'' podName, False)])
      | Inr b \<Rightarrow>
          (let log = log @ [(GetPod ''kube-system'' podName, True)] in
           case an_decode_owners an b of
             Inl err \<Rightarrow> (Inl err, log)
           | Inr owners \<Rightarrow> (Inr (select_owner owners), log)))"

datatype install_fatal =
    FatalClusterConfig error
  | FatalClient error
  | FatalPodName
  | FatalCA error
  | FatalCSR error
  | FatalSign error
  | FatalOwner error
  | FatalWaiting error
  | FatalWriting error
  | FatalWebhook error
  | FatalService error

definition createSecret ::
  "cluster_answers \<Rightarrow> string \<Rightarrow> string \<Rightarrow> string \<Rightarrow> string \<Rightarrow> string \<Rightarrow> install_log \<Rightarrow>
   (install_fatal + error option) \<times> install_log" where
  "createSecret an podName certificate key certFilename keyFilename log =
     (case getOwnerReference an podName log of
        (Inl err, log) \<Rightarrow> (Inl (FatalOwner err), log)
      | (Inr ownerRef, log) \<Rightarrow>
          (let secret = \<lparr>se_name = secretName, se_owners = [ownerRef],
                         se_data = map_put (map_put [] certFilename certificate) keyFilename key\<rparr>;
               err = an_create_secret an log ''kube-system'' secret
           in (Inr err, log @ [(CreateSecret ''kube-system'' secret, err = None)])))"

text \<open>A key that is missing from the secret leaves its slice nil.\<close>

definition bytes_of :: "string gomap \<Rightarrow> string \<Rightarrow> string" where
  "bytes_of m k = (case map_get m k of None \<Rightarrow> [] | Some v \<Rightarrow> v)"

definition writeCertDetailsFromSecret :: "cluster_answers \<Rightarrow> install_log \<Rightarrow> (bool \<times> error option) \<times> install_log" where
  "writeCertDetailsFromSecret an log =
     (case an_get_secret an log ''kube-system'' secretName of
        Inl err \<Rightarrow> ((False, Some err), log @ [(GetSecret ''kube-system'' secretName, False)])
      | Inr secret \<Rightarrow>
          (let log = log @ [(GetSecret ''kube-system'' secretName, True)];
               (_, log) = writeToFile an (bytes_of (se_data secret) ''tls.crt'')
                            (bytes_of (se_data secret) ''tls.key'') ''tls.crt'' ''tls.key'' log
           in ((True, None), log)))"

text \<open>
  \<open>wait.PollUntilContextTimeout\<close> belongs to another module: a parameter that runs a
  condition on the log. Its documented behaviour on the first, immediate, attempt: a condition
  that is done ends it without an error, a condition that fails ends it with that error.
\<close>

type_synonym poller =
  "(install_log \<Rightarrow> (bool \<times> error option) \<times> install_log) \<Rightarrow> install_log \<Rightarrow> error option \<times> install_log"

definition documented_poller :: "poller \<Rightarrow> bool" where
  "documented_poller poll \<longleftrightarrow>
     (\<forall>cond log log'. (cond log = ((True, None), log') \<longrightarrow> poll cond log = (None, log')) \<and>
        (\<forall>b err. cond log = ((b, Some err), log') \<longrightarrow> poll cond log = (Some err, log')))"

definition waitForCertDetailsUpdate :: "poller \<Rightarrow> cluster_answers \<Rightarrow> install_log \<Rightarrow> error option \<times> install_log" where
  "waitForCertDetailsUpdate poll an log = poll (writeCertDetailsFromSecret an) log"

section \<open>Install\<close>

record ('key, 'cert, 'signer) install_env =
  ie_cluster_config :: "error option"
  ie_new_client :: "error option"
  ie_pod_name :: "string option"
  ie_pki :: "('key, 'cert, 'signer) pki"
  ie_answers :: cluster_answers
  ie_poll :: poller

definition populatePodName :: "string option \<Rightarrow> install_fatal + string" where
  "populatePodName env_value = (case env_value of None \<Rightarrow> Inl FatalPodName | Some podName \<Rightarrow> Inr podName)"

text \<open>The part before the first call to the cluster: the signed certificate, its key, the CA.\<close>

definition make_certificates ::
  "('key, 'cert, 'signer) pki \<Rightarrow> string \<Rightarrow> string \<Rightarrow> install_fatal + string \<times> string \<times> string" where
  "make_certificates pki prefix namespace =
     (case generateCACertificate pki of
        Inl err \<Rightarrow> Inl (FatalCA err)
      | Inr (signer, caCertificate) \<Rightarrow>
     (case generateCSR pki prefix namespace of
        Inl err \<Rightarrow> Inl (FatalCSR err)
      | Inr (csr, key) \<Rightarrow>
     (case pk_sign pki signer csr of
        Inl err \<Rightarrow> Inl (FatalSign err)
      | Inr certificate \<Rightarrow> Inr (certificate, key, caCertificate))))"

definition create_resources ::
  "cluster_answers \<Rightarrow> string \<Rightarrow> string \<Rightarrow> string \<Rightarrow> string \<Rightarrow> string \<Rightarrow> string \<Rightarrow> install_log \<Rightarrow>
   install_fatal option \<times> install_log" where
  "create_resources an namespace prefix failurePolicy certificate key caCertificate log =
     (case writeToFile an certificate key ''tls.crt'' ''tls.key'' log of
        (Some err, log) \<Rightarrow> (Some (FatalWriting err), log)
      | (None, log) \<Rightarrow>
     (case createMutatingWebhookConfiguration an prefix namespace caCertificate failurePolicy log of
        (Some err, log) \<Rightarrow> (Some (FatalWebhook err), log)
      | (None, log) \<Rightarrow>
     (case createService an prefix namespace log of
        (Some err, log) \<Rightarrow> (Some (FatalService err), log)
      | (None, log) \<Rightarrow> (None, log))))"

definition Install ::
  "('key, 'cert, 'signer) install_env \<Rightarrow> string \<Rightarrow> string \<Rightarrow> string \<Rightarrow> install_fatal option \<times> install_log" where
  "Install env k8sNamespace namePrefix failurePolicy =
     (case ie_cluster_config env of
        Some err \<Rightarrow> (Some (FatalClusterConfig err), [])
      | None \<Rightarrow>
     (case ie_new_client env of
        Some err \<Rightarrow> (Some (FatalClient err), [])
      | None \<Rightarrow>
     (case populatePodName (ie_pod_name env) of
        Inl fatal \<Rightarrow> (Some fatal, [])
      | Inr podName \<Rightarrow>
     (case make_certificates (ie_pki env) namePrefix k8sNamespace of
        Inl fatal \<Rightarrow> (Some fatal, [])
      | Inr (certificate, key, caCertificate) \<Rightarrow>
     (case createSecret (ie_answers env) podName certificate key ''tls.crt'' ''tls.key'' [] of
        (Inl fatal, log) \<Rightarrow> (Some fatal, log)
      | (Inr (Some _), log) \<Rightarrow>
          (case waitForCertDetailsUpdate (ie_poll env) (ie_answers env) log of
             (Some err, log) \<Rightarrow> (Some (FatalWaiting err), log)
           | (None, log) \<Rightarrow> (None, log))
      | (Inr None, log) \<Rightarrow>
          create_resources (ie_answers env) k8sNamespace namePrefix failurePolicy
            certificate key caCertificate log)))))"

section \<open>The command\<close>

text \<open>cmd/installer/main.go: the flags with their defaults, and the call.\<close>

record installer_flags =
  if_namespace :: string
  if_name :: string
  if_failure_policy :: string

definition default_installer_flags :: installer_flags where
  "default_installer_flags =
     \<lparr>if_namespace = ''kube-system'', if_name = ''network-resources-injector'', if_failure_policy = ''Fail''\<rparr>"

definition installer_main ::
  "('key, 'cert, 'signer) install_env \<Rightarrow> installer_flags \<Rightarrow> install_fatal option \<times> install_log" where
  "installer_main env fl = Install env (if_namespace fl) (if_name fl) (if_failure_policy fl)"

section \<open>Library\<close>

text \<open>The calls that change the webhook configuration or the service.\<close>

definition changes_cluster :: "install_call \<times> bool \<Rightarrow> bool" where
  "changes_cluster entry \<longleftrightarrow>
     (case fst entry of
        DeleteWebhookConfiguration n \<Rightarrow> True
      | CreateWebhookConfiguration c \<Rightarrow> True
      | DeleteService ns n \<Rightarrow> True
      | CreateService ns s \<Rightarrow> True
      | _ \<Rightarrow> False)"

text \<open>The log of an installer that has its certificates in the secret and in the two files.\<close>

definition secured_log :: "string \<Rightarrow> owner_ref \<Rightarrow> string \<Rightarrow> string \<Rightarrow> install_log" where
  "secured_log podName owner certificate key =
     [(GetPod ''kube-system'' podName, True),
      (CreateSecret ''kube-system'' \<lparr>se_name = secretName, se_owners = [owner],
         se_data = [(''tls.crt'', certificate), (''tls.key'', key)]\<rparr>, True),
      (WriteFile ''/etc/tls/tls.crt'' certificate, True), (WriteFile ''/etc/tls/tls.key'' key, True)]"

definition secret_of :: "owner_ref \<Rightarrow> string \<Rightarrow> string \<Rightarrow> secret" where
  "secret_of owner certificate key =
     \<lparr>se_name = secretName, se_owners = [owner], se_data = [(''tls.crt'', certificate), (''tls.key'', key)]\<rparr>"

lemma createSecret_cases:
  "createSecret an podName certificate key ''tls.crt'' ''tls.key'' [] =
     (case an_get_pod an [] ''kube-system'' podName of
        Inl err \<Rightarrow> (Inl (FatalOwner err), [(GetPod ''kube-system'' podName, False)])
      | Inr b \<Rightarrow>
     (case an_decode_owners an b of
        Inl err \<Rightarrow> (Inl (FatalOwner err), [(GetPod ''kube-system'' podName, True)])
      | Inr owners \<Rightarrow>
          (let log = [(GetPod ''kube-system'' podName, True)];
               secret = secret_of (select_owner owners) certificate key;
               err = an_create_secret an log ''kube-system'' secret
           in (Inr err, log @ [(CreateSecret ''kube-system'' secret, err = None)]))))"
  by (auto simp: createSecret_def getOwnerReference_def secret_of_def map_put_def Let_def split: sum.splits)

text \<open>
  How a run of \<open>Install\<close> that gets to the creation of the secret goes on: it is that creation, then
  either the resources or the wait.
\<close>

lemma Install_cases:
  assumes "Install env ns prefix fp = (res, log)" "log \<noteq> []"
  obtains (owner) err podName ok where "res = Some (FatalOwner err)" "log = [(GetPod ''kube-system'' podName, ok)]"
  | (won) podName certificate key ca owner secret_log where
      "make_certificates (ie_pki env) prefix ns = Inr (certificate, key, ca)"
      "secret_log = [(GetPod ''kube-system'' podName, True), (CreateSecret ''kube-system'' (secret_of owner certificate key), True)]"
      "create_resources (ie_answers env) ns prefix fp certificate key ca secret_log = (res, log)"
  | (lost) podName certificate key owner secret_log where
      "secret_log = [(GetPod ''kube-system'' podName, True), (CreateSecret ''kube-system'' (secret_of owner certificate key), False)]"
      "log = snd (waitForCertDetailsUpdate (ie_poll env) (ie_answers env) secret_log)"
proof -
  let ?an = "ie_answers env"
  obtain podName certificate key ca where start: "ie_cluster_config env = None" "ie_new_client env = None"
    "ie_pod_name env = Some podName" "make_certificates (ie_pki env) prefix ns = Inr (certificate, key, ca)"
    using assms by (auto simp: Install_def populatePodName_def split: option.splits sum.splits)
  have pod: "populatePodName (Some podName) = Inr podName"
    by (simp add: populatePodName_def)
  note run = assms(1) [unfolded Install_def start pod createSecret_cases, simplified]
  show ?thesis
  proof (cases "\<exists>b owners. an_get_pod ?an [] ''kube-system'' podName = Inr b \<and> an_decode_owners ?an b = Inr owners")
    case True
    then obtain b owners where owners: "an_get_pod ?an [] ''kube-system'' podName = Inr b" "an_decode_owners ?an b = Inr owners"
      by blast
    let ?secret = "secret_of (select_owner owners) certificate key"
    let ?err = "an_create_secret ?an [(GetPod ''kube-system'' podName, True)] ''kube-system'' ?secret"
    show ?thesis
    proof (cases ?err)
      case None
      then show ?thesis
        using run owners by (intro won [OF start(4) refl]) (simp add: Let_def)
    next
      case (Some err)
      obtain r l where wait: "waitForCertDetailsUpdate (ie_poll env) ?an
          [(GetPod ''kube-system'' podName, True), (CreateSecret ''kube-system'' ?secret, False)] = (r, l)"
        by (cases "waitForCertDetailsUpdate (ie_poll env) ?an
          [(GetPod ''kube-system'' podName, True), (CreateSecret ''kube-system'' ?secret, False)]")
      have "log = l"
        using run owners Some wait by (simp add: Let_def split: option.splits)
      then show ?thesis
        by (intro lost [OF refl, of podName "select_owner owners" certificate key]) (simp add: wait)
    qed
  next
    case False
    then show ?thesis
      using run by (auto split: sum.splits intro: owner)
  qed
qed

lemma writeToFile_cases:
  "\<exists>log'. snd (writeToFile an certificate key ''tls.crt'' ''tls.key'' log) = log @ log' \<and>
     \<not> list_ex changes_cluster log' \<and>
     (fst (writeToFile an certificate key ''tls.crt'' ''tls.key'' log) = None \<longrightarrow>
        log' = [(WriteFile ''/etc/tls/tls.crt'' certificate, True), (WriteFile ''/etc/tls/tls.key'' key, True)])"
  by (auto simp: writeToFile_def write_file_def Let_def changes_cluster_def split: option.splits)

lemma removal_extends:
  "\<exists>l. removeMutatingWebhookIfExists an c log = log @ l" "\<exists>l. removeServiceIfExists an ns n log = log @ l"
  by (auto simp: removeMutatingWebhookIfExists_def removeServiceIfExists_def Let_def)

lemma creation_extends:
  "\<exists>l. snd (createMutatingWebhookConfiguration an prefix ns ca fp log) = log @ l"
  "\<exists>l. snd (createService an prefix ns log) = log @ l"
  using removal_extends
  by (auto simp: createMutatingWebhookConfiguration_def createService_def Let_def split: sum.splits)
    (metis append.assoc)+

lemma create_resources_secured:
  assumes "\<not> list_ex changes_cluster log"
    "list_ex changes_cluster (snd (create_resources an ns prefix fp certificate key ca log))"
  shows "\<exists>rest. snd (create_resources an ns prefix fp certificate key ca log) =
     log @ (WriteFile ''/etc/tls/tls.crt'' certificate, True) # (WriteFile ''/etc/tls/tls.key'' key, True) # rest"
proof -
  obtain err log1 where w: "writeToFile an certificate key ''tls.crt'' ''tls.key'' log = (err, log1)"
    by (cases "writeToFile an certificate key ''tls.crt'' ''tls.key'' log")
  obtain log' where log': "log1 = log @ log'" "\<not> list_ex changes_cluster log'"
    "err = None \<longrightarrow> log' = [(WriteFile ''/etc/tls/tls.crt'' certificate, True), (WriteFile ''/etc/tls/tls.key'' key, True)]"
    using writeToFile_cases [of an certificate key log] w by auto
  then have err: "err = None"
    using assms w by (cases err) (auto simp: create_resources_def)
  obtain e2 l2 where wh: "createMutatingWebhookConfiguration an prefix ns ca fp log1 = (e2, log1 @ l2)"
    using creation_extends(1) [of an prefix ns ca fp log1] by (metis prod.collapse)
  obtain e3 l3 where sv: "createService an prefix ns (log1 @ l2) = (e3, (log1 @ l2) @ l3)"
    using creation_extends(2) [of an prefix ns "log1 @ l2"] by (metis prod.collapse)
  have "\<exists>rest. snd (create_resources an ns prefix fp certificate key ca log) = log1 @ rest"
    using w err wh sv by (auto simp: create_resources_def split: option.splits)
  with log' err show ?thesis by auto
qed

text \<open>What a successful run of the last part leaves in the log.\<close>

definition created_as_documented :: "string \<Rightarrow> string \<Rightarrow> string \<Rightarrow> install_log \<Rightarrow> bool" where
  "created_as_documented ns fp ca log' \<longleftrightarrow>
     (\<exists>policy configuration service.
     parse_failure_policy fp = Inr policy \<and>
     (CreateWebhookConfiguration configuration, True) \<in> set log' \<and> last log' = (CreateService ns service, True) \<and>
     wc_failure_policy configuration = policy \<and> wc_ca_bundle configuration = ca \<and>
     wc_service_path configuration = ''/mutate'' \<and>
     wc_service_namespace configuration = ns \<and> wc_service_name configuration = sv_name service \<and>
     (\<exists>values. wc_namespace_selector configuration = [\<lparr>lr_key = ''kubernetes.io/metadata.name'', lr_operator = ''NotIn'', lr_values = values\<rparr>] \<and>
        set values = {''kube-system'', ns}) \<and>
     (sv_port service, sv_target_port service) = (443, 8443))"

lemma create_resources_success:
  assumes "create_resources an ns prefix fp certificate key ca log = (None, log')"
  shows "created_as_documented ns fp ca log'"
proof -
  obtain log1 log2 where steps: "createMutatingWebhookConfiguration an prefix ns ca fp log1 = (None, log2)"
    "createService an prefix ns log2 = (None, log')"
    using assms by (auto simp: create_resources_def split: prod.splits option.splits)
  let ?service = "\<lparr>sv_name = service_name prefix, sv_labels = [(''app'', prefix)], sv_port = 443,
                     sv_target_port = 8443, sv_selector = [(''app'', prefix)]\<rparr>"
  obtain policy where policy: "parse_failure_policy fp = Inr policy"
    "(CreateWebhookConfiguration (webhook_configuration_for prefix ns ca policy), True) \<in> set log2"
    using steps(1) by (auto simp: createMutatingWebhookConfiguration_def Let_def split: sum.splits)
  have last: "last log' = (CreateService ns ?service, True)"
    using steps(2) by (auto simp: createService_def Let_def)
  have "set log2 \<subseteq> set log'"
    using creation_extends(2) [of an prefix ns log2] steps(2) by auto
  with policy last show ?thesis
    unfolding created_as_documented_def
    by (intro exI [of _ policy] exI [of _ "webhook_configuration_for prefix ns ca policy"] exI [of _ ?service])
      (auto simp: webhook_configuration_for_def Let_def)
qed

text \<open>An installer that waits: the first attempt to read the secret decides.\<close>

lemma waiting:
  assumes "documented_poller poll"
  shows "waitForCertDetailsUpdate poll an log =
     (case an_get_secret an log ''kube-system'' secretName of
        Inl err \<Rightarrow> (Some err, log @ [(GetSecret ''kube-system'' secretName, False)])
      | Inr secret \<Rightarrow> (None, snd (writeToFile an (bytes_of (se_data secret) ''tls.crt'') (bytes_of (se_data secret) ''tls.key'')
            ''tls.crt'' ''tls.key'' (log @ [(GetSecret ''kube-system'' secretName, True)]))))"
proof -
  have poll: "poll cond log = (None, log')" if "cond log = ((True, None), log')" for cond log log'
    using assms that unfolding documented_poller_def by blast
  have poll_err: "poll cond log = (Some err, log')" if "cond log = ((b, Some err), log')" for cond log log' b err
    using assms that unfolding documented_poller_def by blast
  show ?thesis
    unfolding waitForCertDetailsUpdate_def
    by (auto simp: writeCertDetailsFromSecret_def Let_def case_prod_beta intro!: poll poll_err split: sum.splits)
qed

lemma waiting_quiet:
  assumes "documented_poller poll" "\<not> list_ex changes_cluster log"
  shows "\<not> list_ex changes_cluster (snd (waitForCertDetailsUpdate poll an log))"
proof (cases "an_get_secret an log ''kube-system'' secretName")
  case (Inl err)
  then show ?thesis
    using assms(2) by (simp add: waiting [OF assms(1)] changes_cluster_def)
next
  case (Inr secret)
  let ?log = "log @ [(GetSecret ''kube-system'' secretName, True)]"
  obtain log' where "snd (writeToFile an (bytes_of (se_data secret) ''tls.crt'') (bytes_of (se_data secret) ''tls.key'')
      ''tls.crt'' ''tls.key'' ?log) = ?log @ log'" "\<not> list_ex changes_cluster log'"
    using writeToFile_cases [of an "bytes_of (se_data secret) ''tls.crt''" "bytes_of (se_data secret) ''tls.key''" ?log] by blast
  moreover have "\<not> changes_cluster (GetSecret ''kube-system'' secretName, True)"
    by (simp add: changes_cluster_def)
  ultimately show ?thesis
    using Inr assms(2) by (simp add: waiting [OF assms(1)])
qed

lemma waiting_creates_no_secret:
  assumes "documented_poller poll" "(CreateSecret ns created, True) \<notin> set log"
  shows "(CreateSecret ns created, True) \<notin> set (snd (waitForCertDetailsUpdate poll an log))"
  using assms(2)
  by (auto simp: waiting [OF assms(1)] writeToFile_def write_file_def Let_def split: sum.splits option.splits)

definition immediate_poller :: poller where
  "immediate_poller cond log =
     (case cond log of
        ((b, Some err), log) \<Rightarrow> (Some err, log)
      | ((True, None), log) \<Rightarrow> (None, log)
      | ((False, None), log) \<Rightarrow> (Some ''timed out'', log))"

lemma documented_immediate: "documented_poller immediate_poller"
  by (auto simp: documented_poller_def immediate_poller_def split: bool.splits)

section \<open>Examples\<close>

text \<open>A cluster where every call succeeds and an old webhook configuration exists.\<close>

definition sample_answers :: cluster_answers where
  "sample_answers =
     \<lparr>an_get_pod = (\<lambda>l ns n. Inr []), an_decode_owners = (\<lambda>b. Inr []), an_create_secret = (\<lambda>l ns s. None),
      an_get_secret = (\<lambda>l ns n. Inl ''not found''), an_write_file = (\<lambda>l p c. None),
      an_get_webhook = (\<lambda>l n. True), an_delete_webhook = (\<lambda>l n. None), an_create_webhook = (\<lambda>l c. None),
      an_get_service = (\<lambda>l ns n. False), an_delete_service = (\<lambda>l ns n. None), an_create_service = (\<lambda>l ns s. None)\<rparr>"

definition sample_install :: "cluster_answers \<Rightarrow> (string, string, string) install_env" where
  "sample_install an =
     \<lparr>ie_cluster_config = None, ie_new_client = None, ie_pod_name = Some ''nri-0'',
      ie_pki = \<lparr>pk_parse_request = (\<lambda>r. Inr (''csr'', ''key'')), pk_new_ca = (\<lambda>r. Inr (''ca'', ''cakey'')),
                pk_parse_key = (\<lambda>k. Inr k), pk_parse_cert = (\<lambda>c. Inr c), pk_new_signer = (\<lambda>k c. Inr k),
                pk_sign = (\<lambda>s r. Inr ''cert'')\<rparr>,
      ie_answers = an, ie_poll = immediate_poller\<rparr>"

lemma sample_certificates: "make_certificates (ie_pki (sample_install an)) prefix ns = Inr (''cert'', ''key'', ''ca'')"
  by (simp add: make_certificates_def generateCACertificate_def generateCSR_def sample_install_def Let_def)

section \<open>Properties\<close>

text \<open>
  C17: certificates come first. Whatever the cluster, the other installers and the file system
  answer, an installer changes the webhook configuration or the service only after it has
  itself created the secret and written both files, with the certificate and key of the secret.
\<close>

theorem certificates_before_webhook:
  assumes "documented_poller (ie_poll env)" "Install env ns prefix fp = (res, log)" "list_ex changes_cluster log"
  shows "\<exists>podName owner certificate key rest. log = secured_log podName owner certificate key @ rest"
proof -
  have "log \<noteq> []"
    using assms(3) by auto
  with assms(2) show ?thesis
  proof (cases rule: Install_cases)
    case (won podName certificate key ca owner secret_log)
    moreover have "\<not> list_ex changes_cluster secret_log"
      by (simp add: won(2) changes_cluster_def)
    ultimately show ?thesis
      using create_resources_secured [of secret_log "ie_answers env" ns prefix fp certificate key ca] assms(3)
      by (fastforce simp: secured_log_def secret_of_def)
  next
    case (lost podName certificate key owner secret_log)
    then have "\<not> list_ex changes_cluster log"
      using waiting_quiet [OF assms(1), of secret_log] by (simp add: changes_cluster_def)
    with assms(3) show ?thesis by simp
  qed (use assms(3) in \<open>simp add: changes_cluster_def\<close>)
qed

theorem certificates_before_webhook_witness:
  "\<exists>log rest. Install (sample_install sample_answers) ''kube-system'' ''nri'' ''Fail'' = (None, log) \<and> list_ex changes_cluster log \<and>
     log = secured_log ''nri-0'' \<lparr>ow_kind = [], ow_api_version = [], ow_name = [], ow_uid = []\<rparr> ''cert'' ''key'' @ rest"
proof -
  obtain res log where run: "Install (sample_install sample_answers) ''kube-system'' ''nri'' ''Fail'' = (res, log)"
    by (cases "Install (sample_install sample_answers) ''kube-system'' ''nri'' ''Fail''")
  have "case Install (sample_install sample_answers) ''kube-system'' ''nri'' ''Fail'' of (res, log) \<Rightarrow>
      res = None \<and> list_ex changes_cluster log \<and>
      take 4 log = secured_log ''nri-0'' \<lparr>ow_kind = [], ow_api_version = [], ow_name = [], ow_uid = []\<rparr> ''cert'' ''key''"
    by code_simp
  then have facts: "res = None" "list_ex changes_cluster log"
    "take 4 log = secured_log ''nri-0'' \<lparr>ow_kind = [], ow_api_version = [], ow_name = [], ow_uid = []\<rparr> ''cert'' ''key''"
    by (simp_all add: run)
  have "documented_poller (ie_poll (sample_install sample_answers))"
    by (simp add: sample_install_def documented_immediate)
  from certificates_before_webhook [OF this run facts(2)] facts(3)
  have "\<exists>rest. log = secured_log ''nri-0'' \<lparr>ow_kind = [], ow_api_version = [], ow_name = [], ow_uid = []\<rparr> ''cert'' ''key'' @ rest"
    by (metis append_take_drop_id)
  with run facts show ?thesis by blast
qed

text \<open>
  C30: the installer that loses the race for the secret changes nothing in the cluster, reads the
  secret once, and writes its certificate and key to the files. It does not wait: if the first
  attempt to read the secret fails the installation ends in a fatal error, and if a file cannot
  be written it ends as a success.
\<close>

theorem losing_installer:
  assumes "ie_cluster_config env = None" "ie_new_client env = None" "ie_pod_name env = Some podName"
    "make_certificates (ie_pki env) prefix ns = Inr (certificate, key, ca)" "documented_poller (ie_poll env)"
    "createSecret (ie_answers env) podName certificate key ''tls.crt'' ''tls.key'' [] = (Inr (Some err), log)"
  shows "Install env ns prefix fp =
     (case an_get_secret (ie_answers env) log ''kube-system'' secretName of
        Inl e \<Rightarrow> (Some (FatalWaiting e), log @ [(GetSecret ''kube-system'' secretName, False)])
      | Inr secret \<Rightarrow> (None, snd (writeToFile (ie_answers env) (bytes_of (se_data secret) ''tls.crt'') (bytes_of (se_data secret) ''tls.key'')
            ''tls.crt'' ''tls.key'' (log @ [(GetSecret ''kube-system'' secretName, True)]))))"
  using assms(1-4,6) by (auto simp: Install_def populatePodName_def waiting [OF assms(5)] split: sum.splits)

theorem losing_installer_witness:
  "let an = sample_answers\<lparr>an_create_secret := (\<lambda>l ns s. Some ''already exists''),
        an_get_secret := (\<lambda>l ns n. Inr \<lparr>se_name = n, se_owners = [], se_data = [(''tls.crt'', ''c''), (''tls.key'', ''k'')]\<rparr>),
        an_write_file := (\<lambda>l p c. Some ''read-only'')\<rparr>
   in fst (Install (sample_install an) ''ns'' ''nri'' ''Fail'') = None \<and>
      (WriteFile ''/etc/tls/tls.crt'' ''c'', False) \<in> set (snd (Install (sample_install an) ''ns'' ''nri'' ''Fail''))"
proof -
  let ?an = "sample_answers\<lparr>an_create_secret := (\<lambda>l ns s. Some ''already exists''),
        an_get_secret := (\<lambda>l ns n. Inr \<lparr>se_name = n, se_owners = [], se_data = [(''tls.crt'', ''c''), (''tls.key'', ''k'')]\<rparr>),
        an_write_file := (\<lambda>l p c. Some ''read-only'')\<rparr>"
  obtain log where log: "createSecret ?an ''nri-0'' ''cert'' ''key'' ''tls.crt'' ''tls.key'' [] = (Inr (Some ''already exists''), log)"
    by (simp add: createSecret_cases sample_answers_def Let_def)
  have "Install (sample_install ?an) ''ns'' ''nri'' ''Fail'' =
     (case an_get_secret ?an log ''kube-system'' secretName of
        Inl e \<Rightarrow> (Some (FatalWaiting e), log @ [(GetSecret ''kube-system'' secretName, False)])
      | Inr secret \<Rightarrow> (None, snd (writeToFile ?an (bytes_of (se_data secret) ''tls.crt'') (bytes_of (se_data secret) ''tls.key'')
            ''tls.crt'' ''tls.key'' (log @ [(GetSecret ''kube-system'' secretName, True)]))))"
    using losing_installer [of "sample_install ?an" "''nri-0''" "''nri''" "''ns''" "''cert''" "''key''" "''ca''" "''already exists''" log "''Fail''"]
      log sample_certificates by (simp add: sample_install_def documented_immediate)
  then show ?thesis
    by (simp add: writeToFile_def write_file_def bytes_of_def sample_answers_def Let_def)
qed

text \<open>
  C38: an unknown failure policy is only found after the removal. With the secret and the files
  in place and a configuration of an earlier installation in the cluster, an installer with an
  unknown policy deletes that configuration, creates none, and ends in a fatal error.
\<close>

theorem unknown_policy_removes_webhook:
  assumes "parse_failure_policy fp = Inl err" "an_get_webhook an log (go_join ''-'' [prefix, ''mutating-config''])"
  shows "createMutatingWebhookConfiguration an prefix ns ca fp log =
     (Some ''unknown failure policy type'',
      log @ [(GetWebhookConfiguration (go_join ''-'' [prefix, ''mutating-config'']), True),
             (DeleteWebhookConfiguration (go_join ''-'' [prefix, ''mutating-config'']),
              an_delete_webhook an (log @ [(GetWebhookConfiguration (go_join ''-'' [prefix, ''mutating-config'']), True)])
                (go_join ''-'' [prefix, ''mutating-config'']) = None)])"
  using assms by (simp add: createMutatingWebhookConfiguration_def removeMutatingWebhookIfExists_def parse_failure_policy_def
      Let_def split: if_splits)

theorem unknown_policy_removes_webhook_witness:
  "createMutatingWebhookConfiguration sample_answers ''nri'' ''ns'' ''ca'' ''ignored'' [] =
     (Some ''unknown failure policy type'',
      [(GetWebhookConfiguration ''nri-mutating-config'', True), (DeleteWebhookConfiguration ''nri-mutating-config'', True)])"
proof -
  have "parse_failure_policy ''ignored'' = Inl ''unknown failure policy type''"
    by code_simp
  then show ?thesis
    using unknown_policy_removes_webhook [of "''ignored''" _ sample_answers "[]" "''nri''" "''ns''" "''ca''"]
    by (simp add: sample_answers_def)
qed

text \<open>
  C31: what an installation creates. A run that succeeds and whose log has the creation of the
  secret has created a webhook configuration with the policy of the flag, the CA of its
  certificates, and a selector that leaves out kube-system and the installer's namespace; and
  last the service in that namespace that the configuration refers to.
\<close>

theorem successful_installation:
  assumes "documented_poller (ie_poll env)" "Install env ns prefix fp = (None, log)"
    "(CreateSecret ''kube-system'' created, True) \<in> set log"
  shows "\<exists>certificate key ca policy configuration service.
     make_certificates (ie_pki env) prefix ns = Inr (certificate, key, ca) \<and> parse_failure_policy fp = Inr policy \<and>
     (CreateWebhookConfiguration configuration, True) \<in> set log \<and> last log = (CreateService ns service, True) \<and>
     wc_failure_policy configuration = policy \<and> wc_ca_bundle configuration = ca \<and>
     wc_service_path configuration = ''/mutate'' \<and>
     wc_service_namespace configuration = ns \<and> wc_service_name configuration = sv_name service \<and>
     (\<exists>values. wc_namespace_selector configuration = [\<lparr>lr_key = ''kubernetes.io/metadata.name'', lr_operator = ''NotIn'', lr_values = values\<rparr>] \<and>
        set values = {''kube-system'', ns}) \<and>
     (sv_port service, sv_target_port service) = (443, 8443)"
proof -
  have "log \<noteq> []"
    using assms(3) by auto
  with assms(2) show ?thesis
  proof (cases rule: Install_cases)
    case (won podName certificate key ca owner secret_log)
    have "created_as_documented ns fp ca log"
      by (rule create_resources_success [OF won(3)])
    with won(1) show ?thesis
      unfolding created_as_documented_def by (intro exI [of _ certificate] exI [of _ key] exI [of _ ca]) simp
  next
    case (lost podName certificate key owner secret_log)
    then have "(CreateSecret ''kube-system'' created, True) \<notin> set log"
      using waiting_creates_no_secret [OF assms(1), of "''kube-system''" created secret_log] by simp
    with assms(3) show ?thesis by simp
  qed simp
qed

theorem successful_installation_witness:
  "\<exists>configuration service log. Install (sample_install sample_answers) ''ns'' ''nri'' '' fail '' = (None, log) \<and>
     (CreateWebhookConfiguration configuration, True) \<in> set log \<and> last log = (CreateService ''ns'' service, True) \<and>
     wc_service_name configuration = sv_name service"
proof -
  obtain res log where run: "Install (sample_install sample_answers) ''ns'' ''nri'' '' fail '' = (res, log)"
    by (cases "Install (sample_install sample_answers) ''ns'' ''nri'' '' fail ''")
  let ?created = "secret_of \<lparr>ow_kind = [], ow_api_version = [], ow_name = [], ow_uid = []\<rparr> ''cert'' ''key''"
  have "case Install (sample_install sample_answers) ''ns'' ''nri'' '' fail '' of (res, log) \<Rightarrow>
      res = None \<and> (CreateSecret ''kube-system'' ?created, True) \<in> set log"
    by code_simp
  then have facts: "res = None" "(CreateSecret ''kube-system'' ?created, True) \<in> set log"
    by (simp_all add: run)
  have "documented_poller (ie_poll (sample_install sample_answers))"
    by (simp add: sample_install_def documented_immediate)
  from successful_installation [OF this run [unfolded facts(1)] facts(2)] obtain configuration service where
    "(CreateWebhookConfiguration configuration, True) \<in> set log" "last log = (CreateService ''ns'' service, True)"
    "wc_service_name configuration = sv_name service"
    by (elim exE conjE)
  with run facts(1) show ?thesis
    by (intro exI [of _ configuration] exI [of _ service] exI [of _ log]) simp
qed

end
