(* ===== verification/Spec2Isabelle.thy ===== *)
theory Spec2Isabelle
  imports Nri_System Installer
begin

text \<open>
  The network resources injector: a mutating admission webhook for Kubernetes pods, with an
  installer that sets up its certificates and its registration.

  \<^bold>\<open>The program.\<close> The webhook process (\<^verbatim>\<open>src/cmd/webhook/main.go\<close>) reads its flags, loads its
  key pair and client CAs, starts a cache of network attachment definitions that an informer
  fills, serves \<^verbatim>\<open>/mutate\<close> and a health check, and runs a loop that reloads the certificate when
  its files change and polls a ConfigMap. For a pod that names networks in its annotations the
  handler (\<^verbatim>\<open>src/pkg/webhook/webhook.go\<close>) looks each network up, counts the resources that the
  networks name, and answers with a JSON patch: resources for the first container, the Downward
  API volume with its mounts and variables, injected annotations, and a node selector. The
  ConfigMap turns two features on and off (\<^verbatim>\<open>src/pkg/controlswitches\<close>) and holds the annotations
  to inject (\<^verbatim>\<open>src/pkg/userdefinedinjections\<close>). The installer (\<^verbatim>\<open>src/pkg/installer/installer.go\<close>,
  \<^verbatim>\<open>src/cmd/installer/main.go\<close>) makes a CA and a certificate, stores them in a secret, writes
  them to files and registers the webhook and its service; several installers may race.

  \<^bold>\<open>The theories\<close>, each importing those it builds on:
  \<^item> \<open>Go_Base\<close>: the shared base. Results and runs of steps that may panic, maps as association
    lists with the operations of a Go map and with the order of a \<open>range\<close> loop as a parameter,
    and the string functions of the standard library that the code calls.
  \<^item> \<open>Go_Json\<close>: JSON texts and values, the parser and the strict decoding into the
    interface type, with the facts that make decoding total.
  \<^item> \<open>Nri_Types\<close>: the pod as far as the code reads it, patch operations
    (\<^verbatim>\<open>src/pkg/types/types.go\<close>) and their decoding.
  \<^item> \<open>Contracts\<close>: the interfaces that components share, as locales over a step that may panic:
    steps that keep an invariant, steps that moreover never panic, and idempotent ones.
  \<^item> \<open>Control_Switches\<close>: \<^verbatim>\<open>controlswitches.go\<close>. The state is \<open>control_switches\<close>, a record with the
    fields of the struct; the specification of one ConfigMap is \<open>updated_switch\<close>.
  \<^item> \<open>User_Injections\<close>: \<^verbatim>\<open>userdefinedinjections.go\<close>. The variable that the turns of its loop share
    is a component of the state of \<open>set_injection\<close>.
  \<^item> \<open>Nad_Cache\<close>: \<^verbatim>\<open>src/pkg/tools/cache.go\<close>. The map is an option, \<open>None\<close> being the nil map; a
    handler that panics is \<open>None\<close>. The specification is the history of the reports.
  \<^item> \<open>Net_Selection\<close>: the functions of \<^verbatim>\<open>webhook.go\<close> that find the networks of a pod, parse their two
    forms, and count the resources of each network.
  \<^item> \<open>Patch_Build\<close>: the functions of \<^verbatim>\<open>webhook.go\<close> that append operations to the patch.
  \<^item> \<open>Json_Patch\<close>: what the API server does with the patch. A document is the part of a pod that
    the patch can name; \<open>apply_patch\<close> applies operations as RFC 6902 says, failing where a parent
    does not exist. The locales for effects are interpreted for every builder, and the theorems
    say what each builder does to the pod.
  \<^item> \<open>Mutate_Handler\<close>: reading and validation of a request, the namespace of the pod,
    \<open>MutateHandler\<close> with all its early returns, and the reply.
  \<^item> \<open>Tls_Config\<close>: \<^verbatim>\<open>tlsconfig.go\<close> and \<^verbatim>\<open>tlsutils.go\<close>, the flags for TLS, the reloaded key pair and
    the pool of client CAs.
  \<^item> \<open>Webhook_Main\<close>: \<^verbatim>\<open>src/cmd/webhook/main.go\<close>, with \<open>start\<close> for what comes before the API client, \<open>watch_files\<close>
    for the watcher of the two files, \<open>run_main\<close> for both up to the loop, and the loop as the step function \<open>loop_step\<close> and the inductive relation \<open>loop_reaches\<close>.
  \<^item> \<open>Nri_System\<close>: the process as a whole. A step of \<open>nri_reaches\<close> is a turn of the loop or an event
    of the informer, and \<open>handler_state\<close> is the state that a request finds between two steps, the
    package variables of the webhook as its three setters leave them.
  \<^item> \<open>Installer\<close>: an installation as a log of the operations on the cluster and the files, each
    with whether it succeeded.
\<close>

text \<open>
  \<^bold>\<open>What the theorems show.\<close> They are numbered by importance.
  \<^item> Verdict and patch (C1 to C4, C18, C19, C25, C26, C32, C33): for which pods the handler allows with a
    patch, allows without one, or denies; every patch it builds applies to its pod, and the pod
    that results is the specified one, in resources, hugepage variables, volume, annotations and
    node selector, for every order in which Go may visit a map.
  \<^item> Networks (C5 to C8, C37): the grammar of the comma-separated form and its round trip, what is
    accepted at all, when parsing panics, and the counters, which wrap at 64 bits.
  \<^item> Requests and replies (C9, C23, C24, C34, C35): which requests are refused when they are read,
    when an error of decoding the pod is lost, that a reply answers its request, under which
    conditions every request gets a reply, and an injection that panics the handler.
  \<^item> ConfigMap (C10, C11, C20 to C22, C29, C39, C40): each poll refines its specification, polling
    never panics and settles, injections only touch annotations and are selected exactly by label;
    the resource name keys are those of the flag; an entry that takes over the fields of another;
    and features that no poll of a deleted ConfigMap restores.
  \<^item> Cache and process (C12 to C16, C36): the cache refines the informer's reports; a request sees
    the last report and the last poll in every interleaving; the loop keeps its invariant; what a
    successful start guarantees about ports, certificates and clients; which events the handlers
    cannot take after \<open>Stop\<close>.
  \<^item> TLS flags (C27, C28): the round trip of the curves, and that no insecure suite is accepted.
  \<^item> Installer (C17, C30, C31, C38): the certificates are in place before the webhook is registered,
    what the loser of the race does, what its winner has created, and an order that loses a webhook.

  \<^bold>\<open>Conventions.\<close> A panic is \<open>None\<close> of an option type and a returned error is \<open>Inl\<close> or an
  \<open>error option\<close> beside the values, as the code has it. \<open>int64\<close> and \<open>uint16\<close> are words of 64 and 16 bits.
  A \<open>range\<close> loop over a map visits the entries in an order given by a function; \<open>lawful_order\<close> says
  that this is a permutation, and a theorem without that hypothesis holds for any function at all.

  \<^bold>\<open>Bounds and fuel.\<close> The JSON parser takes as its fuel twice the length of the text and two, more
  than its calls can use since every second call consumes a character; \<open>parse_value_fuel\<close> shows that
  more fuel never changes a result. The depth of nesting is limited to 10000 as in the decoder of Go. All other
  recursion is structural or has a termination proof.

  \<^bold>\<open>Parameters.\<close> Code outside the repository is an argument: arithmetic on quantities of the
  Kubernetes API; the decoders of reviews, pods and selections; the lists of owners and the API
  client for networks; the file system, the x509 and cliflag functions and cfssl; the poller and the
  answers of the cluster. Hypotheses about them are named (\<open>lawful_history\<close> for the order of an
  informer's events, \<open>documented_poller\<close> for the poller's first attempt), and the witnesses
  instantiate them with concrete functions.

  \<^bold>\<open>Not modelled.\<close> The construction of the API clients (\<^verbatim>\<open>SetupInClusterClient\<close>,
  \<^verbatim>\<open>setupNetAttachDefClient\<close>), which only calls the client library; the output of a reply to its
  connection and the log; the internals of the HTTP and TLS servers; time, of which only the order
  of events is kept. A step of the process is atomic: the locks of the cache, the injections and
  the key pair make their operations so, but the switches have no lock, and what a data race
  on them would do is outside the model.
\<close>

end
